(* ===== verification/Homer_Prelude.thy ===== *)
theory Homer_Prelude
  imports Main "HOL-Library.Word" "HOL-Library.Sublist"
begin

text \<open>
  The shared base of the development: the fragment of Go that the modelled code is written in.
  Go's \<open>string\<close> and \<open>[]byte\<close> are byte sequences; both are \<open>string\<close> here (HOL characters are
  exactly the 256 byte values), so the zero-copy casts of the source (\<open>btos\<close>, \<open>stob\<close>) are the
  identity. A search that returns \<open>-1\<close> in Go returns \<open>None\<close>. Code that can fail returns a value
  of \<open>go_result\<close>: a value, an error value, or a run-time panic.

  The theory holds the result type, the byte and big-endian readings, and the functions of the
  Go packages \<open>strings\<close> and \<open>strconv\<close> that the modelled files call, each with the lemmas the
  components share. Case folding (\<open>EqualFold\<close>, \<open>ToLower\<close>) is the ASCII one: the source folds only
  header names, media types and SIP methods.
\<close>

named_theorems go_simps \<open>unfolding rules of the Go string operations\<close>

type_synonym bytes = string

subsection \<open>Results: values, errors and panics\<close>

datatype ('e, 'a) go_result = Returns 'a | Fails 'e | Panics

fun go_bind :: "('e, 'a) go_result \<Rightarrow> ('a \<Rightarrow> ('e, 'b) go_result) \<Rightarrow> ('e, 'b) go_result" where
  "go_bind (Returns x) f = f x"
| "go_bind (Fails e) f = Fails e"
| "go_bind Panics f = Panics"

lemma go_bind_eq_Returns:
  "go_bind r f = Returns y \<longleftrightarrow> (\<exists>x. r = Returns x \<and> f x = Returns y)"
  by (cases r) auto

lemma go_bind_eq_Panics:
  "go_bind r f = Panics \<longleftrightarrow> r = Panics \<or> (\<exists>x. r = Returns x \<and> f x = Panics)"
  by (cases r) auto

lemma go_bind_assoc: "go_bind (go_bind r f) g = go_bind r (\<lambda>x. go_bind (f x) g)"
  by (cases r) auto

text \<open>\<open>xs[i:j]\<close>: a slice expression panics unless \<open>i \<le> j \<le> len(xs)\<close>.\<close>

definition go_slice :: "'a list \<Rightarrow> nat \<Rightarrow> nat \<Rightarrow> ('e, 'a list) go_result" where
  "go_slice xs i j = (if i \<le> j \<and> j \<le> length xs then Returns (take (j - i) (drop i xs)) else Panics)"

definition go_index :: "'a list \<Rightarrow> nat \<Rightarrow> ('e, 'a) go_result" where
  "go_index xs i = (if i < length xs then Returns (xs ! i) else Panics)"

lemma go_slice_Returns_iff:
  "go_slice xs i j = Returns ys \<longleftrightarrow> i \<le> j \<and> j \<le> length xs \<and> ys = take (j - i) (drop i xs)"
  by (auto simp: go_slice_def)

lemma go_slice_Panics_iff: "go_slice xs i j = Panics \<longleftrightarrow> \<not> (i \<le> j \<and> j \<le> length xs)"
  by (auto simp: go_slice_def)

subsection \<open>Bytes and big-endian integers\<close>

abbreviation byte_val :: "char \<Rightarrow> nat" where
  "byte_val c \<equiv> of_char c"

abbreviation byte_of :: "nat \<Rightarrow> char" where
  "byte_of n \<equiv> char_of n"

lemma byte_val_less [simp]: "byte_val c < 256"
proof -
  have "byte_val c = byte_val c mod 256"
    by simp
  then show ?thesis
    by (metis mod_less_divisor zero_less_numeral)
qed

definition be_val :: "bytes \<Rightarrow> nat" where
  "be_val s = foldl (\<lambda>a c. a * 256 + byte_val c) 0 s"

fun be_bytes :: "nat \<Rightarrow> nat \<Rightarrow> bytes" where
  "be_bytes 0 v = []"
| "be_bytes (Suc k) v = be_bytes k (v div 256) @ [byte_of (v mod 256)]"

lemma be_val_Nil [simp]: "be_val [] = 0"
  by (simp add: be_val_def)

lemma be_val_snoc [simp]: "be_val (s @ [c]) = be_val s * 256 + byte_val c"
  by (simp add: be_val_def)

lemma be_val_inj: "length a = length b \<Longrightarrow> be_val a = be_val b \<Longrightarrow> a = b"
proof (induction a arbitrary: b rule: rev_induct)
  case Nil
  then show ?case by simp
next
  case (snoc x a)
  then obtain y b' where b: "b = b' @ [y]" by (cases b rule: rev_cases) auto
  with snoc.prems have eq: "be_val a * 256 + byte_val x = be_val b' * 256 + byte_val y" by simp
  have "be_val a = (be_val a * 256 + byte_val x) div 256" by simp
  also have "\<dots> = be_val b'" by (subst eq) simp
  finally have "be_val a = be_val b'" .
  with eq b snoc show ?case by (simp add: of_char_eq_iff)
qed

lemma length_be_bytes [simp]: "length (be_bytes k v) = k"
  by (induction k arbitrary: v) auto

lemma be_val_bound: "be_val s < 256 ^ length s"
proof (induction s rule: rev_induct)
  case Nil
  show ?case by simp
next
  case (snoc c s)
  have "be_val s * 256 + byte_val c < (be_val s + 1) * 256"
    using byte_val_less [of c] by simp
  also have "\<dots> \<le> 256 ^ length s * 256"
    using snoc by (intro mult_right_mono) auto
  finally show ?case by (simp add: mult.commute)
qed

lemma be_val_be_bytes: "be_val (be_bytes k v) = v mod 256 ^ k"
proof (induction k arbitrary: v)
  case 0
  show ?case by simp
next
  case (Suc k)
  have "be_val (be_bytes (Suc k) v) = (v div 256) mod 256 ^ k * 256 + v mod 256"
    by (simp add: Suc.IH of_char_of)
  also have "\<dots> = v mod (256 * 256 ^ k)"
    by (simp add: mod_mult2_eq)
  finally show ?case by simp
qed

lemma unat_of_nat32: "n < 2 ^ 32 \<Longrightarrow> unat (word_of_nat n :: 32 word) = n"
  by (simp add: unat_of_nat take_bit_nat_eq_self)

lemma unat_of_nat16: "n < 2 ^ 16 \<Longrightarrow> unat (word_of_nat n :: 16 word) = n"
  by (simp add: unat_of_nat take_bit_nat_eq_self)

definition be16 :: "bytes \<Rightarrow> 16 word" where
  "be16 s = word_of_nat (be_val (take 2 s))"

definition be32 :: "bytes \<Rightarrow> 32 word" where
  "be32 s = word_of_nat (be_val (take 4 s))"

lemma unat_be16: "unat (be16 s) = be_val (take 2 s)"
proof -
  have "be_val (take 2 s) < 256 ^ length (take 2 s)"
    by (rule be_val_bound)
  also have "\<dots> \<le> 256 ^ 2"
    by (rule power_increasing) auto
  finally show ?thesis
    by (simp add: be16_def unat_of_nat take_bit_nat_eq_self)
qed

subsection \<open>Package strings: searching\<close>

abbreviation HasPrefix :: "string \<Rightarrow> string \<Rightarrow> bool" where
  "HasPrefix s p \<equiv> prefix p s"

abbreviation HasSuffix :: "string \<Rightarrow> string \<Rightarrow> bool" where
  "HasSuffix s p \<equiv> suffix p s"

fun IndexByte :: "string \<Rightarrow> char \<Rightarrow> nat option" where
  "IndexByte [] c = None"
| "IndexByte (x # xs) c = (if x = c then Some 0 else map_option Suc (IndexByte xs c))"

fun Index :: "'a list \<Rightarrow> 'a list \<Rightarrow> nat option" where
  "Index [] p = (if p = [] then Some 0 else None)"
| "Index (x # xs) p = (if prefix p (x # xs) then Some 0 else map_option Suc (Index xs p))"

definition Contains :: "string \<Rightarrow> string \<Rightarrow> bool" where
  "Contains s p \<longleftrightarrow> Index s p \<noteq> None"

lemma IndexByte_None_iff [simp]: "IndexByte s c = None \<longleftrightarrow> c \<notin> set s"
  by (induction s) auto

lemma IndexByte_notin [simp]: "c \<notin> set s \<Longrightarrow> IndexByte s c = None"
  by simp

lemma IndexByte_Some_iff:
  "IndexByte s c = Some i \<longleftrightarrow> i < length s \<and> s ! i = c \<and> (\<forall>j<i. s ! j \<noteq> c)"
proof (induction s arbitrary: i)
  case Nil
  show ?case by simp
next
  case (Cons x xs)
  show ?case
  proof (cases i)
    case 0
    then show ?thesis by (auto split: option.splits)
  next
    case (Suc k)
    then show ?thesis by (auto simp: Cons.IH All_less_Suc2 split: if_splits)
  qed
qed

lemma IndexByte_less: "IndexByte s c = Some i \<Longrightarrow> i < length s"
  by (simp add: IndexByte_Some_iff)

lemma IndexByte_split:
  assumes "IndexByte s c = Some i"
  shows "s = take i s @ c # drop (Suc i) s" and "c \<notin> set (take i s)"
proof -
  from assms have i: "i < length s" "s ! i = c" "\<forall>j<i. s ! j \<noteq> c"
    by (simp_all add: IndexByte_Some_iff)
  then show "s = take i s @ c # drop (Suc i) s"
    by (metis id_take_nth_drop)
  from i show "c \<notin> set (take i s)"
    by (auto simp: in_set_conv_nth)
qed

lemma IndexByte_append:
  "c \<notin> set a \<Longrightarrow> IndexByte (a @ c # b) c = Some (length a)"
  by (induction a) auto

lemma Index_Some_split:
  "Index s p = Some i \<Longrightarrow> s = take i s @ p @ drop (i + length p) s"
proof (induction s arbitrary: i)
  case Nil
  then show ?case by (simp split: if_splits)
next
  case (Cons x xs)
  show ?case
  proof (cases "prefix p (x # xs)")
    case True
    with Cons.prems show ?thesis by (auto simp: prefix_def)
  next
    case False
    with Cons.prems obtain k where k: "Index xs p = Some k" "i = Suc k"
      by (auto split: option.splits)
    with Cons.IH [OF k(1)] show ?thesis by simp
  qed
qed

lemma Index_Some_bound: "Index s p = Some i \<Longrightarrow> i + length p \<le> length s"
proof (induction s arbitrary: i)
  case Nil
  then show ?case by (simp split: if_splits)
next
  case (Cons x xs)
  then show ?case
    by (cases "prefix p (x # xs)") (auto dest: prefix_length_le split: option.splits)
qed

lemma Index_None_iff: "Index s p = None \<longleftrightarrow> (\<forall>j\<le>length s. \<not> prefix p (drop j s))"
proof (induction s)
  case Nil
  show ?case by auto
next
  case (Cons x xs)
  have "(\<forall>j\<le>length (x # xs). \<not> prefix p (drop j (x # xs))) \<longleftrightarrow>
      \<not> prefix p (x # xs) \<and> (\<forall>j\<le>length xs. \<not> prefix p (drop j xs))"
    by (simp add: less_Suc_eq_le [symmetric] All_less_Suc2)
  then show ?case by (simp add: Cons.IH)
qed

lemma Index_None_iff_not_sublist: "Index s p = None \<longleftrightarrow> \<not> sublist p s"
proof -
  have "sublist p s \<longleftrightarrow> (\<exists>j\<le>length s. prefix p (drop j s))"
  proof
    assume "sublist p s"
    then obtain a b where "s = a @ p @ b" by (auto simp: sublist_def)
    then show "\<exists>j\<le>length s. prefix p (drop j s)"
      by (intro exI [of _ "length a"]) auto
  next
    assume "\<exists>j\<le>length s. prefix p (drop j s)"
    then obtain j b where "drop j s = p @ b" by (auto simp: prefix_def)
    then have "s = take j s @ p @ b" by (metis append_take_drop_id)
    then show "sublist p s" by (auto simp: sublist_def)
  qed
  then show ?thesis by (auto simp: Index_None_iff)
qed

lemma Contains_iff_sublist [simp]: "Contains s p \<longleftrightarrow> sublist p s"
  by (metis Contains_def Index_None_iff_not_sublist)

lemma sublist_single: "sublist [c] s \<longleftrightarrow> c \<in> set s"
  by (auto simp: sublist_def in_set_conv_decomp)

lemma Index_least: "Index s p = Some i \<Longrightarrow> j < i \<Longrightarrow> \<not> prefix p (drop j s)"
proof (induction s arbitrary: i j)
  case Nil
  then show ?case by (simp split: if_splits)
next
  case (Cons x xs)
  then show ?case
    by (cases j) (auto split: if_splits)
qed

lemma Index_Some_prefix: "Index s p = Some i \<Longrightarrow> prefix p (drop i s)"
proof -
  assume i: "Index s p = Some i"
  have "drop i s = drop i (take i s @ p @ drop (i + length p) s)"
    using Index_Some_split [OF i] by simp
  also have "\<dots> = p @ drop (i + length p) s"
    using Index_Some_bound [OF i] by simp
  finally show ?thesis by simp
qed

lemma Index_SomeI:
  assumes "prefix p (drop i s)" and "i \<le> length s" and "\<And>j. j < i \<Longrightarrow> \<not> prefix p (drop j s)"
  shows "Index s p = Some i"
proof (cases "Index s p")
  case None
  with assms(1,2) show ?thesis by (simp add: Index_None_iff)
next
  case (Some k)
  have "prefix p (drop k s)"
    by (rule Index_Some_prefix [OF Some])
  then have "\<not> k < i" using assms(3) by blast
  moreover have "\<not> i < k" using Index_least [OF Some] assms(1) by blast
  ultimately show ?thesis using Some by simp
qed

lemma Index_skip:
  "(\<And>j. j < length a \<Longrightarrow> \<not> prefix p (drop j (a @ b))) \<Longrightarrow> Index (a @ b) p = map_option ((+) (length a)) (Index b p)"
proof (induction a)
  case Nil
  show ?case by (cases "Index b p") simp_all
next
  case (Cons x a)
  have "\<not> prefix p (x # a @ b)" using Cons.prems [of 0] by simp
  moreover have "Index (a @ b) p = map_option ((+) (length a)) (Index b p)"
    by (rule Cons.IH) (use Cons.prems [of "Suc _"] in simp)
  ultimately show ?case by (cases "Index b p") simp_all
qed

subsection \<open>Package strings: splitting and joining\<close>

text \<open>\<open>strings.Split\<close> for a non-empty separator (every call of the modelled code has one).\<close>

function Split :: "string \<Rightarrow> string \<Rightarrow> string list" where
  "Split s sep =
     (if sep = [] then [s]
      else case Index s sep of
        None \<Rightarrow> [s]
      | Some i \<Rightarrow> take i s # Split (drop (i + length sep) s) sep)"
  by pat_completeness auto
termination
  by (relation "measure (\<lambda>(s, sep). length s)") (auto dest!: Index_Some_bound simp flip: length_greater_0_conv)

declare Split.simps [simp del]

fun Join :: "string list \<Rightarrow> string \<Rightarrow> string" where
  "Join [] sep = []"
| "Join [x] sep = x"
| "Join (x # y # ys) sep = x @ sep @ Join (y # ys) sep"

lemma Join_Cons: "xs \<noteq> [] \<Longrightarrow> Join (x # xs) sep = x @ sep @ Join xs sep"
  by (cases xs) auto

lemma Split_not_Nil [simp]: "Split s sep \<noteq> []"
  by (subst Split.simps) (auto split: option.splits)

lemma Join_Split: "Join (Split s sep) sep = s"
proof (induction s sep rule: Split.induct)
  case (1 s sep)
  show ?case
  proof (cases "sep = [] \<or> Index s sep = None")
    case True
    then show ?thesis by (subst Split.simps) auto
  next
    case False
    then obtain i where i: "Index s sep = Some i" and "sep \<noteq> []" by auto
    with "1.IH" have "Join (Split (drop (i + length sep) s) sep) sep = drop (i + length sep) s"
      by simp
    then have "Join (Split s sep) sep = take i s @ sep @ drop (i + length sep) s"
      using i \<open>sep \<noteq> []\<close> by (subst Split.simps) (simp add: Join_Cons)
    then show ?thesis
      using Index_Some_split [OF i] by simp
  qed
qed

text \<open>No piece of a split contains the separator.\<close>

lemma Split_no_sep: "sep \<noteq> [] \<Longrightarrow> l \<in> set (Split s sep) \<Longrightarrow> \<not> sublist sep l"
proof (induction s sep rule: Split.induct)
  case (1 s sep)
  show ?case
  proof (cases "Index s sep")
    case None
    with "1.prems" have "l = s" by (simp add: Split.simps [of s sep])
    with None show ?thesis by (simp add: Index_None_iff_not_sublist)
  next
    case (Some i)
    with "1.prems" have "l = take i s \<or> l \<in> set (Split (drop (i + length sep) s) sep)"
      by (simp add: Split.simps [of s sep])
    then show ?thesis
    proof
      assume l: "l = take i s"
      show ?thesis
      proof
        assume "sublist sep l"
        then obtain a b where ab: "take i s = a @ sep @ b" using l by (auto simp: sublist_def)
        then have s: "s = a @ sep @ b @ drop i s"
          by (metis append.assoc append_take_drop_id)
        have "length a < i"
          using ab "1.prems"(1) by (metis length_append length_greater_0_conv length_take
              less_add_same_cancel1 min_less_iff_conj trans_less_add1 add.assoc min.strict_boundedE)
        moreover have "prefix sep (drop (length a) s)"
          by (subst s) simp
        ultimately show False using Index_least [OF Some] by blast
      qed
    qed (use "1.IH" "1.prems"(1) Some in simp)
  qed
qed

text \<open>
  A separator that has no proper border (no proper prefix that is also a suffix), such as the
  line ends of a SIP message, is found at the end of a line that does not contain it.
\<close>

definition border_free :: "string \<Rightarrow> bool" where
  "border_free sep \<longleftrightarrow> (\<forall>k. 0 < k \<and> k < length sep \<longrightarrow> \<not> prefix (drop k sep) sep)"

lemma prefix_drop_overlap:
  assumes "prefix sep (drop j (l @ sep @ r))" and "j < length l" and "\<not> sublist sep l"
  shows "\<exists>k. 0 < k \<and> k < length sep \<and> prefix (drop k sep) sep"
proof -
  from assms(1,2) have pre: "prefix sep (drop j l @ sep @ r)" by simp
  let ?k = "length l - j"
  have "\<not> prefix sep (drop j l)"
    using assms(3) sublist_drop [of j l] by (meson prefix_imp_sublist sublist_order.order.trans)
  with pre have len: "?k < length sep"
    by (metis length_drop not_le prefix_length_prefix prefixI)
  from pre obtain t where t: "drop j l @ sep @ r = sep @ t" by (auto simp: prefix_def)
  then have "drop ?k (drop j l @ sep @ r) = drop ?k (sep @ t)" by simp
  then have "sep @ r = drop ?k sep @ t" using len by simp
  then have "prefix (drop ?k sep) (sep @ r)" by (metis prefixI)
  then have "prefix (drop ?k sep) sep"
    by (metis prefix_length_prefix prefixI length_drop diff_le_self)
  with len assms(2) show ?thesis by (intro exI [of _ ?k]) simp
qed

lemma Index_line:
  assumes "border_free sep" and "\<not> sublist sep l"
  shows "Index (l @ sep @ r) sep = Some (length l)"
proof (rule Index_SomeI)
  show "prefix sep (drop (length l) (l @ sep @ r))" by simp
  show "length l \<le> length (l @ sep @ r)" by simp
  fix j assume "j < length l"
  then show "\<not> prefix sep (drop j (l @ sep @ r))"
    using prefix_drop_overlap assms by (meson border_free_def)
qed

lemma Split_Join:
  assumes "border_free sep" and "sep \<noteq> []"
    and "ls \<noteq> []" and "\<forall>l\<in>set ls. \<not> sublist sep l"
  shows "Split (Join ls sep) sep = ls"
  using assms(3,4)
proof (induction ls)
  case Nil
  then show ?case by simp
next
  case (Cons x xs)
  show ?case
  proof (cases "xs = []")
    case True
    with Cons.prems have "Index x sep = None" by (simp add: Index_None_iff_not_sublist)
    with True show ?thesis by (simp add: Split.simps [of x sep])
  next
    case False
    with Cons.prems have "Index (x @ sep @ Join xs sep) sep = Some (length x)"
      by (intro Index_line assms(1)) simp
    moreover have "Split (Join xs sep) sep = xs"
      using Cons False by simp
    ultimately show ?thesis
      using False assms(2) by (simp add: Join_Cons Split.simps [of "x @ sep @ Join xs sep"])
  qed
qed

lemma border_free_single [simp]: "border_free [c]"
  by (auto simp: border_free_def)

lemma border_free_pair: "a \<noteq> b \<Longrightarrow> border_free [a, b]"
  by (auto simp: border_free_def less_Suc_eq numeral_2_eq_2)

subsection \<open>Package strings: case folding and trimming\<close>

text \<open>
  \<open>strings.ToLower\<close> and \<open>strings.EqualFold\<close> on ASCII text, which is what the callers compare:
  header names, methods, media types and filter values. Bytes from 0x80 on are left alone; Go also
  folds non-ASCII letters, which the model does not.
\<close>

definition lower_byte :: "char \<Rightarrow> char" where
  "lower_byte c = (if 65 \<le> byte_val c \<and> byte_val c \<le> 90 then byte_of (byte_val c + 32) else c)"

definition ToLower :: "string \<Rightarrow> string" where
  "ToLower s = map lower_byte s"

definition EqualFold :: "string \<Rightarrow> string \<Rightarrow> bool" where
  "EqualFold a b \<longleftrightarrow> ToLower a = ToLower b"

lemma EqualFold_refl [simp]: "EqualFold a a"
  by (simp add: EqualFold_def)

lemma lower_byte_idem [simp]: "lower_byte (lower_byte c) = lower_byte c"
  by (auto simp: lower_byte_def of_char_of)

lemma ToLower_idem [simp]: "ToLower (ToLower s) = ToLower s"
  by (simp add: ToLower_def)

lemma length_ToLower [simp]: "length (ToLower s) = length s"
  by (simp add: ToLower_def)

text \<open>The UTF-8 encodings of the characters that \<open>unicode.IsSpace\<close> accepts.\<close>

definition go_spaces :: "string list" where
  "go_spaces =
     [[CHR 0x09], [CHR 0x0A], [CHR 0x0B], [CHR 0x0C], [CHR 0x0D], [CHR 0x20],
      [CHR 0xC2, CHR 0x85], [CHR 0xC2, CHR 0xA0], [CHR 0xE1, CHR 0x9A, CHR 0x80],
      [CHR 0xE2, CHR 0x80, CHR 0x80], [CHR 0xE2, CHR 0x80, CHR 0x81], [CHR 0xE2, CHR 0x80, CHR 0x82],
      [CHR 0xE2, CHR 0x80, CHR 0x83], [CHR 0xE2, CHR 0x80, CHR 0x84], [CHR 0xE2, CHR 0x80, CHR 0x85],
      [CHR 0xE2, CHR 0x80, CHR 0x86], [CHR 0xE2, CHR 0x80, CHR 0x87], [CHR 0xE2, CHR 0x80, CHR 0x88],
      [CHR 0xE2, CHR 0x80, CHR 0x89], [CHR 0xE2, CHR 0x80, CHR 0x8A], [CHR 0xE2, CHR 0x80, CHR 0xA8],
      [CHR 0xE2, CHR 0x80, CHR 0xA9], [CHR 0xE2, CHR 0x80, CHR 0xAF], [CHR 0xE2, CHR 0x81, CHR 0x9F],
      [CHR 0xE3, CHR 0x80, CHR 0x80]]"

function trim_prefixes :: "string list \<Rightarrow> string \<Rightarrow> string" where
  "trim_prefixes ws s =
     (case find (\<lambda>w. w \<noteq> [] \<and> prefix w s) ws of
        None \<Rightarrow> s
      | Some w \<Rightarrow> trim_prefixes ws (drop (length w) s))"
  by pat_completeness auto
termination
  by (relation "measure (\<lambda>(ws, s). length s)")
    (auto simp: find_Some_iff prefix_def)

declare trim_prefixes.simps [simp del]

definition TrimSpace :: "string \<Rightarrow> string" where
  "TrimSpace s =
     rev (trim_prefixes (map rev go_spaces) (rev (trim_prefixes go_spaces s)))"

lemma suffix_trim_prefixes: "suffix (trim_prefixes ws s) s"
proof (induction ws s rule: trim_prefixes.induct)
  case (1 ws s)
  show ?case
  proof (cases "find (\<lambda>w. w \<noteq> [] \<and> prefix w s) ws")
    case None
    then show ?thesis by (simp add: trim_prefixes.simps [of ws s])
  next
    case (Some w)
    with "1.IH" have "suffix (trim_prefixes ws (drop (length w) s)) (drop (length w) s)" by simp
    then have "suffix (trim_prefixes ws (drop (length w) s)) s"
      using suffix_drop by (metis suffix_order.trans)
    with Some show ?thesis
      by (simp add: trim_prefixes.simps [of ws s])
  qed
qed

lemma sublist_TrimSpace: "sublist (TrimSpace s) s"
proof -
  let ?t = "trim_prefixes go_spaces s"
  have "suffix (trim_prefixes (map rev go_spaces) (rev ?t)) (rev ?t)"
    by (rule suffix_trim_prefixes)
  then have "prefix (TrimSpace s) ?t"
    by (simp add: TrimSpace_def suffix_to_prefix)
  then show ?thesis
    using suffix_trim_prefixes [of go_spaces s]
    by (meson prefix_imp_sublist suffix_imp_sublist sublist_order.order.trans)
qed

lemma TrimSpace_Nil [simp]: "TrimSpace [] = []"
  using sublist_TrimSpace [of "[]"] by simp

definition printable :: "char \<Rightarrow> bool" where
  "printable c \<longleftrightarrow> 33 \<le> byte_val c \<and> byte_val c \<le> 126"

lemma trim_prefixes_id: "\<forall>w\<in>set ws. \<not> prefix w s \<Longrightarrow> trim_prefixes ws s = s"
  by (subst trim_prefixes.simps) (auto simp: find_None_iff2 [THEN iffD2] split: option.split dest!: find_Some_iff [THEN iffD1])

lemma go_spaces_ends: "w \<in> set go_spaces \<Longrightarrow> w \<noteq> [] \<and> \<not> printable (hd w) \<and> \<not> printable (last w)"
  by (auto simp: go_spaces_def printable_def)

lemma TrimSpace_printable: "s \<noteq> [] \<Longrightarrow> printable (hd s) \<Longrightarrow> printable (last s) \<Longrightarrow> TrimSpace s = s"
proof -
  assume s: "s \<noteq> []" "printable (hd s)" "printable (last s)"
  have "trim_prefixes go_spaces s = s"
    using s go_spaces_ends by (intro trim_prefixes_id) (metis hd_append2 prefix_def)
  moreover have "trim_prefixes (map rev go_spaces) (rev s) = rev s"
  proof (rule trim_prefixes_id, clarsimp)
    fix w assume "w \<in> set go_spaces" "prefix (rev w) (rev s)"
    then have "suffix w s" by (simp add: suffix_to_prefix)
    then show False using s(3) go_spaces_ends [OF \<open>w \<in> set go_spaces\<close>] by (auto simp: suffix_def)
  qed
  ultimately show ?thesis by (simp add: TrimSpace_def)
qed

lemma TrimSpace_blank: "s \<noteq> [] \<Longrightarrow> printable (hd s) \<Longrightarrow> printable (last s) \<Longrightarrow> TrimSpace (CHR 0x20 # s) = s"
proof -
  assume s: "s \<noteq> []" "printable (hd s)" "printable (last s)"
  have "trim_prefixes go_spaces (CHR 0x20 # s) = trim_prefixes go_spaces s"
    by (subst trim_prefixes.simps) (simp add: go_spaces_def)
  then have "TrimSpace (CHR 0x20 # s) = TrimSpace s" by (simp add: TrimSpace_def)
  with TrimSpace_printable [OF s] show ?thesis by simp
qed

subsection \<open>Package strconv\<close>

definition digit_char :: "nat \<Rightarrow> char" where
  "digit_char d = byte_of (48 + d)"

fun Itoa :: "nat \<Rightarrow> string" where
  "Itoa n = (if n < 10 then [digit_char n] else Itoa (n div 10) @ [digit_char (n mod 10)])"

declare Itoa.simps [simp del]

fun Atoi_digits :: "nat \<Rightarrow> string \<Rightarrow> nat option" where
  "Atoi_digits acc [] = Some acc"
| "Atoi_digits acc (c # cs) =
     (if 48 \<le> byte_val c \<and> byte_val c \<le> 57 then Atoi_digits (acc * 10 + (byte_val c - 48)) cs
      else None)"

lemma Atoi_digits_append:
  "Atoi_digits acc (a @ b) = Option.bind (Atoi_digits acc a) (\<lambda>v. Atoi_digits v b)"
  by (induction a arbitrary: acc) auto

lemma byte_val_digit_char: "d < 10 \<Longrightarrow> byte_val (digit_char d) = 48 + d"
  by (simp add: digit_char_def of_char_of)

lemma Itoa_digits: "c \<in> set (Itoa n) \<Longrightarrow> 48 \<le> byte_val c \<and> byte_val c \<le> 57"
proof (induction n rule: Itoa.induct)
  case (1 n)
  then show ?case
    by (subst (asm) (2) Itoa.simps) (auto simp: byte_val_digit_char split: if_splits)
qed

lemma Itoa_not_Nil [simp]: "Itoa n \<noteq> []"
  by (subst Itoa.simps) simp

text \<open>Decimal printing and reading are inverse.\<close>

lemma Atoi_Itoa: "Atoi_digits 0 (Itoa n) = Some n"
proof (induction n rule: Itoa.induct)
  case (1 n)
  show ?case
  proof (cases "n < 10")
    case True
    then show ?thesis by (subst Itoa.simps) (simp add: byte_val_digit_char)
  next
    case False
    with "1.IH" have "Atoi_digits 0 (Itoa (n div 10)) = Some (n div 10)" by simp
    with False show ?thesis
      by (subst Itoa.simps) (simp add: Atoi_digits_append byte_val_digit_char)
  qed
qed

lemma printable_Itoa: "printable (hd (Itoa n))" "printable (last (Itoa n))"
  using Itoa_digits [of "hd (Itoa n)" n] Itoa_digits [of "last (Itoa n)" n] by (simp_all add: printable_def)

lemma Itoa_printable: "list_all printable (Itoa n)"
  using Itoa_digits by (force simp: list_all_iff printable_def)

text \<open>\<open>int64\<close> arithmetic wraps.\<close>

definition int64 :: "int \<Rightarrow> int" where
  "int64 n = (n + 2 ^ 63) mod 2 ^ 64 - 2 ^ 63"

definition ParseInt64 :: "string \<Rightarrow> int option" where
  "ParseInt64 s =
     (let neg = (s \<noteq> [] \<and> hd s = CHR ''-'');
          ds = (if s \<noteq> [] \<and> (hd s = CHR ''-'' \<or> hd s = CHR ''+'') then tl s else s)
      in if ds = [] then None
         else case Atoi_digits 0 ds of
           None \<Rightarrow> None
         | Some n \<Rightarrow>
             if neg then (if int n \<le> 2 ^ 63 then Some (- int n) else None)
             else if int n < 2 ^ 63 then Some (int n) else None)"

definition ParseUint64 :: "string \<Rightarrow> nat option" where
  "ParseUint64 s =
     (if s = [] then None
      else case Atoi_digits 0 s of None \<Rightarrow> None | Some n \<Rightarrow> if n < 2 ^ 64 then Some n else None)"

definition FormatInt :: "int \<Rightarrow> string" where
  "FormatInt n = (if n < 0 then CHR ''-'' # Itoa (nat (- n)) else Itoa (nat n))"

lemma int64_range: "- (2 ^ 63) \<le> int64 n \<and> int64 n < 2 ^ 63"
  using pos_mod_bound [of "2 ^ 64" "n + 2 ^ 63"] pos_mod_sign [of "2 ^ 64" "n + 2 ^ 63"] by (simp add: int64_def)

lemma int64_id: "- (2 ^ 63) \<le> n \<Longrightarrow> n < 2 ^ 63 \<Longrightarrow> int64 n = n"
  by (simp add: int64_def)

text \<open>\<open>strings.ReplaceAll\<close> of a one-byte string.\<close>

definition ReplaceAll :: "string \<Rightarrow> char \<Rightarrow> string \<Rightarrow> string" where
  "ReplaceAll s old new = concat (map (\<lambda>c. if c = old then new else [c]) s)"

subsection \<open>Scanning loops\<close>

text \<open>
  The loop \<^verbatim>\<open>for i := lo; i < hi; i++ { if p(i) { return i } }; return -1\<close> and its downward
  counterpart \<^verbatim>\<open>for i := hi-1; i >= 0; i--\<close>.
\<close>

function for_find :: "(nat \<Rightarrow> bool) \<Rightarrow> nat \<Rightarrow> nat \<Rightarrow> nat option" where
  "for_find p lo hi = (if lo < hi then (if p lo then Some lo else for_find p (Suc lo) hi) else None)"
  by pat_completeness auto
termination
  by (relation "measure (\<lambda>(p, lo, hi). hi - lo)") auto

declare for_find.simps [simp del]

fun for_find_down :: "(nat \<Rightarrow> bool) \<Rightarrow> nat \<Rightarrow> nat option" where
  "for_find_down p 0 = None"
| "for_find_down p (Suc i) = (if p i then Some i else for_find_down p i)"

lemma for_find_None: "for_find p lo hi = None \<longleftrightarrow> (\<forall>j. lo \<le> j \<and> j < hi \<longrightarrow> \<not> p j)"
proof (induction p lo hi rule: for_find.induct)
  case (1 p lo hi)
  show ?case
  proof (cases "lo < hi \<and> \<not> p lo")
    case True
    with 1 have "for_find p (Suc lo) hi = None \<longleftrightarrow> (\<forall>j. Suc lo \<le> j \<and> j < hi \<longrightarrow> \<not> p j)" by simp
    with True show ?thesis
      by (simp add: for_find.simps [of p lo hi]) (metis Suc_leI le_neq_implies_less Suc_leD)
  next
    case False
    then show ?thesis by (auto simp: for_find.simps [of p lo hi])
  qed
qed

lemma for_find_Some:
  "for_find p lo hi = Some i \<longleftrightarrow> lo \<le> i \<and> i < hi \<and> p i \<and> (\<forall>j. lo \<le> j \<and> j < i \<longrightarrow> \<not> p j)"
proof (induction p lo hi rule: for_find.induct)
  case (1 p lo hi)
  show ?case
  proof (cases "lo < hi \<and> \<not> p lo")
    case True
    with 1 have "for_find p (Suc lo) hi = Some i \<longleftrightarrow>
        Suc lo \<le> i \<and> i < hi \<and> p i \<and> (\<forall>j. Suc lo \<le> j \<and> j < i \<longrightarrow> \<not> p j)" by simp
    with True show ?thesis
      by (simp add: for_find.simps [of p lo hi]) (metis Suc_leI le_neq_implies_less Suc_leD)
  next
    case False
    then show ?thesis
      by (simp add: for_find.simps [of p lo hi]) (metis le_eq_less_or_eq le_less_trans not_le)
  qed
qed

lemma for_find_down_Some:
  "for_find_down p n = Some i \<longleftrightarrow> i < n \<and> p i \<and> (\<forall>j. i < j \<and> j < n \<longrightarrow> \<not> p j)"
  by (induction n) (auto simp: less_Suc_eq)

lemma for_find_down_None: "for_find_down p n = None \<longleftrightarrow> (\<forall>j<n. \<not> p j)"
  by (induction n) (auto simp: less_Suc_eq)

lemma for_find_cong:
  assumes "\<And>j. lo \<le> j \<Longrightarrow> j < hi \<Longrightarrow> p j = q j"
  shows "for_find p lo hi = for_find q lo hi"
proof (cases "for_find q lo hi")
  case None
  then have "for_find p lo hi = None" using assms by (auto simp: for_find_None)
  with None show ?thesis by simp
next
  case (Some i)
  then have "for_find p lo hi = Some i" using assms by (auto simp: for_find_Some)
  with Some show ?thesis by simp
qed

lemma for_find_IndexByte: "for_find (\<lambda>i. s ! i = c) 0 (length s) = IndexByte s c"
proof (cases "IndexByte s c")
  case None
  then have "for_find (\<lambda>i. s ! i = c) 0 (length s) = None"
    by (auto simp: for_find_None in_set_conv_nth)
  with None show ?thesis by metis
next
  case (Some i)
  then have "for_find (\<lambda>i. s ! i = c) 0 (length s) = Some i"
    by (auto simp: for_find_Some IndexByte_Some_iff)
  with Some show ?thesis by simp
qed

lemma for_find_Index:
  assumes "p \<noteq> []" and "\<And>i. i < hi \<Longrightarrow> q i \<longleftrightarrow> prefix p (drop i s)"
    and "length s < hi + length p" and "hi \<le> length s"
  shows "for_find q 0 hi = Index s p"
proof (cases "Index s p")
  case None
  with assms have "for_find q 0 hi = None" by (simp add: for_find_None Index_None_iff)
  with None show ?thesis by simp
next
  case (Some i)
  have "i < hi" using Index_Some_bound [OF Some] assms(3) by simp
  then have "for_find q 0 hi = Some i"
    using Index_least [OF Some] Index_Some_prefix [OF Some] assms(2) by (auto simp: for_find_Some)
  with Some show ?thesis by simp
qed

lemma Index_too_short: "length s < length p \<Longrightarrow> Index s p = None"
  by (cases "Index s p") (auto dest: Index_Some_bound)

lemma for_find_shift:
  "for_find p lo hi = map_option ((+) lo) (for_find (\<lambda>i. p (lo + i)) 0 (hi - lo))"
proof (cases "for_find (\<lambda>i. p (lo + i)) 0 (hi - lo)")
  case None
  then have "\<forall>j<hi - lo. \<not> p (lo + j)" by (simp add: for_find_None)
  then have "for_find p lo hi = None"
    by (auto simp: for_find_None) (metis add_diff_inverse_nat diff_less_mono not_le)
  with None show ?thesis by simp
next
  case (Some i)
  then have i: "i < hi - lo" "p (lo + i)" "\<forall>j<i. \<not> p (lo + j)" by (simp_all add: for_find_Some)
  have "\<not> p j" if "lo \<le> j" "j < lo + i" for j
    using i(3) that by (metis add_diff_inverse_nat less_diff_conv2 add.commute not_le)
  with i have "for_find p lo hi = Some (lo + i)" by (simp add: for_find_Some)
  with Some show ?thesis by simp
qed

end
