(* ===== verification/Byte_Scan.thy ===== *)
theory Byte_Scan
  imports Homer_Prelude
begin

text \<open>
  The byte scanners of src/sipparser: the word-at-a-time versions of fast_parser_asm.go (amd64 and
  arm64), the portable versions of fast_parser_asm_fallback.go, and the helpers of utils.go that
  locate the URI of a From, To or Contact value. The interface \<open>sip_scanner\<close> says what the parser
  relies on; both builds are instances of it, so the parser means the same on every platform.
\<close>

definition CRc :: char where "CRc = CHR 0x0D"
definition LFc :: char where "LFc = CHR 0x0A"
definition CRLF :: string where "CRLF = [CRc, LFc]"
definition CRLFCRLF :: string where "CRLFCRLF = CRLF @ CRLF"

lemmas crlf_defs = CRc_def LFc_def CRLF_def CRLFCRLF_def

subsection \<open>Loads of several bytes (little-endian)\<close>

definition load32 :: "bytes \<Rightarrow> nat \<Rightarrow> 32 word" where
  "load32 data i = word_of_nat (be_val (rev (take 4 (drop i data))))"

definition load64 :: "bytes \<Rightarrow> nat \<Rightarrow> 64 word" where
  "load64 data i = word_of_nat (be_val (rev (take 8 (drop i data))))"

text \<open>The conversion \<open>byte(word >> k)\<close>.\<close>

definition word_byte :: "32 word \<Rightarrow> nat \<Rightarrow> char" where
  "word_byte w k = byte_of (unat (drop_bit k w) mod 256)"

subsection \<open>fast\_parser\_asm.go\<close>

definition findCRLF :: "bytes \<Rightarrow> nat option" where
  "findCRLF data =
     (if length data < 2 then None
      else for_find (\<lambda>i. data ! i = CRc \<and> data ! (i + 1) = LFc) 0 (length data - 1))"

definition findCRLFCRLF :: "bytes \<Rightarrow> nat option" where
  "findCRLFCRLF data =
     (if length data < 4 then None
      else for_find (\<lambda>i. let word = load32 data i in
             word_byte word 0 = CRc \<and> word_byte word 8 = LFc \<and>
             word_byte word 16 = CRc \<and> word_byte word 24 = LFc) 0 (length data - 3))"

text \<open>The loop of \<open>compareBytes\<close>: eight bytes at a time, then the remaining bytes one by one.\<close>

function compareBytes_loop :: "bytes \<Rightarrow> bytes \<Rightarrow> nat \<Rightarrow> bool" where
  "compareBytes_loop a b i =
     (if i + 8 \<le> length a then
        (if load64 a i \<noteq> load64 b i then False else compareBytes_loop a b (i + 8))
      else if i < length a then
        (if a ! i \<noteq> b ! i then False else compareBytes_loop a b (i + 1))
      else True)"
  by pat_completeness auto
termination
  by (relation "measure (\<lambda>(a, b, i). length a - i)") auto

declare compareBytes_loop.simps [simp del]

definition compareBytes :: "bytes \<Rightarrow> bytes \<Rightarrow> bool" where
  "compareBytes a b =
     (if length a \<noteq> length b then False
      else if length a = 0 then True
      else compareBytes_loop a b 0)"

definition findByte :: "bytes \<Rightarrow> char \<Rightarrow> nat option" where
  "findByte data b =
     (if length data = 0 then None else for_find (\<lambda>i. data ! i = b) 0 (length data))"

definition match_at :: "bytes \<Rightarrow> bytes \<Rightarrow> nat \<Rightarrow> bool" where
  "match_at data pat i \<longleftrightarrow> for_find (\<lambda>j. data ! (i + j) \<noteq> pat ! j) 0 (length pat) = None"

definition findBytes :: "bytes \<Rightarrow> bytes \<Rightarrow> nat option" where
  "findBytes data pat =
     (if length pat = 0 \<or> length data < length pat then None
      else for_find (match_at data pat) 0 (length data - length pat + 1))"

subsection \<open>fast\_parser\_asm\_fallback.go\<close>

definition findCRLF_fallback :: "bytes \<Rightarrow> nat option" where
  "findCRLF_fallback data =
     for_find (\<lambda>i. data ! i = CRc \<and> data ! (i + 1) = LFc) 0 (length data - 1)"

definition findCRLFCRLF_fallback :: "bytes \<Rightarrow> nat option" where
  "findCRLFCRLF_fallback data =
     for_find (\<lambda>i. data ! i = CRc \<and> data ! (i + 1) = LFc \<and>
                   data ! (i + 2) = CRc \<and> data ! (i + 3) = LFc) 0 (length data - 3)"

definition compareBytes_fallback :: "bytes \<Rightarrow> bytes \<Rightarrow> bool" where
  "compareBytes_fallback a b =
     (if length a \<noteq> length b then False
      else if length a = 0 then True
      else for_find (\<lambda>i. a ! i \<noteq> b ! i) 0 (length a) = None)"

definition findByte_fallback :: "bytes \<Rightarrow> char \<Rightarrow> nat option" where
  "findByte_fallback data b = for_find (\<lambda>i. data ! i = b) 0 (length data)"

definition findBytes_fallback :: "bytes \<Rightarrow> bytes \<Rightarrow> nat option" where
  "findBytes_fallback data pat =
     (if length pat = 0 \<or> length data < length pat then None
      else for_find (match_at data pat) 0 (length data - length pat + 1))"

subsection \<open>What the scanners compute\<close>

lemma prefix_drop_iff_nth:
  "i + length p \<le> length s \<Longrightarrow> prefix p (drop i s) \<longleftrightarrow> (\<forall>j<length p. s ! (i + j) = p ! j)"
  by (auto simp: prefix_def list_eq_iff_nth_eq nth_append
      intro!: exI [of _ "drop (i + length p) s"])

lemma take_drop_4:
  assumes "i + 4 \<le> length s"
  shows "take 4 (drop i s) = [s ! i, s ! (i + 1), s ! (i + 2), s ! (i + 3)]"
  using assms by (intro nth_equalityI) (auto simp: less_Suc_eq numeral_eq_Suc)

lemma word_byte_load32:
  assumes "i + 4 \<le> length s"
  shows "word_byte (load32 s i) 0 = s ! i" and "word_byte (load32 s i) 8 = s ! (i + 1)"
    and "word_byte (load32 s i) 16 = s ! (i + 2)" and "word_byte (load32 s i) 24 = s ! (i + 3)"
proof -
  let ?v = "((byte_val (s ! (i + 3)) * 256 + byte_val (s ! (i + 2))) * 256
      + byte_val (s ! (i + 1))) * 256 + byte_val (s ! i)"
  have "((d * 256 + c) * 256 + b) * 256 + a < (2 :: nat) ^ 32"
    if "a < 256" "b < 256" "c < 256" "d < 256" for a b c d
    using that by simp
  then have less: "?v < 2 ^ 32" by (simp only: byte_val_less)
  have "be_val (rev (take 4 (drop i s))) = ?v"
    by (simp add: take_drop_4 [OF assms] be_val_def)
  then have v: "unat (load32 s i) = ?v"
    unfolding load32_def using unat_of_nat32 [OF less] by (simp only:)
  have wb: "word_byte (load32 s i) k = byte_of (?v div 2 ^ k mod 256)" for k
  proof -
    have "unat (drop_bit k (load32 s i)) = ?v div 2 ^ k"
      using v by (simp only: unat_drop_bit_eq drop_bit_eq_div [where 'a = nat])
    then show ?thesis by (simp only: word_byte_def)
  qed
  have m: "(x * 256 + byte_val c) div 256 = x" "(x * 256 + byte_val c) mod 256 = byte_val c" for x c
    using byte_val_less [of c] by simp_all
  show "word_byte (load32 s i) 0 = s ! i"
    by (simp only: wb m power_0 div_by_1 char_of_char)
  show "word_byte (load32 s i) 8 = s ! (i + 1)"
  proof -
    have "(2 :: nat) ^ 8 = 256" by simp
    then have "?v div 2 ^ 8 mod 256 = byte_val (s ! (i + 1))" by (simp only: m)
    then show ?thesis by (simp only: wb char_of_char)
  qed
  show "word_byte (load32 s i) 16 = s ! (i + 2)"
  proof -
    have "?v div 2 ^ 16 = ?v div 256 div 256" by (simp add: div_mult2_eq)
    also have "\<dots> mod 256 = byte_val (s ! (i + 2))" by (simp only: m)
    finally show ?thesis by (simp only: wb char_of_char)
  qed
  show "word_byte (load32 s i) 24 = s ! (i + 3)"
  proof -
    have "?v div 2 ^ 24 = ?v div 256 div 256 div 256" by (simp add: div_mult2_eq)
    also have "\<dots> mod 256 = byte_val (s ! (i + 3))" by (simp only: m) simp
    finally show ?thesis by (simp only: wb char_of_char)
  qed
qed

lemma findCRLF_Index: "findCRLF s = Index s CRLF"
proof (cases "length s < 2")
  case True
  then show ?thesis by (simp add: findCRLF_def Index_too_short crlf_defs)
next
  case False
  then have "for_find (\<lambda>i. s ! i = CRc \<and> s ! (i + 1) = LFc) 0 (length s - 1) = Index s CRLF"
    by (intro for_find_Index) (auto simp: CRLF_def prefix_drop_iff_nth less_Suc_eq)
  with False show ?thesis by (simp add: findCRLF_def)
qed

lemma findCRLFCRLF_Index: "findCRLFCRLF s = Index s CRLFCRLF"
proof (cases "length s < 4")
  case True
  then show ?thesis by (simp add: findCRLFCRLF_def Index_too_short crlf_defs)
next
  case False
  have "prefix CRLFCRLF (drop i s) \<longleftrightarrow>
      s ! i = CRc \<and> s ! (i + 1) = LFc \<and> s ! (i + 2) = CRc \<and> s ! (i + 3) = LFc"
    if "i < length s - 3" for i
    using that
    by (subst prefix_drop_iff_nth) (auto simp: CRLFCRLF_def CRLF_def less_Suc_eq eval_nat_numeral)
  then have "for_find (\<lambda>i. let word = load32 s i in
             word_byte word 0 = CRc \<and> word_byte word 8 = LFc \<and>
             word_byte word 16 = CRc \<and> word_byte word 24 = LFc) 0 (length s - 3) = Index s CRLFCRLF"
    using False
    by (intro for_find_Index) (auto simp: Let_def word_byte_load32 CRLFCRLF_def CRLF_def)
  with False show ?thesis by (simp add: findCRLFCRLF_def)
qed

lemma findByte_IndexByte: "findByte s c = IndexByte s c"
  by (simp add: findByte_def for_find_IndexByte)

lemma match_at_prefix: "i + length p \<le> length s \<Longrightarrow> match_at s p i \<longleftrightarrow> prefix p (drop i s)"
  by (auto simp: match_at_def for_find_None prefix_drop_iff_nth)

lemma findBytes_Index: "p \<noteq> [] \<Longrightarrow> findBytes s p = Index s p"
proof (cases "length s < length p")
  case True
  then show ?thesis by (simp add: findBytes_def Index_too_short)
next
  case False
  assume "p \<noteq> []"
  then have "length s - length p + 1 \<le> length s"
    using False by (cases p) auto
  with False \<open>p \<noteq> []\<close> have "for_find (match_at s p) 0 (length s - length p + 1) = Index s p"
    by (intro for_find_Index) (auto simp: match_at_prefix)
  with False \<open>p \<noteq> []\<close> show ?thesis by (simp add: findBytes_def)
qed

lemma load64_eq_iff:
  assumes "i + 8 \<le> length a" and "length a = length b"
  shows "load64 a i = load64 b i \<longleftrightarrow> take 8 (drop i a) = take 8 (drop i b)"
proof
  assume eq: "load64 a i = load64 b i"
  have bound: "be_val (rev (take 8 (drop i s))) < 2 ^ 64" if "i + 8 \<le> length s" for s :: string
  proof -
    have "length (rev (take 8 (drop i s))) = 8" using that by simp
    then have "be_val (rev (take 8 (drop i s))) < 256 ^ 8"
      using be_val_bound [of "rev (take 8 (drop i s))"] by metis
    then show ?thesis by simp
  qed
  have "be_val (rev (take 8 (drop i a))) = be_val (rev (take 8 (drop i b)))"
    using eq bound [of a] bound [of b] assms
    by (simp add: load64_def unat_eq_nat_uint word_of_nat_eq_iff take_bit_nat_eq_self)
  then show "take 8 (drop i a) = take 8 (drop i b)"
    using be_val_inj [of "rev (take 8 (drop i a))" "rev (take 8 (drop i b))"] assms by simp
next
  assume "take 8 (drop i a) = take 8 (drop i b)"
  then show "load64 a i = load64 b i" by (simp add: load64_def)
qed

lemma drop_eq_step:
  assumes "length a = length b"
  shows "drop i a = drop i b \<longleftrightarrow> take k (drop i a) = take k (drop i b) \<and> drop (i + k) a = drop (i + k) b"
  by (metis append_take_drop_id drop_drop add.commute)

lemma compareBytes_loop_eq: "length a = length b \<Longrightarrow> compareBytes_loop a b i \<longleftrightarrow> drop i a = drop i b"
proof (induction a b i rule: compareBytes_loop.induct)
  case (1 a b i)
  consider (word) "i + 8 \<le> length a" | (byte) "\<not> i + 8 \<le> length a" "i < length a" | (stop) "length a \<le> i"
    by linarith
  then show ?case
  proof cases
    case word
    then show ?thesis
      using 1 drop_eq_step [OF "1.prems", of i 8] load64_eq_iff [OF word "1.prems"]
      by (simp add: compareBytes_loop.simps [of a b i])
  next
    case byte
    then have "drop i a = a ! i # drop (Suc i) a" "drop i b = b ! i # drop (Suc i) b"
      using "1.prems" by (simp_all add: Cons_nth_drop_Suc)
    then show ?thesis
      using 1 byte by (simp add: compareBytes_loop.simps [of a b i])
  next
    case stop
    then show ?thesis using "1.prems" by (simp add: compareBytes_loop.simps [of a b i])
  qed
qed

lemma compareBytes_eq: "compareBytes a b \<longleftrightarrow> a = b"
  by (cases "length a = length b") (auto simp: compareBytes_def compareBytes_loop_eq)

lemma compareBytes_fallback_eq: "compareBytes_fallback a b \<longleftrightarrow> a = b"
proof (cases "length a = length b")
  case True
  then have "a = b \<longleftrightarrow> (\<forall>i<length a. a ! i = b ! i)"
    by (metis nth_equalityI)
  with True show ?thesis by (auto simp: compareBytes_fallback_def for_find_None)
qed (auto simp: compareBytes_fallback_def)

subsection \<open>The interface of the parser to its scanners\<close>

locale sip_scanner =
  fixes find_crlf :: "bytes \<Rightarrow> nat option"
    and find_end :: "bytes \<Rightarrow> nat option"
    and find_byte :: "bytes \<Rightarrow> char \<Rightarrow> nat option"
    and find_bytes :: "bytes \<Rightarrow> bytes \<Rightarrow> nat option"
    and compare :: "bytes \<Rightarrow> bytes \<Rightarrow> bool"
  assumes crlf_spec: "find_crlf s = Index s CRLF"
    and end_spec: "find_end s = Index s CRLFCRLF"
    and byte_spec: "find_byte s c = IndexByte s c"
    and bytes_spec: "p \<noteq> [] \<Longrightarrow> find_bytes s p = Index s p"
    and compare_spec: "compare a b \<longleftrightarrow> a = b"
begin

lemma end_splits: "find_end s = Some i \<Longrightarrow> s = take i s @ CRLFCRLF @ drop (i + 4) s"
  using Index_Some_split [of s CRLFCRLF i] by (simp add: end_spec crlf_defs eval_nat_numeral)

lemma end_bound: "find_end s = Some i \<Longrightarrow> i + 4 \<le> length s"
  using Index_Some_bound [of s CRLFCRLF i] by (simp add: end_spec crlf_defs)

lemma byte_splits: "find_byte s c = Some i \<Longrightarrow> s = take i s @ c # drop (Suc i) s"
  by (auto simp: byte_spec dest: IndexByte_split(1))

lemma byte_first: "find_byte s c = Some i \<Longrightarrow> c \<notin> set (take i s)"
  by (auto simp: byte_spec dest: IndexByte_split(2))

end

interpretation asm: sip_scanner findCRLF findCRLFCRLF findByte findBytes compareBytes
  by unfold_locales
    (simp_all add: findCRLF_Index findCRLFCRLF_Index findByte_IndexByte findBytes_Index compareBytes_eq)

lemma findCRLF_fallback_Index: "findCRLF_fallback s = Index s CRLF"
proof (cases "length s < 2")
  case True
  then show ?thesis by (simp add: findCRLF_fallback_def Index_too_short crlf_defs for_find.simps)
next
  case False
  then show ?thesis using findCRLF_Index [of s] by (simp add: findCRLF_fallback_def findCRLF_def)
qed

lemma findCRLFCRLF_fallback_Index: "findCRLFCRLF_fallback s = Index s CRLFCRLF"
proof (cases "length s < 4")
  case True
  then show ?thesis by (simp add: findCRLFCRLF_fallback_def Index_too_short crlf_defs for_find.simps)
next
  case False
  have "findCRLFCRLF_fallback s = findCRLFCRLF s"
    using False unfolding findCRLFCRLF_fallback_def findCRLFCRLF_def
    by (auto simp: Let_def word_byte_load32 intro!: for_find_cong)
  then show ?thesis by (simp add: findCRLFCRLF_Index)
qed

interpretation fallback: sip_scanner findCRLF_fallback findCRLFCRLF_fallback findByte_fallback
    findBytes_fallback compareBytes_fallback
proof unfold_locales
  show "findCRLF_fallback s = Index s CRLF" for s by (rule findCRLF_fallback_Index)
  show "findCRLFCRLF_fallback s = Index s CRLFCRLF" for s by (rule findCRLFCRLF_fallback_Index)
  show "findByte_fallback s c = IndexByte s c" for s c
    by (simp add: findByte_fallback_def for_find_IndexByte)
  show "findBytes_fallback s p = Index s p" if "p \<noteq> []" for p s
    using findBytes_Index [OF that] by (simp add: findBytes_fallback_def findBytes_def)
  show "compareBytes_fallback a b \<longleftrightarrow> a = b" for a b by (rule compareBytes_fallback_eq)
qed

text \<open>
  C34. The word-at-a-time scanners of the amd64/arm64 build and the portable ones compute the same
  result on every input, so the parser behaves the same on every platform.
\<close>

theorem scanners_agree:
  "findCRLF s = findCRLF_fallback s \<and> findCRLFCRLF s = findCRLFCRLF_fallback s \<and>
   findByte s c = findByte_fallback s c \<and> findBytes s p = findBytes_fallback s p \<and>
   compareBytes s t = compareBytes_fallback s t"
  by (simp add: asm.crlf_spec fallback.crlf_spec asm.end_spec fallback.end_spec asm.byte_spec
      fallback.byte_spec asm.compare_spec fallback.compare_spec findBytes_def findBytes_fallback_def)

subsection \<open>utils.go: locating the URI of a header value\<close>

text \<open>
  \<open>quoteSpan\<close> scans for the first two double quotes; \<open>ct\<close> and \<open>one\<close> are the loop's variables.
  The branch for a third quote is never reached, because the loop returns at the second.
\<close>

fun quoteSpan_loop :: "bytes \<Rightarrow> nat \<Rightarrow> nat option \<Rightarrow> (nat \<times> nat) option" where
  "quoteSpan_loop [] i one = None"
| "quoteSpan_loop (c # cs) i one =
     (if c = CHR 0x22 then
        (case one of None \<Rightarrow> quoteSpan_loop cs (Suc i) (Some i) | Some o1 \<Rightarrow> Some (o1, i))
      else quoteSpan_loop cs (Suc i) one)"

definition quoteSpan :: "bytes \<Rightarrow> (nat \<times> nat) option" where
  "quoteSpan val = quoteSpan_loop val 0 None"

definition indexByte :: "bytes \<Rightarrow> char \<Rightarrow> nat option" where
  "indexByte data b = for_find (\<lambda>i. data ! i = b) 0 (length data)"

definition findURIBrackets :: "bytes \<Rightarrow> (nat \<times> nat) option" where
  "findURIBrackets val =
     (let searchFrom = (case quoteSpan val of Some (_, q2) \<Rightarrow> q2 + 1 | None \<Rightarrow> 0);
          sub = drop searchFrom val
      in case for_find_down (\<lambda>i. sub ! i = CHR 0x3C) (length sub) of
           None \<Rightarrow> None
         | Some lrel \<Rightarrow>
             let one = searchFrom + lrel
             in case indexByte (drop (one + 1) val) (CHR 0x3E) of
                  None \<Rightarrow> None
                | Some rrel \<Rightarrow> Some (one, one + 1 + rrel))"

lemma quoteSpan_loop_bound:
  "quoteSpan_loop cs i one = Some (a, b) \<Longrightarrow> b < i + length cs"
  by (induction cs i one rule: quoteSpan_loop.induct) (auto split: if_splits option.splits)

text \<open>
  The brackets found in a header value always delimit a slice inside the value, from a \<open><\<close> to
  the first \<open>>\<close> behind it: the slice expressions of the From, To, Contact and P-Asserted-Identity
  parsers cannot panic.
\<close>

theorem findURIBrackets_slice:
  assumes "findURIBrackets val = Some (l, r)"
  shows "l + 1 \<le> r \<and> r < length val \<and> val ! l = CHR 0x3C \<and> val ! r = CHR 0x3E \<and>
    CHR 0x3E \<notin> set (take (r - (l + 1)) (drop (l + 1) val))"
proof -
  define sf where "sf = (case quoteSpan val of Some (_, q2) \<Rightarrow> q2 + 1 | None \<Rightarrow> 0)"
  from assms obtain lrel rrel
    where lr: "for_find_down (\<lambda>i. drop sf val ! i = CHR 0x3C) (length (drop sf val)) = Some lrel"
      and rr: "indexByte (drop (sf + lrel + 1) val) (CHR 0x3E) = Some rrel"
      and l: "l = sf + lrel" and r: "r = sf + lrel + 1 + rrel"
    by (auto simp: findURIBrackets_def Let_def sf_def [symmetric] split: option.splits)
  from lr have lrel: "lrel < length val - sf" "val ! l = CHR 0x3C"
    by (auto simp: for_find_down_Some l)
  from rr have "IndexByte (drop (l + 1) val) (CHR 0x3E) = Some rrel"
    using for_find_IndexByte [of "drop (l + 1) val"] by (simp add: indexByte_def l)
  note ix = this
  then have rrel: "rrel < length val - (l + 1)" "drop (l + 1) val ! rrel = CHR 0x3E"
    by (simp_all add: IndexByte_Some_iff)
  then show ?thesis
    using lrel(2) IndexByte_split(2) [OF ix] by (simp add: l r)
qed

lemma demo_brackets: "findURIBrackets ''x <sip:a@b>;t'' = Some (2, 10)"
  by (simp add: findURIBrackets_def quoteSpan_def indexByte_def for_find.simps eval_nat_numeral Let_def)

theorem findURIBrackets_slice_witness: "(2 :: nat) + 1 \<le> 10 \<and> 10 < length ''x <sip:a@b>;t''"
  using findURIBrackets_slice [OF demo_brackets] by simp

end
