(* ===== verification/Sip_Zerocopy.thy ===== *)
theory Sip_Zerocopy
  imports Byte_Scan
begin

unbundle bit_operations_syntax

text \<open>
  The zero-copy SIP parser of src/sipparser/zerocopy.go, the one on the ingest path. The record
  \<open>sip_msg\<close> holds the fields of \<open>SipMsg\<close> (src/sipparser/parser.go) that this parser and the HEP
  decoder read or write; \<open>acquireSipMsg\<close> hands out an all-zero message. The source keeps the
  options in the message while it parses (\<open>zcHdrOpts\<close>); here they are an argument.
\<close>

subsection \<open>Data\<close>

datatype sip_error = ErrTooShort | ErrNoEOF

record zc_opts =
  AlegIDs :: "string list"
  CustomHeaders :: "string list"

record sip_msg =
  sm_Error :: "sip_error option"
  sm_Msg :: string
  sm_Body :: string
  AuthVal :: string
  AuthUser :: string
  ContentLength :: string
  ContentType :: string
  FromUser :: string
  FromHost :: string
  FromTag :: string
  MaxForwards :: string
  Organization :: string
  ToUser :: string
  ToHost :: string
  ToTag :: string
  Expires :: string
  ContactVal :: string
  ContactUser :: string
  ContactHost :: string
  CallID :: string
  XCallID :: string
  CustomHeader :: "string \<rightharpoonup> string"
  CseqMethod :: string
  CseqVal :: string
  ReasonVal :: string
  RTPStatVal :: string
  ViaOne :: string
  ViaOneBranch :: string
  Privacy :: string
  RemotePartyIdVal :: string
  DiversionVal :: string
  PAssertedIdVal :: string
  PaiUser :: string
  PaiHost :: string
  UserAgent :: string
  Server :: string
  URIHost :: string
  URIRaw :: string
  URIUser :: string
  FirstMethod :: string
  FirstResp :: string
  FirstRespText :: string
  sm_Profile :: string
  sm_eof :: nat

definition acquireSipMsg :: sip_msg where
  "acquireSipMsg =
     \<lparr>sm_Error = None, sm_Msg = [], sm_Body = [], AuthVal = [], AuthUser = [], ContentLength = [],
      ContentType = [], FromUser = [], FromHost = [], FromTag = [], MaxForwards = [],
      Organization = [], ToUser = [], ToHost = [], ToTag = [], Expires = [], ContactVal = [],
      ContactUser = [], ContactHost = [], CallID = [], XCallID = [], CustomHeader = Map.empty,
      CseqMethod = [], CseqVal = [], ReasonVal = [], RTPStatVal = [], ViaOne = [],
      ViaOneBranch = [], Privacy = [], RemotePartyIdVal = [], DiversionVal = [],
      PAssertedIdVal = [], PaiUser = [], PaiHost = [], UserAgent = [], Server = [], URIHost = [],
      URIRaw = [], URIUser = [], FirstMethod = [], FirstResp = [], FirstRespText = [],
      sm_Profile = [], sm_eof = 0\<rparr>"

subsection \<open>Low-level helpers\<close>

abbreviation is_ws :: "char \<Rightarrow> bool" where
  "is_ws c \<equiv> c = CHR 0x20 \<or> c = CHR 0x09"

definition zcTrimWS :: "bytes \<Rightarrow> bytes" where
  "zcTrimWS b = rev (dropWhile is_ws (rev (dropWhile is_ws b)))"

text \<open>The bit trick \<open>c | 0x20\<close> that lowers an ASCII letter.\<close>

definition or20 :: "char \<Rightarrow> char" where
  "or20 c = byte_of (byte_val c OR 32)"

definition zcEqCI :: "bytes \<Rightarrow> bytes \<Rightarrow> bool" where
  "zcEqCI a b =
     (if length a \<noteq> length b then False
      else for_find (\<lambda>i. lower_byte (a ! i) \<noteq> lower_byte (b ! i)) 0 (length a) = None)"

definition zcEqCI2 :: "bytes \<Rightarrow> char \<Rightarrow> char \<Rightarrow> bool" where
  "zcEqCI2 a b0 b1 \<longleftrightarrow> length a = 2 \<and> or20 (a ! 0) = b0 \<and> or20 (a ! 1) = b1"

definition zcEqCI3 :: "bytes \<Rightarrow> char \<Rightarrow> char \<Rightarrow> char \<Rightarrow> bool" where
  "zcEqCI3 a b0 b1 b2 \<longleftrightarrow>
     length a = 3 \<and> or20 (a ! 0) = b0 \<and> or20 (a ! 1) = b1 \<and> or20 (a ! 2) = b2"

definition zcEqCI4 :: "bytes \<Rightarrow> char \<Rightarrow> char \<Rightarrow> char \<Rightarrow> char \<Rightarrow> bool" where
  "zcEqCI4 a b0 b1 b2 b3 \<longleftrightarrow>
     length a = 4 \<and> or20 (a ! 0) = b0 \<and> or20 (a ! 1) = b1 \<and> or20 (a ! 2) = b2 \<and> or20 (a ! 3) = b3"

definition zcFindBytesCI :: "bytes \<Rightarrow> bytes \<Rightarrow> nat option" where
  "zcFindBytesCI data needle =
     (if length needle = 0 \<or> length data < length needle then None
      else for_find
             (\<lambda>i. for_find (\<lambda>j. lower_byte (data ! (i + j)) \<noteq> lower_byte (needle ! j)) 0 (length needle)
                  = None)
             0 (length data - length needle + 1))"

text \<open>
  \<open>zcExtractParam\<close>: the first \<open>;key\<close> in the value, and the text after it up to a delimiter.
  The \<open>break\<close> at \<open>i+1+kLen > n\<close> cannot be taken below \<open>n-kLen\<close>; it is part of the condition here.
\<close>

definition param_end :: "char \<Rightarrow> bool" where
  "param_end c \<longleftrightarrow> c = CHR '';'' \<or> c = CHR '' '' \<or> c = CHR '','' \<or> c = CRc \<or> c = LFc"

definition zcExtractParam :: "bytes \<Rightarrow> bytes \<Rightarrow> bytes option" where
  "zcExtractParam data key =
     (let kLen = length key; n = length data
      in if n < kLen + 2 then None
         else case for_find (\<lambda>i. data ! i = CHR '';'' \<and> i + 1 + kLen \<le> n \<and> match_at data key (i + 1))
                0 (n - kLen) of
           None \<Rightarrow> None
         | Some i \<Rightarrow>
             let valStart = i + 1 + kLen;
                 valEnd = (case for_find (\<lambda>k. param_end (data ! k)) valStart n of
                             None \<Rightarrow> n | Some k \<Rightarrow> k)
             in Some (take (valEnd - valStart) (drop valStart data)))"

text \<open>A nil slice becomes the empty string.\<close>

definition nil_str :: "bytes option \<Rightarrow> string" where
  "nil_str o1 = (case o1 of None \<Rightarrow> [] | Some s \<Rightarrow> s)"

subsection \<open>Extracting user and host\<close>

definition strip_scheme :: "bytes \<Rightarrow> bytes \<times> bool" where
  "strip_scheme raw =
     (if length raw > 4 then
        (if raw ! 3 = CHR '':'' \<and> or20 (raw ! 0) = CHR ''s'' \<and> or20 (raw ! 1) = CHR ''i'' \<and>
            or20 (raw ! 2) = CHR ''p'' then (drop 4 raw, False)
         else if raw ! 3 = CHR '':'' \<and> or20 (raw ! 0) = CHR ''t'' \<and> or20 (raw ! 1) = CHR ''e'' \<and>
            or20 (raw ! 2) = CHR ''l'' then (drop 4 raw, True)
         else if length raw > 5 \<and> raw ! 4 = CHR '':'' \<and> or20 (raw ! 0) = CHR ''s'' \<and>
            or20 (raw ! 1) = CHR ''i'' \<and> or20 (raw ! 2) = CHR ''p'' \<and> or20 (raw ! 3) = CHR ''s''
           then (drop 5 raw, False)
         else (raw, False))
      else (raw, False))"

definition cut_at :: "bytes \<Rightarrow> char \<Rightarrow> bytes" where
  "cut_at s c = (case findByte s c of None \<Rightarrow> s | Some i \<Rightarrow> take i s)"

definition zcExtractUserHost :: "bytes \<Rightarrow> string \<times> string" where
  "zcExtractUserHost uri =
     (let (raw, isTel) = strip_scheme uri
      in case findByte raw (CHR ''@'') of
           Some atPos \<Rightarrow>
             let user = cut_at (take atPos raw) (CHR '';'');
                 hostPart = cut_at (drop (atPos + 1) raw) (CHR '';'')
             in (user, cut_at hostPart (CHR '':''))
         | None \<Rightarrow>
             let host = cut_at (cut_at raw (CHR '';'')) (CHR '':'')
             in (if isTel \<and> host \<noteq> [] then host else [], host))"

definition zcFindURIBrackets :: "bytes \<Rightarrow> (nat \<times> nat) option" where
  "zcFindURIBrackets val = findURIBrackets val"

definition bracket_uri :: "bytes \<Rightarrow> bytes option" where
  "bracket_uri val =
     (case zcFindURIBrackets val of
        None \<Rightarrow> None
      | Some (lbrack, rbrack) \<Rightarrow> Some (take (rbrack - (lbrack + 1)) (drop (lbrack + 1) val)))"

definition addr_uri :: "bytes \<Rightarrow> bytes" where
  "addr_uri val =
     (case bracket_uri val of
        Some u \<Rightarrow> u
      | None \<Rightarrow> (case findByte val (CHR '';'') of
          Some semi \<Rightarrow> zcTrimWS (take semi val)
        | None \<Rightarrow> val))"

subsection \<open>Header values\<close>

definition zcParseFromTo :: "bytes \<Rightarrow> char \<Rightarrow> sip_msg \<Rightarrow> sip_msg" where
  "zcParseFromTo val0 target s =
     (let val = zcTrimWS val0;
          tag = nil_str (zcExtractParam val ''tag='');
          (user, host) = zcExtractUserHost (addr_uri val)
      in if target = CHR ''f'' then s\<lparr>FromUser := user, FromHost := host, FromTag := tag\<rparr>
         else if target = CHR ''t'' then s\<lparr>ToUser := user, ToHost := host, ToTag := tag\<rparr>
         else s)"

definition zcParseContact :: "bytes \<Rightarrow> sip_msg \<Rightarrow> sip_msg" where
  "zcParseContact val0 s =
     (let val = zcTrimWS val0;
          (user, host) = zcExtractUserHost (addr_uri val)
      in s\<lparr>ContactUser := user, ContactHost := host\<rparr>)"

definition zcParseCSeq :: "bytes \<Rightarrow> sip_msg \<Rightarrow> sip_msg" where
  "zcParseCSeq val0 s =
     (let val = zcTrimWS val0
      in case findByte val (CHR '' '') of
           None \<Rightarrow> s
         | Some sp \<Rightarrow> s\<lparr>CseqMethod := zcTrimWS (drop (sp + 1) val)\<rparr>)"

definition zcParseVia :: "bytes \<Rightarrow> sip_msg \<Rightarrow> sip_msg" where
  "zcParseVia val s =
     (let s1 = s\<lparr>ViaOne := zcTrimWS val\<rparr>;
          branch = nil_str (zcExtractParam val ''branch='')
      in if length branch > 0 then s1\<lparr>ViaOneBranch := branch\<rparr> else s1)"

definition zcParseAuthUser :: "bytes \<Rightarrow> sip_msg \<Rightarrow> sip_msg" where
  "zcParseAuthUser val s =
     (case zcFindBytesCI val (''username='' @ [CHR 0x22]) of
        Some idx \<Rightarrow>
          let rest = drop (idx + 10) val
          in (case findByte rest (CHR 0x22) of
                Some e \<Rightarrow> s\<lparr>AuthUser := take e rest\<rparr>
              | None \<Rightarrow> s\<lparr>AuthUser := zcTrimWS rest\<rparr>)
      | None \<Rightarrow>
          (case zcFindBytesCI val ''username='' of
             Some idx \<Rightarrow>
               let rest = drop (idx + 9) val
               in (case findByte rest (CHR '','') of
                     Some e \<Rightarrow> s\<lparr>AuthUser := zcTrimWS (take e rest)\<rparr>
                   | None \<Rightarrow> s\<lparr>AuthUser := zcTrimWS rest\<rparr>)
           | None \<Rightarrow> s))"

definition zcParsePAIUser :: "bytes \<Rightarrow> sip_msg \<Rightarrow> sip_msg" where
  "zcParsePAIUser val0 s =
     (let val = zcTrimWS val0;
          uriBytes = (case bracket_uri val of Some u \<Rightarrow> u | None \<Rightarrow> val);
          (user, host) = zcExtractUserHost uriBytes
      in s\<lparr>PaiUser := user, PaiHost := host\<rparr>)"

text \<open>
  \<open>aleg_ids\<close> and \<open>custom_headers\<close> of one header line. The first configured, non-empty name that
  equals the header name (ignoring case) decides; \<open>XCallID\<close> is written only while it is empty.
\<close>

definition first_match :: "string \<Rightarrow> string list \<Rightarrow> string option" where
  "first_match name ids = List.find (\<lambda>h. h \<noteq> [] \<and> EqualFold name h) ids"

definition zcApplyAlegCustomHeaders :: "zc_opts option \<Rightarrow> bytes \<Rightarrow> bytes \<Rightarrow> sip_msg \<Rightarrow> sip_msg" where
  "zcApplyAlegCustomHeaders opts name val s =
     (case opts of
        None \<Rightarrow> s
      | Some o1 \<Rightarrow>
          if length (AlegIDs o1) = 0 \<and> length (CustomHeaders o1) = 0 then s
          else let valStr = zcTrimWS val;
                   s1 = (if length (AlegIDs o1) > 0 \<and> XCallID s = [] then
                           (case first_match name (AlegIDs o1) of
                              None \<Rightarrow> s
                            | Some _ \<Rightarrow> s\<lparr>XCallID := valStr\<rparr>)
                         else s)
               in if length (CustomHeaders o1) = 0 then s1
                  else (case first_match name (CustomHeaders o1) of
                          None \<Rightarrow> s1
                        | Some h \<Rightarrow> s1\<lparr>CustomHeader := (CustomHeader s1)(h \<mapsto> valStr)\<rparr>))"

subsection \<open>Lines\<close>

text \<open>The single-character compact forms; an unknown one changes nothing.\<close>

definition zcCompactHeader :: "char \<Rightarrow> bytes \<Rightarrow> sip_msg \<Rightarrow> sip_msg" where
  "zcCompactHeader c val s =
     (if c = CHR ''i'' \<or> c = CHR ''I'' then s\<lparr>CallID := zcTrimWS val\<rparr>
      else if c = CHR ''f'' \<or> c = CHR ''F'' then zcParseFromTo val (CHR ''f'') s
      else if c = CHR ''t'' \<or> c = CHR ''T'' then zcParseFromTo val (CHR ''t'') s
      else if c = CHR ''m'' \<or> c = CHR ''M'' then zcParseContact val (s\<lparr>ContactVal := zcTrimWS val\<rparr>)
      else if c = CHR ''v'' \<or> c = CHR ''V'' then zcParseVia val s
      else if c = CHR ''c'' \<or> c = CHR ''C'' then s\<lparr>ContentType := zcTrimWS val\<rparr>
      else if c = CHR ''l'' \<or> c = CHR ''L'' then s\<lparr>ContentLength := zcTrimWS val\<rparr>
      else s)"

text \<open>The \<open>switch first\<close> over the full header names.\<close>

definition zcNamedHeader :: "bytes \<Rightarrow> bytes \<Rightarrow> sip_msg \<Rightarrow> sip_msg" where
  "zcNamedHeader name val s =
     (let nameLen = length name;
          first = lower_byte (name ! 0);
          v = zcTrimWS val
      in if first = CHR ''v'' then
           (if nameLen = 3 \<and> zcEqCI3 name (CHR ''v'') (CHR ''i'') (CHR ''a'') then zcParseVia val s else s)
         else if first = CHR ''f'' then
           (if nameLen = 4 \<and> zcEqCI4 name (CHR ''f'') (CHR ''r'') (CHR ''o'') (CHR ''m'')
            then zcParseFromTo val (CHR ''f'') s else s)
         else if first = CHR ''c'' then
           (if nameLen = 4 then
              (if zcEqCI4 name (CHR ''c'') (CHR ''s'') (CHR ''e'') (CHR ''q'')
               then zcParseCSeq val (s\<lparr>CseqVal := v\<rparr>) else s)
            else if nameLen = 7 then
              (if zcEqCI name ''call-id'' then s\<lparr>CallID := v\<rparr>
               else if zcEqCI name ''contact'' then zcParseContact val (s\<lparr>ContactVal := v\<rparr>)
               else s)
            else if nameLen = 12 then (if zcEqCI name ''content-type'' then s\<lparr>ContentType := v\<rparr> else s)
            else if nameLen = 14 then (if zcEqCI name ''content-length'' then s\<lparr>ContentLength := v\<rparr> else s)
            else s)
         else if first = CHR ''u'' then
           (if nameLen = 10 \<and> zcEqCI name ''user-agent'' then s\<lparr>UserAgent := v\<rparr> else s)
         else if first = CHR ''s'' then
           (if nameLen = 6 \<and> zcEqCI name ''server'' then s\<lparr>Server := v\<rparr> else s)
         else if first = CHR ''m'' then
           (if nameLen = 12 \<and> zcEqCI name ''max-forwards'' then s\<lparr>MaxForwards := v\<rparr> else s)
         else if first = CHR ''o'' then
           (if nameLen = 12 \<and> zcEqCI name ''organization'' then s\<lparr>Organization := v\<rparr> else s)
         else if first = CHR ''a'' then
           (if nameLen = 13 \<and> zcEqCI name ''authorization'' then zcParseAuthUser val (s\<lparr>AuthVal := v\<rparr>) else s)
         else if first = CHR ''p'' then
           (if nameLen = 19 \<and> zcEqCI name ''p-asserted-identity''
            then zcParsePAIUser val (s\<lparr>PAssertedIdVal := v\<rparr>)
            else if nameLen = 7 \<and> zcEqCI name ''privacy'' then s\<lparr>Privacy := v\<rparr>
            else if nameLen = 19 \<and> zcEqCI name ''proxy-authorization''
            then zcParseAuthUser val (s\<lparr>AuthVal := v\<rparr>)
            else s)
         else if first = CHR ''r'' then
           (if nameLen = 6 \<and> zcEqCI name ''reason'' then s\<lparr>ReasonVal := v\<rparr>
            else if nameLen = 15 \<and> zcEqCI name ''remote-party-id'' then s\<lparr>RemotePartyIdVal := v\<rparr>
            else s)
         else if first = CHR ''d'' then
           (if nameLen = 9 \<and> zcEqCI name ''diversion'' then s\<lparr>DiversionVal := v\<rparr> else s)
         else if first = CHR ''e'' then
           (if nameLen = 7 \<and> zcEqCI name ''expires'' then s\<lparr>Expires := v\<rparr> else s)
         else if first = CHR ''x'' then
           (if nameLen = 10 \<and> zcEqCI name ''x-rtp-stat'' then s\<lparr>RTPStatVal := v\<rparr> else s)
         else s)"

text \<open>The name and the value of a header line; \<open>None\<close> when there is no colon or no name.\<close>

definition header_split :: "bytes \<Rightarrow> (bytes \<times> bytes) option" where
  "header_split line =
     (case findByte line (CHR '':'') of
        None \<Rightarrow> None
      | Some colonPos \<Rightarrow>
          let name = zcTrimWS (take colonPos line)
          in if length name = 0 then None
             else Some (name, dropWhile is_ws (drop (colonPos + 1) line)))"

definition zcParseHeaderLine :: "zc_opts option \<Rightarrow> bytes \<Rightarrow> sip_msg \<Rightarrow> sip_msg" where
  "zcParseHeaderLine opts line s =
     (case header_split line of
        None \<Rightarrow> s
      | Some (name, val) \<Rightarrow>
          if length name = 1 then zcCompactHeader (name ! 0) val s
          else if length name = 2 \<and> zcEqCI2 name (CHR ''t'') (CHR ''o'') then zcParseFromTo val (CHR ''t'') s
          else zcApplyAlegCustomHeaders opts name val (zcNamedHeader name val s))"

definition zcParseRequestURI :: "bytes \<Rightarrow> sip_msg \<Rightarrow> sip_msg" where
  "zcParseRequestURI uri s =
     (let (user, host) = zcExtractUserHost uri
      in s\<lparr>URIRaw := uri, URIUser := user, URIHost := host\<rparr>)"

definition zcParseStartLine :: "bytes \<Rightarrow> sip_msg \<Rightarrow> sip_msg" where
  "zcParseStartLine line s =
     (if length line < 3 then s
      else if line ! 0 = CHR ''S'' \<and> line ! 1 = CHR ''I'' \<and> line ! 2 = CHR ''P'' then
        (case findByte line (CHR '' '') of
           None \<Rightarrow> s
         | Some sp1 \<Rightarrow>
             let rest = drop (sp1 + 1) line
             in (case findByte rest (CHR '' '') of
                   None \<Rightarrow> s
                 | Some sp2 \<Rightarrow> s\<lparr>FirstResp := take sp2 rest, FirstRespText := drop (sp2 + 1) rest\<rparr>))
      else
        (case findByte line (CHR '' '') of
           None \<Rightarrow> s
         | Some sp1 \<Rightarrow>
             let rest = drop (sp1 + 1) line
             in (case findByte rest (CHR '' '') of
                   None \<Rightarrow> s
                 | Some sp2 \<Rightarrow> zcParseRequestURI (take sp2 rest) (s\<lparr>FirstMethod := take sp1 line\<rparr>))))"

subsection \<open>The message\<close>

definition zcFindLastCRLF :: "bytes \<Rightarrow> nat option" where
  "zcFindLastCRLF data =
     (if length data < 2 then None
      else for_find_down (\<lambda>i. data ! i = CRc \<and> data ! (i + 1) = LFc) (length data - 1))"

function zcParseHeaders_loop :: "zc_opts option \<Rightarrow> bytes \<Rightarrow> nat \<Rightarrow> bool \<Rightarrow> sip_msg \<Rightarrow> sip_msg" where
  "zcParseHeaders_loop opts region lineStart firstLine s =
     (if lineStart < length region - 1 then
        (case for_find (\<lambda>i. region ! i = CRc \<and> region ! (i + 1) = LFc) lineStart (length region - 1) of
           None \<Rightarrow> s
         | Some lineEnd \<Rightarrow>
             if lineEnd = lineStart then s
             else let line = take (lineEnd - lineStart) (drop lineStart region);
                      s1 = (if firstLine then zcParseStartLine line s
                            else zcParseHeaderLine opts line s)
                  in if sm_Error s1 \<noteq> None then s1
                     else zcParseHeaders_loop opts region (lineEnd + 2) False s1)
      else s)"
  by pat_completeness auto
termination
  by (relation "measure (\<lambda>(opts, region, lineStart, firstLine, s). length region - lineStart)")
    (auto simp: for_find_Some)

declare zcParseHeaders_loop.simps [simp del]

definition zcParseHeaders :: "zc_opts option \<Rightarrow> bytes \<Rightarrow> sip_msg \<Rightarrow> sip_msg" where
  "zcParseHeaders opts region s = zcParseHeaders_loop opts region 0 True s"

definition ParseMsgZeroCopy :: "bytes \<Rightarrow> zc_opts option \<Rightarrow> sip_msg" where
  "ParseMsgZeroCopy data opts =
     (if length data < 16 then acquireSipMsg\<lparr>sm_Error := Some ErrTooShort\<rparr>
      else case (case findCRLFCRLF data of None \<Rightarrow> zcFindLastCRLF data | Some i \<Rightarrow> Some i) of
        None \<Rightarrow> acquireSipMsg\<lparr>sm_Error := Some ErrNoEOF\<rparr>
      | Some headersEnd \<Rightarrow>
          let s = acquireSipMsg\<lparr>sm_Msg := data, sm_eof := headersEnd\<rparr>;
              s1 = (if headersEnd + 4 < length data then s\<lparr>sm_Body := drop (headersEnd + 4) data\<rparr> else s)
          in zcParseHeaders opts (take (headersEnd + 2) data) s1)"

definition ParseMsgZeroCopyLegacy :: "bytes \<Rightarrow> sip_msg" where
  "ParseMsgZeroCopyLegacy data = ParseMsgZeroCopy data None"

text \<open>\<open>CalleeUser\<close> of src/sipparser/parties.go.\<close>

definition CalleeUser :: "sip_msg option \<Rightarrow> string" where
  "CalleeUser m =
     (case m of
        None \<Rightarrow> []
      | Some s \<Rightarrow> if URIUser s \<noteq> [] then URIUser s else ToUser s)"

subsection \<open>Case-insensitive comparison\<close>

lemma zcEqCI_EqualFold: "zcEqCI a b \<longleftrightarrow> EqualFold a b"
proof (cases "length a = length b")
  case True
  then have "ToLower a = ToLower b \<longleftrightarrow> (\<forall>i<length a. lower_byte (a ! i) = lower_byte (b ! i))"
    by (auto simp: ToLower_def list_eq_iff_nth_eq [where xs = "map lower_byte a"])
  with True show ?thesis by (simp add: zcEqCI_def EqualFold_def for_find_None)
next
  case False
  then show ?thesis
    by (simp add: zcEqCI_def EqualFold_def) (metis length_ToLower)
qed

definition lower_letter :: "char \<Rightarrow> bool" where
  "lower_letter d \<longleftrightarrow> 97 \<le> byte_val d \<and> byte_val d \<le> 122"

lemma or_32: "n OR 32 = (if odd (n div 32) then n else n + 32 :: nat)"
proof -
  have b: "bit n 5 \<longleftrightarrow> odd (n div 32)" by (simp add: bit_iff_odd)
  have "n OR 32 = set_bit 5 n" by (simp add: set_bit_eq_or)
  also have "\<dots> = n + of_bool (\<not> bit n 5) * 2 ^ 5" by (simp add: set_bit_eq)
  finally show ?thesis using b by simp
qed

lemma or_32_less: "n < 256 \<Longrightarrow> n OR 32 < (256 :: nat)"
  by (auto simp: or_32) presburger

lemma or_32_eq_iff: "97 \<le> d \<Longrightarrow> d \<le> 122 \<Longrightarrow> n OR 32 = d \<longleftrightarrow> n = d \<or> n + 32 = (d :: nat)"
proof -
  assume "97 \<le> d" "d \<le> 122"
  then have d: "d div 32 = 3" by (intro div_nat_eqI) auto
  have "n = d \<Longrightarrow> odd (n div 32)" using d by simp
  moreover have "n + 32 = d \<Longrightarrow> n div 32 = 2" using d div_add_self2 [of 32 n] by simp
  ultimately show ?thesis by (auto simp: or_32)
qed

lemma or20_lower: "lower_letter d \<Longrightarrow> or20 c = d \<longleftrightarrow> lower_byte c = d"
proof -
  assume d: "lower_letter d"
  have n: "byte_val c < 256" by simp
  have eq: "byte_of m = d \<longleftrightarrow> m = byte_val d" if "m < 256" for m
    using that by (metis char_of_char of_char_of mod_less)
  have "byte_val c OR 32 < 256"
    by (rule or_32_less [OF n])
  then have "or20 c = d \<longleftrightarrow> byte_val c OR 32 = byte_val d" by (simp add: or20_def eq)
  also have "\<dots> \<longleftrightarrow> byte_val c = byte_val d \<or> byte_val c + 32 = byte_val d"
    using d by (intro or_32_eq_iff) (simp_all add: lower_letter_def)
  also have "\<dots> \<longleftrightarrow> lower_byte c = d"
    using d n by (auto simp: lower_byte_def eq lower_letter_def of_char_eq_iff)
  finally show ?thesis .
qed

lemma zcEqCI2_EqualFold:
  "lower_letter a \<Longrightarrow> lower_letter b \<Longrightarrow> zcEqCI2 n a b \<longleftrightarrow> ToLower n = [a, b]"
  by (auto simp: zcEqCI2_def or20_lower ToLower_def numeral_2_eq_2 length_Suc_conv)

lemma zcEqCI3_EqualFold:
  "lower_letter a \<Longrightarrow> lower_letter b \<Longrightarrow> lower_letter c \<Longrightarrow> zcEqCI3 n a b c \<longleftrightarrow> ToLower n = [a, b, c]"
  by (auto simp: zcEqCI3_def or20_lower ToLower_def numeral_3_eq_3 length_Suc_conv numeral_2_eq_2)

lemma zcEqCI4_EqualFold:
  "lower_letter a \<Longrightarrow> lower_letter b \<Longrightarrow> lower_letter c \<Longrightarrow> lower_letter d \<Longrightarrow>
     zcEqCI4 n a b c d \<longleftrightarrow> ToLower n = [a, b, c, d]"
  by (auto simp: zcEqCI4_def or20_lower ToLower_def eval_nat_numeral length_Suc_conv)

lemmas zcEq_EqualFold = zcEqCI_EqualFold zcEqCI2_EqualFold zcEqCI3_EqualFold zcEqCI4_EqualFold

subsection \<open>Frames: what a line can change\<close>

named_theorems zc_frame \<open>fields a parsing step leaves alone\<close>

lemma zcParseFromTo_frame [zc_frame]:
  "sm_Error (zcParseFromTo v t s) = sm_Error s" "sm_Body (zcParseFromTo v t s) = sm_Body s"
  "sm_Msg (zcParseFromTo v t s) = sm_Msg s" "CallID (zcParseFromTo v t s) = CallID s"
  "XCallID (zcParseFromTo v t s) = XCallID s" "CustomHeader (zcParseFromTo v t s) = CustomHeader s"
  "CseqMethod (zcParseFromTo v t s) = CseqMethod s"
  by (simp_all add: zcParseFromTo_def Let_def split: prod.splits)

lemma zcParseContact_frame [zc_frame]:
  "sm_Error (zcParseContact v s) = sm_Error s" "sm_Body (zcParseContact v s) = sm_Body s"
  "sm_Msg (zcParseContact v s) = sm_Msg s" "CallID (zcParseContact v s) = CallID s"
  "XCallID (zcParseContact v s) = XCallID s" "CustomHeader (zcParseContact v s) = CustomHeader s"
  "CseqMethod (zcParseContact v s) = CseqMethod s"
  by (simp_all add: zcParseContact_def Let_def split: prod.splits)

lemma zcParseCSeq_frame [zc_frame]:
  "sm_Error (zcParseCSeq v s) = sm_Error s" "sm_Body (zcParseCSeq v s) = sm_Body s"
  "sm_Msg (zcParseCSeq v s) = sm_Msg s" "CallID (zcParseCSeq v s) = CallID s"
  "XCallID (zcParseCSeq v s) = XCallID s" "CustomHeader (zcParseCSeq v s) = CustomHeader s"
  by (simp_all add: zcParseCSeq_def Let_def split: option.splits)

lemma zcParseVia_frame [zc_frame]:
  "sm_Error (zcParseVia v s) = sm_Error s" "sm_Body (zcParseVia v s) = sm_Body s"
  "sm_Msg (zcParseVia v s) = sm_Msg s" "CallID (zcParseVia v s) = CallID s"
  "XCallID (zcParseVia v s) = XCallID s" "CustomHeader (zcParseVia v s) = CustomHeader s"
  "CseqMethod (zcParseVia v s) = CseqMethod s"
  by (simp_all add: zcParseVia_def Let_def)

lemma zcParseAuthUser_frame [zc_frame]:
  "sm_Error (zcParseAuthUser v s) = sm_Error s" "sm_Body (zcParseAuthUser v s) = sm_Body s"
  "sm_Msg (zcParseAuthUser v s) = sm_Msg s" "CallID (zcParseAuthUser v s) = CallID s"
  "XCallID (zcParseAuthUser v s) = XCallID s" "CustomHeader (zcParseAuthUser v s) = CustomHeader s"
  "CseqMethod (zcParseAuthUser v s) = CseqMethod s"
  by (simp_all add: zcParseAuthUser_def Let_def split: option.splits)

lemma zcParsePAIUser_frame [zc_frame]:
  "sm_Error (zcParsePAIUser v s) = sm_Error s" "sm_Body (zcParsePAIUser v s) = sm_Body s"
  "sm_Msg (zcParsePAIUser v s) = sm_Msg s" "CallID (zcParsePAIUser v s) = CallID s"
  "XCallID (zcParsePAIUser v s) = XCallID s" "CustomHeader (zcParsePAIUser v s) = CustomHeader s"
  "CseqMethod (zcParsePAIUser v s) = CseqMethod s"
  by (simp_all add: zcParsePAIUser_def Let_def split: prod.splits)

lemma zcApply_frame [zc_frame]:
  "sm_Error (zcApplyAlegCustomHeaders o1 n v s) = sm_Error s"
  "sm_Body (zcApplyAlegCustomHeaders o1 n v s) = sm_Body s"
  "sm_Msg (zcApplyAlegCustomHeaders o1 n v s) = sm_Msg s"
  "CallID (zcApplyAlegCustomHeaders o1 n v s) = CallID s"
  "CseqMethod (zcApplyAlegCustomHeaders o1 n v s) = CseqMethod s"
  by (simp_all add: zcApplyAlegCustomHeaders_def Let_def split: option.splits)

lemma zcParseStartLine_frame [zc_frame]:
  "sm_Error (zcParseStartLine l s) = sm_Error s" "sm_Body (zcParseStartLine l s) = sm_Body s"
  "sm_Msg (zcParseStartLine l s) = sm_Msg s" "CallID (zcParseStartLine l s) = CallID s"
  "XCallID (zcParseStartLine l s) = XCallID s" "CustomHeader (zcParseStartLine l s) = CustomHeader s"
  "CseqMethod (zcParseStartLine l s) = CseqMethod s"
  by (simp_all add: zcParseStartLine_def zcParseRequestURI_def Let_def split: option.splits prod.splits)

lemma zcCompactHeader_frame [zc_frame]:
  "sm_Error (zcCompactHeader c v s) = sm_Error s" "sm_Body (zcCompactHeader c v s) = sm_Body s"
  "sm_Msg (zcCompactHeader c v s) = sm_Msg s" "XCallID (zcCompactHeader c v s) = XCallID s"
  "CustomHeader (zcCompactHeader c v s) = CustomHeader s"
  "CseqMethod (zcCompactHeader c v s) = CseqMethod s"
  by (simp_all add: zcCompactHeader_def zc_frame)

lemma zcNamedHeader_frame [zc_frame]:
  "sm_Error (zcNamedHeader n v s) = sm_Error s" "sm_Body (zcNamedHeader n v s) = sm_Body s"
  "sm_Msg (zcNamedHeader n v s) = sm_Msg s" "XCallID (zcNamedHeader n v s) = XCallID s"
  "CustomHeader (zcNamedHeader n v s) = CustomHeader s"
  by (simp_all add: zcNamedHeader_def Let_def zc_frame)

lemma zcParseHeaderLine_frame [zc_frame]:
  "sm_Error (zcParseHeaderLine o1 l s) = sm_Error s" "sm_Body (zcParseHeaderLine o1 l s) = sm_Body s"
  "sm_Msg (zcParseHeaderLine o1 l s) = sm_Msg s"
  by (simp_all add: zcParseHeaderLine_def zc_frame split: option.splits prod.splits)

subsection \<open>The header loop is a fold over the lines\<close>

function header_lines :: "bytes \<Rightarrow> bytes list" where
  "header_lines region =
     (case Index region CRLF of
        None \<Rightarrow> []
      | Some i \<Rightarrow> if i = 0 then [] else take i region # header_lines (drop (i + 2) region))"
  by pat_completeness auto
termination
  by (relation "measure length") (auto dest!: Index_Some_bound simp: CRLF_def)

declare header_lines.simps [simp del]

definition fold_lines :: "zc_opts option \<Rightarrow> bool \<Rightarrow> bytes list \<Rightarrow> sip_msg \<Rightarrow> sip_msg" where
  "fold_lines opts firstLine ls s =
     (case ls of
        [] \<Rightarrow> s
      | l # ls' \<Rightarrow>
          fold (zcParseHeaderLine opts) ls'
            (if firstLine then zcParseStartLine l s else zcParseHeaderLine opts l s))"

lemma crlf_scan:
  "for_find (\<lambda>i. region ! i = CRc \<and> region ! Suc i = LFc) lo (length region - Suc 0)
     = map_option ((+) lo) (Index (drop lo region) CRLF)"
proof (cases "lo \<le> length region")
  case True
  have "for_find (\<lambda>i. region ! (lo + i) = CRc \<and> region ! Suc (lo + i) = LFc) 0
      (length region - Suc 0 - lo) = findCRLF_fallback (drop lo region)"
    using True unfolding findCRLF_fallback_def by (simp add: diff_commute)
  then show ?thesis
    by (subst for_find_shift) (simp add: findCRLF_fallback_Index)
next
  case False
  then have "\<not> lo < length region - Suc 0" by linarith
  with False show ?thesis by (simp add: for_find.simps CRLF_def)
qed

lemma zcParseHeaders_loop_fold:
  "sm_Error s = None \<Longrightarrow>
     zcParseHeaders_loop opts region lineStart firstLine s
       = fold_lines opts firstLine (header_lines (drop lineStart region)) s"
proof (induction opts region lineStart firstLine s rule: zcParseHeaders_loop.induct)
  case (1 opts region lineStart firstLine s)
  let ?r = "drop lineStart region"
  show ?case
  proof (cases "Index ?r CRLF")
    case None
    then show ?thesis
      by (simp add: zcParseHeaders_loop.simps [of opts region lineStart] crlf_scan
          header_lines.simps [of ?r] fold_lines_def)
  next
    case (Some i)
    then have "lineStart < length region - 1"
      using Index_Some_bound [OF Some] by (simp add: CRLF_def)
    show ?thesis
    proof (cases "i = 0")
      case True
      with Some show ?thesis
        by (simp add: zcParseHeaders_loop.simps [of opts region lineStart] crlf_scan
            header_lines.simps [of ?r] fold_lines_def)
    next
      case False
      define s1 where "s1 = (if firstLine then zcParseStartLine (take i ?r) s
          else zcParseHeaderLine opts (take i ?r) s)"
      have err: "sm_Error s1 = None" using "1.prems" by (simp add: s1_def zc_frame)
      have scan: "for_find (\<lambda>i. region ! i = CRc \<and> region ! (i + 1) = LFc) lineStart (length region - 1)
          = Some (lineStart + i)"
        using Some by (simp add: crlf_scan)
      have "zcParseHeaders_loop opts region (lineStart + i + 2) False s1
          = fold_lines opts False (header_lines (drop (lineStart + i + 2) region)) s1"
        by (rule "1.IH" [OF \<open>lineStart < length region - 1\<close> scan _ refl _ _ err])
          (use False err in \<open>simp_all add: s1_def\<close>)
      moreover have "fold_lines opts False ls s1 = fold (zcParseHeaderLine opts) ls s1" for ls
        by (cases ls) (simp_all add: fold_lines_def)
      ultimately show ?thesis
        using scan False Some err \<open>lineStart < length region - 1\<close>
        by (simp add: zcParseHeaders_loop.simps [of opts region lineStart]
            header_lines.simps [of ?r] fold_lines_def Let_def s1_def [symmetric] add.commute
            add.left_commute)
    qed
  qed
qed

subsection \<open>The A-leg identifier and the Call-ID of a message\<close>

definition full_name :: "bytes \<Rightarrow> bool" where
  "full_name name \<longleftrightarrow> length name \<noteq> 1 \<and> ToLower name \<noteq> ''to''"

definition aleg_value :: "zc_opts option \<Rightarrow> bytes \<Rightarrow> string option" where
  "aleg_value opts line =
     (case (header_split line, opts) of
        (Some (name, val), Some o1) \<Rightarrow>
          if full_name name \<and> first_match name (AlegIDs o1) \<noteq> None then Some (zcTrimWS val) else None
      | _ \<Rightarrow> None)"

definition callid_value :: "bytes \<Rightarrow> string option" where
  "callid_value line =
     (case header_split line of
        None \<Rightarrow> None
      | Some (name, val) \<Rightarrow>
          if EqualFold name ''i'' \<or> EqualFold name ''call-id'' then Some (zcTrimWS val) else None)"

lemma lower_letter_to [simp]: "lower_letter CHR ''t''" "lower_letter CHR ''o''"
  by (simp_all add: lower_letter_def)

lemma zcEqCI2_to:
  "length name = 2 \<and> zcEqCI2 name CHR ''t'' CHR ''o'' \<longleftrightarrow> ToLower name = ''to''"
proof -
  have "length name = 2" if "ToLower name = ''to''"
    using arg_cong [OF that, of length] by simp
  then show ?thesis by (auto simp: zcEqCI2_EqualFold)
qed

lemma first_match_Nil [simp]: "first_match n [] = None"
  by (simp add: first_match_def)

lemma XCallID_apply:
  "XCallID (zcApplyAlegCustomHeaders opts n v s) =
     (if XCallID s \<noteq> [] then XCallID s
      else case opts of None \<Rightarrow> [] | Some o1 \<Rightarrow>
        (case first_match n (AlegIDs o1) of None \<Rightarrow> [] | Some _ \<Rightarrow> zcTrimWS v))"
  by (auto simp: zcApplyAlegCustomHeaders_def Let_def split: option.splits)

lemma XCallID_line:
  "XCallID (zcParseHeaderLine opts l s) =
     (if XCallID s \<noteq> [] then XCallID s
      else case aleg_value opts l of None \<Rightarrow> [] | Some v \<Rightarrow> v)"
proof (cases "header_split l")
  case None
  then show ?thesis by (simp add: zcParseHeaderLine_def aleg_value_def)
next
  case (Some p)
  then obtain name val where p: "header_split l = Some (name, val)" by (cases p) auto
  have to: "length name = 2 \<and> zcEqCI2 name CHR ''t'' CHR ''o'' \<longleftrightarrow> ToLower name = ''to''"
    by (rule zcEqCI2_to)
  show ?thesis
    by (simp add: zcParseHeaderLine_def p zc_frame aleg_value_def full_name_def to XCallID_apply
        split: option.splits)
qed

definition first_nonempty :: "string option list \<Rightarrow> string" where
  "first_nonempty vs = (case List.find (\<lambda>v. v \<noteq> []) (List.map_filter id vs) of None \<Rightarrow> [] | Some v \<Rightarrow> v)"

lemma XCallID_fold:
  "XCallID (fold (zcParseHeaderLine opts) ls s) =
     (if XCallID s \<noteq> [] then XCallID s else first_nonempty (map (aleg_value opts) ls))"
proof (induction ls arbitrary: s)
  case Nil
  show ?case by (simp add: first_nonempty_def)
next
  case (Cons l ls)
  show ?case
    by (auto simp: Cons.IH XCallID_line first_nonempty_def split: option.splits)
qed

lemma EqualFold_hd:
  assumes "EqualFold n (c # cs)"
  shows "length n = Suc (length cs)" and "lower_byte (n ! 0) = lower_byte c"
proof -
  from assms have "map lower_byte n = map lower_byte (c # cs)" by (simp add: EqualFold_def ToLower_def)
  then show "length n = Suc (length cs)" "lower_byte (n ! 0) = lower_byte c"
    by (cases n; force dest: map_eq_imp_length_eq)+
qed

lemma CallID_named:
  "CallID (zcNamedHeader n v s) = (if EqualFold n ''call-id'' then zcTrimWS v else CallID s)"
proof (cases "EqualFold n ''call-id''")
  case True
  from EqualFold_hd [OF True] have "length n = 7" "lower_byte (n ! 0) = CHR ''c''"
    by (simp_all add: lower_byte_def)
  with True show ?thesis by (simp add: zcNamedHeader_def zcEqCI_EqualFold)
next
  case False
  then show ?thesis by (simp add: zcNamedHeader_def zcEqCI_EqualFold zc_frame Let_def)
qed

lemma EqualFold_i: "EqualFold n ''i'' \<longleftrightarrow> n = ''i'' \<or> n = ''I''"
proof -
  have "lower_byte c = CHR ''i'' \<longleftrightarrow> c = CHR ''i'' \<or> c = CHR ''I''" for c
  proof
    assume "lower_byte c = CHR ''i''"
    then have "byte_val (lower_byte c) = 105" by simp
    then have "byte_val c = byte_val CHR ''i'' \<or> byte_val c = byte_val CHR ''I''"
      by (auto simp: lower_byte_def split: if_splits)
    then show "c = CHR ''i'' \<or> c = CHR ''I''" by (simp only: of_char_eq_iff)
  qed (auto simp: lower_byte_def char_of_def bit_0)
  then show ?thesis
    by (auto simp: EqualFold_def ToLower_def lower_byte_def [of "CHR ''i''"] map_eq_Cons_conv)
qed

lemma CallID_line:
  "CallID (zcParseHeaderLine opts l s) = (case callid_value l of None \<Rightarrow> CallID s | Some v \<Rightarrow> v)"
proof (cases "header_split l")
  case None
  then show ?thesis by (simp add: zcParseHeaderLine_def callid_value_def)
next
  case (Some p)
  then obtain n v where p: "header_split l = Some (n, v)" by (cases p) auto
  consider (one) "length n = 1" | (to) "length n \<noteq> 1" "ToLower n = ''to''"
    | (full) "length n \<noteq> 1" "ToLower n \<noteq> ''to''" by blast
  then show ?thesis
  proof cases
    case one
    then obtain c where c: "n = [c]" by (auto simp: length_Suc_conv)
    have "\<not> EqualFold [c] ''call-id''" by (auto dest: EqualFold_hd(1))
    then show ?thesis
      by (simp add: zcParseHeaderLine_def p c callid_value_def zcCompactHeader_def zc_frame EqualFold_i)
  next
    case to
    have len: "length n = 2" using arg_cong [OF to(2), of length] by simp
    have "\<not> EqualFold n ''call-id''" "\<not> EqualFold n ''i''"
      by (auto dest: EqualFold_hd(1) simp: len)
    with to show ?thesis
      by (simp add: zcParseHeaderLine_def p callid_value_def zcEqCI2_to zc_frame)
  next
    case full
    then have "\<not> EqualFold n ''i''" by (auto dest: EqualFold_hd(1))
    with full show ?thesis
      by (auto simp: zcParseHeaderLine_def p callid_value_def zcEqCI2_to zc_frame CallID_named)
  qed
qed

definition last_value :: "string option list \<Rightarrow> string" where
  "last_value vs = (case rev (List.map_filter id vs) of [] \<Rightarrow> [] | v # _ \<Rightarrow> v)"

lemma CallID_fold:
  "CallID s = [] \<Longrightarrow> CallID (fold (zcParseHeaderLine opts) ls s) = last_value (map callid_value ls)"
proof (induction ls rule: rev_induct)
  case Nil
  then show ?case by (simp add: last_value_def)
next
  case (snoc l ls)
  then show ?case
    by (simp add: CallID_line last_value_def List.map_filter_def split: option.split)
qed


lemma ParseMsgZeroCopy_fold:
  assumes "16 \<le> length data" and "Index data CRLFCRLF = Some i"
  shows "ParseMsgZeroCopy data opts =
    fold_lines opts True (header_lines (take (i + 2) data))
      (acquireSipMsg\<lparr>sm_Msg := data, sm_eof := i, sm_Body := drop (i + 4) data\<rparr>)"
proof -
  have "drop (i + 4) data = []" if "\<not> i + 4 < length data" using that by simp
  then have "ParseMsgZeroCopy data opts =
      zcParseHeaders opts (take (i + 2) data)
        (acquireSipMsg\<lparr>sm_Msg := data, sm_eof := i, sm_Body := drop (i + 4) data\<rparr>)"
    using assms by (auto simp: ParseMsgZeroCopy_def findCRLFCRLF_Index Let_def acquireSipMsg_def)
  then show ?thesis
    by (simp add: zcParseHeaders_def zcParseHeaders_loop_fold acquireSipMsg_def)
qed

lemma fold_lines_frame [zc_frame]:
  "sm_Error (fold_lines opts b ls s) = sm_Error s" "sm_Body (fold_lines opts b ls s) = sm_Body s"
  "sm_Msg (fold_lines opts b ls s) = sm_Msg s"
proof -
  have "sm_Error (fold (zcParseHeaderLine opts) xs s) = sm_Error s"
    "sm_Body (fold (zcParseHeaderLine opts) xs s) = sm_Body s"
    "sm_Msg (fold (zcParseHeaderLine opts) xs s) = sm_Msg s" for xs s
    by (induction xs arbitrary: s) (simp_all add: zc_frame)
  then show "sm_Error (fold_lines opts b ls s) = sm_Error s" "sm_Body (fold_lines opts b ls s) = sm_Body s"
    "sm_Msg (fold_lines opts b ls s) = sm_Msg s"
    by (simp_all add: fold_lines_def zc_frame split: list.splits)
qed

lemma zcParseHeaders_frame [zc_frame]:
  "sm_Error s = None \<Longrightarrow> sm_Error (zcParseHeaders opts r s) = None"
  "sm_Error s = None \<Longrightarrow> sm_Body (zcParseHeaders opts r s) = sm_Body s"
  "sm_Error s = None \<Longrightarrow> sm_Msg (zcParseHeaders opts r s) = sm_Msg s"
  by (simp_all add: zcParseHeaders_def zcParseHeaders_loop_fold zc_frame)

lemma zcFindLastCRLF_None: "zcFindLastCRLF data = None \<longleftrightarrow> Index data CRLF = None"
proof (cases "length data < 2")
  case True
  then show ?thesis by (simp add: zcFindLastCRLF_def Index_too_short CRLF_def)
next
  case False
  then have "zcFindLastCRLF data = None \<longleftrightarrow> findCRLF data = None"
    by (auto simp: zcFindLastCRLF_def findCRLF_def for_find_down_None for_find_None)
  then show ?thesis by (simp add: findCRLF_Index)
qed

lemma no_CRLF_no_end: "Index data CRLF = None \<Longrightarrow> Index data CRLFCRLF = None"
  unfolding Index_None_iff_not_sublist CRLFCRLF_def
  by (metis sublist_append_leftI sublist_order.order.trans)

text \<open>
  The parser reports an error exactly for a message shorter than 16 bytes or one without any
  line end; every other byte sequence is accepted.
\<close>

theorem ParseMsgZeroCopy_errors:
  "sm_Error (ParseMsgZeroCopy data opts) =
     (if length data < 16 then Some ErrTooShort
      else if \<not> sublist CRLF data then Some ErrNoEOF
      else None)"
proof (cases "length data < 16")
  case True
  then show ?thesis by (simp add: ParseMsgZeroCopy_def)
next
  case long: False
  show ?thesis
  proof (cases "Index data CRLF")
    case None
    have "zcFindLastCRLF data = None" "\<not> sublist CRLF data"
      using None by (simp_all add: zcFindLastCRLF_None Index_None_iff_not_sublist)
    with no_CRLF_no_end [OF None] long show ?thesis
      by (simp add: ParseMsgZeroCopy_def findCRLFCRLF_Index)
  next
    case (Some k)
    then have "zcFindLastCRLF data \<noteq> None" by (simp add: zcFindLastCRLF_None)
    with Some long show ?thesis
      using Index_None_iff_not_sublist [of data CRLF]
      by (auto simp: ParseMsgZeroCopy_def findCRLFCRLF_Index Let_def zc_frame acquireSipMsg_def
          split: option.splits)
  qed
qed

text \<open>
  A message with an empty line is kept whole, and its body is exactly the bytes after the
  first empty line: header region, separator and body concatenate to the input.
\<close>

theorem ParseMsgZeroCopy_body:
  assumes "16 \<le> length data" and "Index data CRLFCRLF = Some i"
  shows "sm_Msg (ParseMsgZeroCopy data opts) = data \<and>
    data = take i data @ CRLFCRLF @ sm_Body (ParseMsgZeroCopy data opts)"
  using Index_Some_split [OF assms(2)]
  by (simp_all add: ParseMsgZeroCopy_fold [OF assms] zc_frame CRLFCRLF_def CRLF_def eval_nat_numeral)

text \<open>
  The A-leg identifier is the value of the first header line in wire order, among those whose
  full name is listed in \<open>aleg_ids\<close> (ignoring case), that has a non-empty value; later lines do not
  overwrite it. Compact (one-character) names and To are never considered.
\<close>

theorem XCallID_first:
  assumes "16 \<le> length data" and "Index data CRLFCRLF = Some i"
  shows "XCallID (ParseMsgZeroCopy data opts)
    = first_nonempty (map (aleg_value opts) (tl (header_lines (take (i + 2) data))))"
  by (simp add: ParseMsgZeroCopy_fold [OF assms] fold_lines_def XCallID_fold zc_frame
      acquireSipMsg_def split: list.split) (simp add: first_nonempty_def)

text \<open>
  The Call-ID of a message is the trimmed value of its last Call-ID header, in the full or the
  compact form and in any case, and empty when it has none.
\<close>

theorem CallID_last:
  assumes "16 \<le> length data" and "Index data CRLFCRLF = Some i"
  shows "CallID (ParseMsgZeroCopy data opts)
    = last_value (map callid_value (tl (header_lines (take (i + 2) data))))"
  by (simp add: ParseMsgZeroCopy_fold [OF assms] fold_lines_def CallID_fold zc_frame
      acquireSipMsg_def split: list.split) (simp add: last_value_def)


definition demo_msg :: bytes where
  "demo_msg = ''OPTIONS sip:bob@b.org SIP/2.0'' @ CRLF @ ''i: 7'' @ CRLF @ ''X-Leg: a1'' @ CRLF @
     ''x-leg: a2'' @ CRLF @ CRLF @ ''hi''"

lemmas zc_eval = crlf_defs header_split_def findByte_IndexByte zcTrimWS_def EqualFold_def
  ToLower_def lower_byte_def char_of_def bit_0 first_match_def aleg_value_def callid_value_def
  full_name_def first_nonempty_def last_value_def List.map_filter_def

lemma demo_index: "16 \<le> length demo_msg" "Index demo_msg CRLFCRLF = Some 57"
  by (simp_all add: demo_msg_def crlf_defs)

lemma demo_lines: "header_lines (take 59 demo_msg) =
  [''OPTIONS sip:bob@b.org SIP/2.0'', ''i: 7'', ''X-Leg: a1'', ''x-leg: a2'']"
  by (simp add: demo_msg_def crlf_defs header_lines.simps)

theorem ParseMsgZeroCopy_body_witness:
  "demo_msg = take 57 demo_msg @ CRLFCRLF @ sm_Body (ParseMsgZeroCopy demo_msg None)"
  using ParseMsgZeroCopy_body [OF demo_index, of None] by blast

theorem XCallID_first_witness:
  "XCallID (ParseMsgZeroCopy demo_msg (Some \<lparr>AlegIDs = [''x-leg''], CustomHeaders = []\<rparr>)) = ''a1''"
  using XCallID_first [OF demo_index, of "Some \<lparr>AlegIDs = [''x-leg''], CustomHeaders = []\<rparr>"]
  by (simp add: demo_lines zc_eval)

theorem CallID_last_witness: "CallID (ParseMsgZeroCopy demo_msg None) = ''7''"
  using CallID_last [OF demo_index, of None]
  by (simp add: demo_lines zc_eval)

subsection \<open>URIs and parameters\<close>

lemma cut_at_stop: "c \<notin> set a \<Longrightarrow> r = [] \<or> hd r = c \<Longrightarrow> cut_at (a @ r) c = a"
proof (cases r)
  case Nil
  assume "c \<notin> set a"
  then have "IndexByte a c = None" by simp
  with Nil show ?thesis by (simp add: cut_at_def findByte_IndexByte)
next
  case (Cons x r')
  assume "c \<notin> set a" "r = [] \<or> hd r = c"
  with Cons show ?thesis by (simp add: cut_at_def findByte_IndexByte IndexByte_append)
qed

lemma cut_at_id: "c \<notin> set a \<Longrightarrow> cut_at a c = a"
  using cut_at_stop [of c a "[]"] by simp

lemma cut_at_notin: "c \<notin> set (cut_at s c)"
proof (cases "IndexByte s c")
  case None
  then show ?thesis by (simp add: cut_at_def findByte_IndexByte)
next
  case (Some i)
  then show ?thesis using IndexByte_split(2) [OF Some] by (simp add: cut_at_def findByte_IndexByte)
qed

lemma set_cut_at: "set (cut_at s c) \<subseteq> set s"
  by (auto simp: cut_at_def dest: in_set_takeD split: option.splits)

lemma or20_letters:
  "or20 CHR ''s'' = CHR ''s''" "or20 CHR ''i'' = CHR ''i''" "or20 CHR ''p'' = CHR ''p''"
  "or20 CHR ''t'' = CHR ''t''" "or20 CHR ''e'' = CHR ''e''" "or20 CHR ''l'' = CHR ''l''"
  by (simp_all add: or20_lower lower_letter_def lower_byte_def)

datatype scheme = Sip | Sips | Tel

fun scheme_str :: "scheme \<Rightarrow> string" where
  "scheme_str Sip = ''sip:''" | "scheme_str Sips = ''sips:''" | "scheme_str Tel = ''tel:''"

lemma strip_scheme_str:
  "r \<noteq> [] \<Longrightarrow> strip_scheme (scheme_str sc @ r) = (r, sc = Tel)"
  by (cases sc; cases r) (auto simp: strip_scheme_def or20_letters)

text \<open>
  Reading back a URI: from \<open>scheme:user@host\<close>, with an optional port or parameters behind it,
  the extractor returns exactly the user and the host.
\<close>

theorem user_host_roundtrip:
  assumes "CHR ''@'' \<notin> set user" and "CHR '';'' \<notin> set user"
    and "CHR '';'' \<notin> set host" and "CHR '':'' \<notin> set host"
    and "tail = [] \<or> hd tail = CHR '':'' \<or> hd tail = CHR '';''"
  shows "zcExtractUserHost (scheme_str sc @ user @ ''@'' @ host @ tail) = (user, host)"
proof -
  let ?raw = "user @ ''@'' @ host @ tail"
  have at: "findByte ?raw (CHR ''@'') = Some (length user)"
    using assms(1) by (simp add: findByte_IndexByte IndexByte_append)
  have host: "cut_at (cut_at (host @ tail) (CHR '';'')) (CHR '':'') = host"
  proof (cases "tail \<noteq> [] \<and> hd tail = CHR '':''")
    case True
    then obtain t where t: "tail = CHR '':'' # t" by (cases tail) auto
    show ?thesis
    proof (cases "CHR '';'' \<in> set t")
      case False
      with assms t have "cut_at (host @ tail) (CHR '';'') = host @ tail"
        by (intro cut_at_id) auto
      with assms(4) t show ?thesis by (simp add: cut_at_stop)
    next
      case in_t: True
      then obtain a b where ab: "t = a @ CHR '';'' # b" "CHR '';'' \<notin> set a" by (metis split_list_first)
      with assms(3) t have "cut_at ((host @ CHR '':'' # a) @ CHR '';'' # b) (CHR '';'') = host @ CHR '':'' # a"
        by (intro cut_at_stop) auto
      with assms(4) t ab show ?thesis by (simp add: cut_at_stop)
    qed
  next
    case False
    with assms(3,5) have "cut_at (host @ tail) (CHR '';'') = host"
      by (intro cut_at_stop) auto
    with assms(4) show ?thesis by (simp add: cut_at_id)
  qed
  show ?thesis
    using at host assms(2)
    by (simp add: zcExtractUserHost_def strip_scheme_str cut_at_id)
qed

text \<open>
  Whatever the input, an extracted user contains neither \<open>@\<close> nor \<open>;\<close> and an extracted host
  neither \<open>;\<close> nor \<open>:\<close>.
\<close>

theorem user_host_delims:
  "zcExtractUserHost uri = (user, host) \<Longrightarrow>
     CHR '';'' \<notin> set user \<and> CHR '';'' \<notin> set host \<and> CHR '':'' \<notin> set host \<and> CHR ''@'' \<notin> set user"
proof -
  have sub: "CHR '';'' \<notin> set (cut_at (cut_at x (CHR '';'')) (CHR '':''))"
    "CHR '':'' \<notin> set (cut_at (cut_at x (CHR '';'')) (CHR '':''))" for x
    using cut_at_notin set_cut_at by blast+
  have at: "CHR ''@'' \<notin> set (cut_at (take p r) (CHR '';''))" if "IndexByte r (CHR ''@'') = Some p" for p r
    using IndexByte_split(2) [OF that] set_cut_at by blast
  have at': "CHR ''@'' \<notin> set (cut_at (cut_at r (CHR '';'')) (CHR '':''))" if "IndexByte r (CHR ''@'') = None" for r
    using that set_cut_at [of "cut_at r (CHR '';'')" "CHR '':''"] set_cut_at [of r "CHR '';''"] by auto
  assume "zcExtractUserHost uri = (user, host)"
  then show ?thesis
    using sub at at' cut_at_notin
    by (auto simp: zcExtractUserHost_def findByte_IndexByte Let_def split: prod.splits option.splits if_splits)
qed

lemma in_take_drop_for_find:
  assumes "c \<in> set (take (e - b) (drop b data))" and "e \<le> length data"
  shows "\<exists>k. b \<le> k \<and> k < e \<and> data ! k = c"
  using assms by (auto simp: in_set_conv_nth) (metis add.commute le_add1 less_diff_conv)

text \<open>
  A parameter value found by \<open>zcExtractParam\<close> really stands in the header behind \<open>;key\<close>, and
  stops before every delimiter.
\<close>

theorem extract_param_spec:
  assumes "zcExtractParam data key = Some v"
  shows "sublist (CHR '';'' # key @ v) data \<and> list_all (\<lambda>c. \<not> param_end c) v"
proof -
  let ?n = "length data" let ?k = "length key"
  let ?P = "\<lambda>i. data ! i = CHR '';'' \<and> i + 1 + ?k \<le> ?n \<and> match_at data key (i + 1)"
  from assms obtain i where f: "for_find ?P 0 (?n - ?k) = Some i"
    by (cases "for_find ?P 0 (?n - ?k)") (auto simp: zcExtractParam_def Let_def split: if_splits)
  with assms have v: "v = take ((case for_find (\<lambda>k. param_end (data ! k)) (i + 1 + ?k) ?n of
      None \<Rightarrow> ?n | Some k \<Rightarrow> k) - (i + 1 + ?k)) (drop (i + 1 + ?k) data)"
    by (simp add: zcExtractParam_def Let_def split: if_splits)
  from f have i: "data ! i = CHR '';''" "i + 1 + ?k \<le> ?n" "match_at data key (i + 1)"
    by (simp_all add: for_find_Some)
  define e where "e = (case for_find (\<lambda>k. param_end (data ! k)) (i + 1 + ?k) ?n of None \<Rightarrow> ?n | Some k \<Rightarrow> k)"
  have e: "e \<le> ?n" "\<forall>k. i + 1 + ?k \<le> k \<and> k < e \<longrightarrow> \<not> param_end (data ! k)"
    by (auto simp: e_def for_find_Some for_find_None split: option.splits)
  have ve: "v = take (e - (i + 1 + ?k)) (drop (i + 1 + ?k) data)"
    by (simp only: v e_def)
  have delims: "\<forall>c\<in>set v. \<not> param_end c"
  proof
    fix c assume "c \<in> set v"
    then obtain k where "i + 1 + ?k \<le> k" "k < e" "data ! k = c"
      using in_take_drop_for_find [of c e "i + 1 + ?k" data] e(1) ve by blast
    with e(2) show "\<not> param_end c" by blast
  qed
  from i have key: "prefix key (drop (i + 1) data)" by (simp add: match_at_prefix)
  then obtain r where r: "drop (i + 1) data = key @ r" by (auto simp: prefix_def)
  then have "r = drop (i + 1 + ?k) data" by (metis add.commute append_eq_conv_conj drop_drop)
  then have "r = v @ drop (e - (i + 1 + ?k)) r" using ve by (metis append_take_drop_id)
  with r have "data = take i data @ (CHR '';'' # key @ v) @ drop (e - (i + 1 + ?k)) r"
    using i(1,2) id_take_nth_drop [of i data] by simp
  then have "sublist (CHR '';'' # key @ v) data" unfolding sublist_def by blast
  with delims show ?thesis by (simp add: list_all_iff)
qed

theorem user_host_roundtrip_witness:
  "zcExtractUserHost (scheme_str Sips @ ''bob'' @ ''@'' @ ''b.org'' @ '':5060;x=1'') = (''bob'', ''b.org'')"
  using user_host_roundtrip [of "''bob''" "''b.org''" "'':5060;x=1''" Sips] by simp

lemma demo_user_host: "zcExtractUserHost ''sip:bob@b.org'' = (''bob'', ''b.org'')"
  by (simp add: zcExtractUserHost_def strip_scheme_def or20_letters cut_at_def findByte_IndexByte)

theorem user_host_delims_witness:
  "CHR '';'' \<notin> set ''bob'' \<and> CHR '';'' \<notin> set ''b.org'' \<and> CHR '':'' \<notin> set ''b.org'' \<and> CHR ''@'' \<notin> set ''bob''"
  by (rule user_host_delims [OF demo_user_host])

lemma demo_param: "zcExtractParam '';tag=9'' ''tag='' = Some ''9''"
proof -
  let ?d = "'';tag=9''"
  have "for_find (\<lambda>i. ?d ! i = CHR '';'' \<and> i + 1 + 4 \<le> 6 \<and> match_at ?d ''tag='' (i + 1)) 0 2 = Some 0"
    by (simp add: for_find_Some match_at_prefix)
  moreover have "for_find (\<lambda>k. param_end (?d ! k)) 5 6 = None"
    by (auto simp: for_find_None param_end_def crlf_defs)
  ultimately show ?thesis by (simp add: zcExtractParam_def Let_def eval_nat_numeral)
qed

theorem extract_param_spec_witness:
  "sublist (CHR '';'' # ''tag='' @ ''9'') '';tag=9'' \<and> list_all (\<lambda>c. \<not> param_end c) ''9''"
  by (rule extract_param_spec [OF demo_param])

end
