(* ===== verification/Hep_Types.thy ===== *)
theory Hep_Types
  imports Sip_Zerocopy
begin

text \<open>
  The data of the HEP decoder (src/decoder/decoder.go): the configuration \<open>DecoderConfig\<close>, the
  message \<open>HEP\<close> and the errors its parsers return. Times are nanoseconds since the Unix epoch.
  The two profiling counters and the Lua label map of \<open>HEP\<close> are left out: no modelled function
  reads them. \<open>h_decoder\<close> is the configuration of the decoder reference, \<open>None\<close> for a nil reference.
\<close>

record decoder_config =
  HepV2Enable :: bool
  HepV3Enable :: bool
  ProtobufEnable :: bool
  Deduplicate :: bool
  cfg_AlegIDs :: "string list"
  cfg_CustomHeaders :: "string list"
  ForceALegID :: bool
  CensorMethods :: "string list"
  DiscardMethods :: "string list"
  ForceHEPPayload :: "int list"

text \<open>
  Errors keep what their message prints of the packet. \<open>ErrChunkSize t want got\<close> is the message
  ``HEP chunkType t should be want byte long but is got''.
\<close>

datatype hep_error =
    ErrHepLength nat nat
  | ErrChunkShort nat
  | ErrChunkLength nat nat
  | ErrChunkSize nat nat nat
  | ErrIntOverflowHep
  | ErrUnexpectedEOF
  | ErrInvalidLengthHep
  | ErrWrongWireType nat string
  | ErrEndGroup
  | ErrIllegalTag int
  | ErrIllegalWireType nat
  | ErrRequiredNotSet string
  | ErrNotRecognized
  | ErrSip sip_error
  | ErrNoCSeq
  | ErrNoCallID

record hep =
  h_Version :: "32 word"
  h_Protocol :: "32 word"
  h_SrcIP :: string
  h_DstIP :: string
  h_SrcPort :: "32 word"
  h_DstPort :: "32 word"
  h_Tsec :: "32 word"
  h_Tmsec :: "32 word"
  h_ProtoType :: "32 word"
  h_NodeID :: "32 word"
  h_NodePW :: string
  h_Payload :: string
  h_CID :: string
  h_Vlan :: "32 word"
  h_ProtoString :: string
  h_Timestamp :: int
  h_SIP :: "sip_msg option"
  h_NodeName :: string
  h_TargetName :: string
  h_SID :: string
  h_ISUPBody :: "bytes option"
  h_decoder :: "decoder_config option"

text \<open>The zero value of \<open>time.Time\<close>: 1 January of year 1.\<close>

definition zero_time :: int where
  "zero_time = - 62135596800 * 10 ^ 9"

text \<open>\<open>acquireHEP\<close> (src/decoder/hep_pool.go): whatever the pool returns is overwritten by \<open>HEP{decoder: d}\<close>.\<close>

definition acquireHEP :: "decoder_config option \<Rightarrow> hep" where
  "acquireHEP d =
     \<lparr>h_Version = 0, h_Protocol = 0, h_SrcIP = [], h_DstIP = [], h_SrcPort = 0, h_DstPort = 0,
      h_Tsec = 0, h_Tmsec = 0, h_ProtoType = 0, h_NodeID = 0, h_NodePW = [], h_Payload = [],
      h_CID = [], h_Vlan = 0, h_ProtoString = [], h_Timestamp = zero_time, h_SIP = None,
      h_NodeName = [], h_TargetName = [], h_SID = [], h_ISUPBody = None, h_decoder = d\<rparr>"

end
