(* ===== verification/Hep_Proto.thy ===== *)
theory Hep_Proto
  imports Hep_Types
begin

unbundle bit_operations_syntax

text \<open>
  The protobuf form of a HEP message (src/decoder/hep.pb.go): \<open>Marshal\<close>, \<open>Unmarshal\<close> and the skipping
  of unknown fields. Go's \<open>int\<close> is a 64-bit signed number, so the cursor \<open>iNdEx\<close> is an \<open>int\<close> and the
  additions of a length read from the packet wrap (\<open>wrap64\<close>). The loops of \<open>skipHep\<close> and \<open>Unmarshal\<close>
  carry fuel; \<open>Unmarshal\<close> starts them with \<open>proto_fuel\<close>, and \<open>Unmarshal_terminates\<close> shows that this is
  always enough.
\<close>

definition wrap64 :: "int \<Rightarrow> int" where
  "wrap64 i = sint (word_of_int i :: 64 word)"

subsection \<open>Encoding\<close>

lemma unat_drop7: "unat (drop_bit 7 v) = unat v div 128" for v :: "64 word"
  by (subst unat_drop_bit_eq) (simp add: drop_bit_eq_div)

function encodeVarintHep :: "64 word \<Rightarrow> bytes" where
  "encodeVarintHep v =
     (if 128 \<le> v then byte_of (unat (v AND 127 OR 128)) # encodeVarintHep (drop_bit 7 v)
      else [byte_of (unat v)])"
  by pat_completeness auto
termination
  by (relation "measure unat") (auto simp: unat_drop7 word_le_nat_alt)

declare encodeVarintHep.simps [simp del]

function sovHep :: "64 word \<Rightarrow> nat" where
  "sovHep x = (if drop_bit 7 x = 0 then 1 else Suc (sovHep (drop_bit 7 x)))"
  by pat_completeness auto
termination
proof (relation "measure unat")
  fix x :: "64 word"
  assume "drop_bit 7 x \<noteq> 0"
  then have "unat x div 128 \<noteq> 0" by (metis unat_drop7 unat_eq_zero)
  then show "(drop_bit 7 x, x) \<in> measure unat" by (simp add: unat_drop7)
qed simp

declare sovHep.simps [simp del]

definition len64 :: "string \<Rightarrow> 64 word" where
  "len64 s = word_of_nat (length s)"

definition Size :: "hep \<Rightarrow> nat" where
  "Size m =
     (1 + sovHep (ucast (h_Version m))) + (1 + sovHep (ucast (h_Protocol m)))
     + (1 + length (h_SrcIP m) + sovHep (len64 (h_SrcIP m)))
     + (1 + length (h_DstIP m) + sovHep (len64 (h_DstIP m)))
     + (1 + sovHep (ucast (h_SrcPort m))) + (1 + sovHep (ucast (h_DstPort m)))
     + (1 + sovHep (ucast (h_Tsec m))) + (1 + sovHep (ucast (h_Tmsec m)))
     + (1 + sovHep (ucast (h_ProtoType m))) + (1 + sovHep (ucast (h_NodeID m)))
     + (1 + length (h_NodePW m) + sovHep (len64 (h_NodePW m)))
     + (1 + length (h_Payload m) + sovHep (len64 (h_Payload m)))
     + (1 + length (h_CID m) + sovHep (len64 (h_CID m)))
     + (1 + sovHep (ucast (h_Vlan m)))"

definition put_uint32 :: "nat \<Rightarrow> 32 word \<Rightarrow> bytes" where
  "put_uint32 tag v = byte_of tag # encodeVarintHep (ucast v)"

definition put_string :: "nat \<Rightarrow> string \<Rightarrow> bytes" where
  "put_string tag s = byte_of tag # encodeVarintHep (len64 s) @ s"

text \<open>The bytes that \<open>MarshalTo\<close> writes, in order.\<close>

definition MarshalTo :: "hep \<Rightarrow> bytes" where
  "MarshalTo m =
     put_uint32 0x08 (h_Version m) @ put_uint32 0x10 (h_Protocol m)
     @ put_string 0x1a (h_SrcIP m) @ put_string 0x22 (h_DstIP m)
     @ put_uint32 0x28 (h_SrcPort m) @ put_uint32 0x30 (h_DstPort m)
     @ put_uint32 0x38 (h_Tsec m) @ put_uint32 0x40 (h_Tmsec m)
     @ put_uint32 0x48 (h_ProtoType m) @ put_uint32 0x50 (h_NodeID m)
     @ put_string 0x5a (h_NodePW m) @ put_string 0x62 (h_Payload m)
     @ put_string 0x6a (h_CID m) @ put_uint32 0x70 (h_Vlan m)"

text \<open>Writing past the buffer of \<open>Size\<close> bytes would panic.\<close>

definition Marshal :: "hep \<Rightarrow> (hep_error, bytes) go_result" where
  "Marshal m = (if length (MarshalTo m) \<le> Size m then Returns (MarshalTo m) else Panics)"

subsection \<open>Reading varints\<close>

text \<open>
  The loop \<^verbatim>\<open>for shift := uint(0); ; shift += 7\<close> that every number is read with; the accumulator has
  the width of the field (\<open>uint32\<close>, \<open>uint64\<close>), and \<^term>\<open>mask 7\<close> is \<open>0x7F\<close>.
\<close>

function read_varint :: "bytes \<Rightarrow> int \<Rightarrow> nat \<Rightarrow> 'a::len word \<Rightarrow> (hep_error, int \<times> 'a word) go_result" where
  "read_varint d i shift acc =
     (if 64 \<le> shift then Fails ErrIntOverflowHep
      else if int (length d) \<le> i then Fails ErrUnexpectedEOF
      else if i < 0 then Panics
      else let b = d ! nat i; acc' = acc OR push_bit shift (word_of_nat (byte_val b) AND mask 7)
           in if byte_val b < 0x80 then Returns (i + 1, acc')
              else read_varint d (i + 1) (shift + 7) acc')"
  by pat_completeness auto
termination
  by (relation "measure (\<lambda>(d, i, shift, acc). 64 - shift)") auto

declare read_varint.simps [simp del]

subsection \<open>Skipping unknown fields\<close>

fun skipHep :: "nat \<Rightarrow> bytes \<Rightarrow> (hep_error, int) go_result option"
and skip_group :: "nat \<Rightarrow> bytes \<Rightarrow> int \<Rightarrow> (hep_error, int) go_result option" where
  "skipHep 0 d = None"
| "skipHep (Suc n) d =
     (if length d = 0 then Some Panics
      else case read_varint d 0 0 (0 :: 64 word) of
        Fails e \<Rightarrow> Some (Fails e)
      | Panics \<Rightarrow> Some Panics
      | Returns (i, wire) \<Rightarrow>
          let wireType = unat (wire AND 7)
          in if wireType = 0 then
               Some (go_bind (read_varint d i 0 (0 :: 64 word)) (\<lambda>(i', _). Returns i'))
             else if wireType = 1 then Some (Returns (wrap64 (i + 8)))
             else if wireType = 2 then
               Some (go_bind (read_varint d i 0 (0 :: 64 word))
                 (\<lambda>(i', len). if sint len < 0 then Fails ErrInvalidLengthHep
                               else Returns (wrap64 (i' + sint len))))
             else if wireType = 3 then skip_group n d i
             else if wireType = 4 then Some (Returns i)
             else if wireType = 5 then Some (Returns (wrap64 (i + 4)))
             else Some (Fails (ErrIllegalWireType wireType)))"
| "skip_group 0 d start = None"
| "skip_group (Suc n) d start =
     (case read_varint d start 0 (0 :: 64 word) of
        Fails e \<Rightarrow> Some (Fails e)
      | Panics \<Rightarrow> Some Panics
      | Returns (i, innerWire) \<Rightarrow>
          if unat (innerWire AND 7) = 4 then Some (Returns i)
          else case skipHep n (drop (nat start) d) of
            None \<Rightarrow> None
          | Some (Returns nx) \<Rightarrow> skip_group n d (wrap64 (start + nx))
          | Some r \<Rightarrow> Some r)"

subsection \<open>Unmarshal\<close>

definition field_uint32 ::
  "string \<Rightarrow> (32 word \<Rightarrow> hep \<Rightarrow> hep) \<Rightarrow> bytes \<Rightarrow> int \<Rightarrow> nat \<Rightarrow> hep \<Rightarrow> (hep_error, int \<times> hep) go_result" where
  "field_uint32 name upd d i wireType m =
     (if wireType \<noteq> 0 then Fails (ErrWrongWireType wireType name)
      else go_bind (read_varint d i 0 0) (\<lambda>(i', v). Returns (i', upd v m)))"

definition field_string ::
  "string \<Rightarrow> (string \<Rightarrow> hep \<Rightarrow> hep) \<Rightarrow> bytes \<Rightarrow> int \<Rightarrow> nat \<Rightarrow> hep \<Rightarrow> (hep_error, int \<times> hep) go_result" where
  "field_string name upd d i wireType m =
     (if wireType \<noteq> 2 then Fails (ErrWrongWireType wireType name)
      else go_bind (read_varint d i 0 (0 :: 64 word))
        (\<lambda>(i', stringLen).
           let intStringLen = sint stringLen; postIndex = wrap64 (i' + intStringLen)
           in if intStringLen < 0 then Fails ErrInvalidLengthHep
              else if int (length d) < postIndex then Fails ErrUnexpectedEOF
              else if postIndex < i' then Panics
              else Returns (postIndex, upd (take (nat (postIndex - i')) (drop (nat i') d)) m)))"

text \<open>The \<open>switch fieldNum\<close> of \<open>Unmarshal\<close>, in three parts; it runs for the numbers 1 to 14.\<close>

definition unmarshal_head :: "bytes \<Rightarrow> int \<Rightarrow> int \<Rightarrow> nat \<Rightarrow> hep \<Rightarrow> (hep_error, int \<times> hep) go_result" where
  "unmarshal_head d i fieldNum wireType m =
     (if fieldNum = 1 then field_uint32 ''Version'' (\<lambda>v. h_Version_update (\<lambda>_. v)) d i wireType m
      else if fieldNum = 2 then field_uint32 ''Protocol'' (\<lambda>v. h_Protocol_update (\<lambda>_. v)) d i wireType m
      else if fieldNum = 3 then field_string ''SrcIP'' (\<lambda>v. h_SrcIP_update (\<lambda>_. v)) d i wireType m
      else if fieldNum = 4 then field_string ''DstIP'' (\<lambda>v. h_DstIP_update (\<lambda>_. v)) d i wireType m
      else if fieldNum = 5 then field_uint32 ''SrcPort'' (\<lambda>v. h_SrcPort_update (\<lambda>_. v)) d i wireType m
      else field_uint32 ''DstPort'' (\<lambda>v. h_DstPort_update (\<lambda>_. v)) d i wireType m)"

definition unmarshal_mid :: "bytes \<Rightarrow> int \<Rightarrow> int \<Rightarrow> nat \<Rightarrow> hep \<Rightarrow> (hep_error, int \<times> hep) go_result" where
  "unmarshal_mid d i fieldNum wireType m =
     (if fieldNum = 7 then field_uint32 ''Tsec'' (\<lambda>v. h_Tsec_update (\<lambda>_. v)) d i wireType m
      else if fieldNum = 8 then field_uint32 ''Tmsec'' (\<lambda>v. h_Tmsec_update (\<lambda>_. v)) d i wireType m
      else if fieldNum = 9 then field_uint32 ''ProtoType'' (\<lambda>v. h_ProtoType_update (\<lambda>_. v)) d i wireType m
      else if fieldNum = 10 then field_uint32 ''NodeID'' (\<lambda>v. h_NodeID_update (\<lambda>_. v)) d i wireType m
      else field_string ''NodePW'' (\<lambda>v. h_NodePW_update (\<lambda>_. v)) d i wireType m)"

definition unmarshal_tail :: "bytes \<Rightarrow> int \<Rightarrow> int \<Rightarrow> nat \<Rightarrow> hep \<Rightarrow> (hep_error, int \<times> hep) go_result" where
  "unmarshal_tail d i fieldNum wireType m =
     (if fieldNum = 12 then field_string ''Payload'' (\<lambda>v. h_Payload_update (\<lambda>_. v)) d i wireType m
      else if fieldNum = 13 then field_string ''CID'' (\<lambda>v. h_CID_update (\<lambda>_. v)) d i wireType m
      else field_uint32 ''Vlan'' (\<lambda>v. h_Vlan_update (\<lambda>_. v)) d i wireType m)"

definition unmarshal_field :: "bytes \<Rightarrow> int \<Rightarrow> int \<Rightarrow> nat \<Rightarrow> hep \<Rightarrow> (hep_error, int \<times> hep) go_result" where
  "unmarshal_field d i fieldNum wireType m =
     (if fieldNum \<le> 6 then unmarshal_head d i fieldNum wireType m
      else if fieldNum \<le> 11 then unmarshal_mid d i fieldNum wireType m
      else unmarshal_tail d i fieldNum wireType m)"

lemmas unmarshal_field_defs = unmarshal_field_def unmarshal_head_def unmarshal_mid_def unmarshal_tail_def

definition proto_fuel :: "bytes \<Rightarrow> nat" where
  "proto_fuel d = 2 * length d + 2"

text \<open>\<open>default:\<close> skip the field from its tag on.\<close>

definition skip_unknown :: "bytes \<Rightarrow> int \<Rightarrow> (hep_error, int) go_result option" where
  "skip_unknown d preIndex =
     (case skipHep (proto_fuel d) (drop (nat preIndex) d) of
        None \<Rightarrow> None
      | Some r \<Rightarrow>
          Some (go_bind r (\<lambda>skippy.
            if skippy < 0 then Fails ErrInvalidLengthHep
            else if int (length d) < wrap64 (preIndex + skippy) then Fails ErrUnexpectedEOF
            else Returns (wrap64 (preIndex + skippy)))))"

fun Unmarshal_loop :: "nat \<Rightarrow> bytes \<Rightarrow> int \<Rightarrow> 64 word \<Rightarrow> hep \<Rightarrow> (hep_error, int \<times> 64 word \<times> hep) go_result option" where
  "Unmarshal_loop 0 d i has m = None"
| "Unmarshal_loop (Suc n) d i has m =
     (if int (length d) \<le> i then Some (Returns (i, has, m))
      else case read_varint d i 0 (0 :: 64 word) of
        Fails e \<Rightarrow> Some (Fails e)
      | Panics \<Rightarrow> Some Panics
      | Returns (i1, wire) \<Rightarrow>
          let fieldNum = sint (ucast (drop_bit 3 wire) :: 32 word); wireType = unat (wire AND 7)
          in if wireType = 4 then Some (Fails ErrEndGroup)
             else if fieldNum \<le> 0 then Some (Fails (ErrIllegalTag fieldNum))
             else if fieldNum \<le> 14 then
               (case unmarshal_field d i1 fieldNum wireType m of
                  Fails e \<Rightarrow> Some (Fails e)
                | Panics \<Rightarrow> Some Panics
                | Returns (i2, m') \<Rightarrow>
                    Unmarshal_loop n d i2 (has OR push_bit (nat (fieldNum - 1)) 1) m')
             else
               (case skip_unknown d i of
                  None \<Rightarrow> None
                | Some (Fails e) \<Rightarrow> Some (Fails e)
                | Some Panics \<Rightarrow> Some Panics
                | Some (Returns i2) \<Rightarrow> Unmarshal_loop n d i2 has m))"

definition required_names :: "string list" where
  "required_names =
     [''Version'', ''Protocol'', ''SrcIP'', ''DstIP'', ''SrcPort'', ''DstPort'', ''Tsec'', ''Tmsec'',
      ''ProtoType'', ''NodeID'', ''NodePW'', ''Payload'', ''CID'', ''Vlan'']"

text \<open>The first required field, in order, whose bit of \<open>hasFields[0]\<close> is not set.\<close>

definition missing_field :: "64 word \<Rightarrow> string option" where
  "missing_field has = map_option ((!) required_names) (find (\<lambda>k. has AND push_bit k 1 = 0) [0..<14])"

definition Unmarshal :: "hep \<Rightarrow> bytes \<Rightarrow> (hep_error, hep) go_result option" where
  "Unmarshal m d =
     (case Unmarshal_loop (proto_fuel d) d 0 0 m of
        None \<Rightarrow> None
      | Some r \<Rightarrow>
          Some (go_bind r (\<lambda>(i, has, m').
            case missing_field has of
              Some name \<Rightarrow> Fails (ErrRequiredNotSet name)
            | None \<Rightarrow> if int (length d) < i then Fails ErrUnexpectedEOF else Returns m')))"

subsection \<open>Varints\<close>

lemma length_encodeVarintHep: "length (encodeVarintHep v) = sovHep v"
proof (induction v rule: encodeVarintHep.induct)
  case (1 v)
  have "drop_bit 7 v = 0 \<longleftrightarrow> unat v div 128 = 0" by (metis unat_drop7 unat_eq_zero)
  then have "drop_bit 7 v = 0 \<longleftrightarrow> \<not> 128 \<le> v" by (simp add: word_le_nat_alt div_eq_0_iff not_le)
  with 1 show ?case by (simp add: encodeVarintHep.simps [of v] sovHep.simps [of v])
qed

lemma bits7: "push_bit s (ucast v AND mask 7) OR push_bit (s + 7) (ucast (drop_bit 7 v)) =
    (push_bit s (ucast v) :: 'a::len word)" for v :: "64 word"
proof (rule bit_eqI)
  fix n
  have "7 + (n - (s + 7)) = n - s" if "\<not> n - s < 7" using that by linarith
  then show "bit (push_bit s (ucast v AND mask 7) OR push_bit (s + 7) (ucast (drop_bit 7 v)) :: 'a word) n =
      bit (push_bit s (ucast v) :: 'a word) n"
    by (cases "n - s < 7") (auto simp: bit_simps add.commute)
qed

lemma low7_consts: "127 = (mask 7 :: 64 word)" "128 = (2 ^ 7 :: 64 word)"
  by (simp_all add: mask_eq_exp_minus_1)

lemma bit_low7: "bit (127 :: 64 word) n \<longleftrightarrow> n < 7" "bit (128 :: 64 word) n \<longleftrightarrow> n = 7"
  unfolding low7_consts by (auto simp only: bit_mask_iff bit_exp_iff possible_bit_word) simp_all

lemma unat_low7: "unat (v AND 127 OR 128) = unat v mod 128 + 128" for v :: "64 word"
proof -
  have m: "unat (v AND 127) = unat v mod 128"
    by (simp add: low7_consts(1) take_bit_eq_mask [symmetric] unsigned_take_bit_eq take_bit_eq_mod unat_mod)
  have "v AND 127 OR 128 = (v AND 127) + 128"
    by (rule disjunctive_add [symmetric]) (auto simp: bit_and_iff bit_low7 simp del: bit_numeral_word_iff)
  with m show ?thesis by (simp add: unat_word_ariths)
qed

lemma read_varint_encode:
  fixes acc :: "'a::len word"
  assumes "unat v < 2 ^ (64 - shift)" and "shift < 64"
  shows "read_varint (pre @ encodeVarintHep v @ suf) (int (length pre)) shift acc =
    Returns (int (length pre + sovHep v), acc OR push_bit shift (ucast v))"
  using assms
proof (induction v arbitrary: pre shift acc rule: encodeVarintHep.induct)
  case (1 v)
  show ?case
  proof (cases "128 \<le> v")
    case False
    then have v: "unat v < 128" by (simp add: word_le_nat_alt not_le)
    then have z: "drop_bit 7 v = 0" by (metis unat_drop7 unat_eq_zero div_less)
    then have "word_of_nat (unat v) AND mask 7 = (ucast v :: 'a word)"
      using bits7 [of 0 v, where ?'a = 'a] by (simp add: of_nat_unat)
    with v z False 1 show ?thesis
      by (simp add: encodeVarintHep.simps [of v] sovHep.simps [of v] read_varint.simps of_char_of nth_append
          del: push_bit_and)
  next
    case True
    let ?b = "byte_of (unat (v AND 127 OR 128))" and ?w = "drop_bit 7 v"
    have b: "byte_val ?b = unat (v AND 127 OR 128)" "\<not> byte_val ?b < 0x80"
      by (simp_all add: unat_low7 of_char_of)
    have low: "(word_of_nat (unat (v AND 127 OR 128)) AND mask 7 :: 'a word) = ucast v AND mask 7"
      by (rule bit_eqI) (auto simp: of_nat_unat bit_simps bit_low7 simp del: bit_numeral_word_iff)
    have big: "2 ^ 7 \<le> unat v" using True by (simp add: word_le_nat_alt)
    then have "(2 :: nat) ^ 7 < 2 ^ (64 - shift)" using 1(2) by linarith
    then have "7 < 64 - shift" by (rule power_less_imp_less_exp [rotated]) simp
    then have sh: "shift + 7 < 64" by simp
    then have "64 - shift = (64 - (shift + 7)) + 7" by simp
    then have "(2 :: nat) ^ (64 - shift) = 2 ^ (64 - (shift + 7)) * 2 ^ 7" by (metis power_add)
    then have "unat ?w < 2 ^ (64 - (shift + 7))"
      using 1(2) by (simp add: unat_drop7 less_mult_imp_div_less)
    from "1.IH" [OF True this sh, of "pre @ [?b]"]
    have rec: "read_varint (pre @ ?b # encodeVarintHep ?w @ suf) (int (length pre) + 1) (shift + 7) acc' =
        Returns (int (length pre + Suc (sovHep ?w)), acc' OR push_bit (shift + 7) (ucast ?w))" for acc' :: "'a word"
      by (simp add: algebra_simps)
    have "unat ?w \<noteq> 0" using big by (simp add: unat_drop7)
    then have nz: "?w \<noteq> 0" by auto
    have "read_varint (pre @ encodeVarintHep v @ suf) (int (length pre)) shift acc =
        Returns (int (length pre + sovHep v),
          (acc OR push_bit shift (ucast v AND mask 7)) OR push_bit (shift + 7) (ucast ?w))"
      using True sh nz rec b low
      by (simp add: encodeVarintHep.simps [of v] sovHep.simps [of v]
          read_varint.simps [of _ "int (length pre)"] nth_append Let_def del: push_bit_and)
    then show ?thesis by (simp only: or.assoc bits7)
  qed
qed

subsection \<open>One field of a message\<close>

text \<open>\<open>unm n pre suf\<close>: the loop of \<open>Unmarshal\<close> with the cursor between \<open>pre\<close> and \<open>suf\<close>.\<close>

definition unm :: "nat \<Rightarrow> bytes \<Rightarrow> bytes \<Rightarrow> 64 word \<Rightarrow> hep \<Rightarrow> (hep_error, int \<times> 64 word \<times> hep) go_result option" where
  "unm n pre suf has m = Unmarshal_loop n (pre @ suf) (int (length pre)) has m"

lemma read_tag:
  assumes "tag < 128"
  shows "read_varint (pre @ byte_of tag # suf) (int (length pre)) 0 (0 :: 64 word) =
    Returns (int (length pre) + 1, word_of_nat tag)"
proof -
  let ?v = "word_of_nat tag :: 64 word"
  have u: "unat ?v = tag" using assms by (simp add: unat_of_nat)
  then have e: "encodeVarintHep ?v = [byte_of tag]"
    using assms by (simp add: encodeVarintHep.simps word_le_nat_alt)
  then have "sovHep ?v = 1" by (metis length_encodeVarintHep length_Cons list.size(3) One_nat_def)
  with e u assms show ?thesis
    using read_varint_encode [of ?v 0 pre suf "0 :: 64 word"] by simp
qed

lemma sint32_of_nat: "k < 2 ^ 31 \<Longrightarrow> sint (word_of_nat k :: 32 word) = int k"
  by (simp add: signed_of_nat signed_take_bit_int_eq_self)

lemma sint64_of_nat: "k < 2 ^ 63 \<Longrightarrow> sint (word_of_nat k :: 64 word) = int k"
  by (simp add: signed_of_nat signed_take_bit_int_eq_self)

lemma wrap64_id: "- (2 ^ 63) \<le> i \<Longrightarrow> i < 2 ^ 63 \<Longrightarrow> wrap64 i = i"
  by (simp add: wrap64_def signed_of_int signed_take_bit_int_eq_self)

text \<open>A tag byte decodes to its field number and wire type.\<close>

lemma tag_parts:
  assumes "tag < 128"
  shows "sint (ucast (drop_bit 3 (word_of_nat tag :: 64 word)) :: 32 word) = int (tag div 8)"
    and "unat ((word_of_nat tag :: 64 word) AND 7) = tag mod 8"
proof -
  let ?v = "word_of_nat tag :: 64 word"
  have u: "unat ?v = tag" using assms by (simp add: unat_of_nat)
  have "unat (drop_bit 3 ?v) = tag div 8"
    by (subst unat_drop_bit_eq) (simp add: u drop_bit_eq_div)
  then have "drop_bit 3 ?v = word_of_nat (tag div 8)" by (metis of_nat_unat ucast_id)
  moreover have "int (tag div 8) < 16" using assms by simp
  ultimately show "sint (ucast (drop_bit 3 ?v) :: 32 word) = int (tag div 8)"
    by (simp add: unsigned_of_nat sint32_of_nat take_bit_nat_eq_self)
  have "?v AND 7 = take_bit 3 ?v" by (simp add: take_bit_eq_mask mask_eq_exp_minus_1)
  then show "unat (?v AND 7) = tag mod 8"
    by (simp only: unsigned_take_bit_eq u) (simp add: take_bit_eq_mod)
qed

lemma unm_step:
  assumes "tag < 128" and "0 < tag div 8" and "tag div 8 \<le> 14" and "tag mod 8 \<noteq> 4"
    and "unmarshal_field (pre @ byte_of tag # suf @ r) (int (length pre) + 1) (int (tag div 8)) (tag mod 8) m =
      Returns (int (length pre + 1 + length suf), m')"
  shows "unm (Suc n) pre ((byte_of tag # suf) @ r) has m =
    unm n (pre @ byte_of tag # suf) r (has OR push_bit (tag div 8 - 1) 1) m'"
proof -
  have "nat (int (tag div 8) - 1) = tag div 8 - 1" by simp
  with assms show ?thesis
    by (simp add: unm_def read_tag tag_parts Let_def)
qed

lemma field_uint32_put:
  "field_uint32 name upd (pre @ byte_of tag # encodeVarintHep (ucast v) @ r) (int (length pre) + 1) 0 m =
    Returns (int (length pre + 1 + length (encodeVarintHep (ucast v))), upd v m)" for v :: "32 word"
proof -
  have lt: "unat (ucast v :: 64 word) < 2 ^ (64 - 0)" by (rule less_le_trans [OF unsigned_less]) simp
  have "ucast (ucast v :: 64 word) = v" by (rule bit_eqI) (auto simp: bit_simps)
  with read_varint_encode [OF lt, of "pre @ [byte_of tag]" r "0 :: 32 word"]
  have "read_varint (pre @ byte_of tag # encodeVarintHep (ucast v) @ r) (int (length pre) + 1) 0 (0 :: 32 word) =
      Returns (int (length pre + 1 + sovHep (ucast v)), v)"
    by (simp add: algebra_simps)
  then show ?thesis
    by (simp add: field_uint32_def length_encodeVarintHep)
qed

lemma field_string_put:
  assumes "length (pre @ byte_of tag # (encodeVarintHep (len64 s) @ s) @ r) < 2 ^ 62"
  shows "field_string name upd (pre @ byte_of tag # (encodeVarintHep (len64 s) @ s) @ r) (int (length pre) + 1) 2 m =
    Returns (int (length pre + 1 + length (encodeVarintHep (len64 s) @ s)), upd s m)"
proof -
  define k where "k = length pre + 1 + sovHep (len64 s)"
  have "unat (len64 s) < 2 ^ (64 - 0)" by (rule less_le_trans [OF unsigned_less]) simp
  from read_varint_encode [OF this, of "pre @ [byte_of tag]" "s @ r" "0 :: 64 word"]
  have rd: "read_varint (pre @ byte_of tag # encodeVarintHep (len64 s) @ s @ r) (int (length pre) + 1) 0 (0 :: 64 word) =
      Returns (int k, len64 s)"
    by (simp add: k_def algebra_simps)
  have len: "sint (len64 s) = int (length s)" and post: "wrap64 (int k + int (length s)) = int k + int (length s)"
    using assms by (simp_all add: k_def len64_def sint64_of_nat wrap64_id length_encodeVarintHep)
  have "drop k (pre @ byte_of tag # encodeVarintHep (len64 s) @ s @ r) = s @ r"
    by (simp add: k_def length_encodeVarintHep [symmetric])
  moreover have "length (pre @ byte_of tag # encodeVarintHep (len64 s) @ s @ r) = k + length s + length r"
    by (simp add: k_def length_encodeVarintHep)
  ultimately have "field_string name upd (pre @ byte_of tag # encodeVarintHep (len64 s) @ s @ r) (int (length pre) + 1) 2 m =
      Returns (int k + int (length s), upd s m)"
    using rd len post by (simp add: field_string_def Let_def del: drop_append length_append)
  then show ?thesis by (simp add: k_def length_encodeVarintHep)
qed

subsection \<open>Round trip\<close>

lemma unm_uint32:
  assumes "0 < f" and "f \<le> 14" and "\<And>d i w m. unmarshal_field d i (int f) w m = field_uint32 name upd d i w m"
  shows "unm (Suc n) pre (put_uint32 (8 * f) v @ r) has m =
    unm n (pre @ put_uint32 (8 * f) v) r (has OR push_bit (f - 1) 1) (upd v m)"
  unfolding put_uint32_def
  using assms unm_step [of "8 * f" pre "encodeVarintHep (ucast v)" r m "upd v m"]
  by (simp add: field_uint32_put)

lemma unm_string:
  assumes "0 < f" and "f \<le> 14" and "tag < 128" and "tag div 8 = f" and "tag mod 8 = 2"
    and "\<And>d i w m. unmarshal_field d i (int f) w m = field_string name upd d i w m"
    and "length pre + length (put_string tag v) + length r < 2 ^ 62"
  shows "unm (Suc n) pre (put_string tag v @ r) has m =
    unm n (pre @ put_string tag v) r (has OR push_bit (f - 1) 1) (upd v m)"
  unfolding put_string_def
  using assms unm_step [of tag pre "encodeVarintHep (len64 v) @ v" r m "upd v m"]
    field_string_put [of pre tag v r]
  by (simp add: put_string_def)

lemma unm_fields:
  "unm (Suc n) pre (put_uint32 8 v @ r) has m = unm n (pre @ put_uint32 8 v) r (has OR 1) (m\<lparr>h_Version := v\<rparr>)"
  "unm (Suc n) pre (put_uint32 16 v @ r) has m = unm n (pre @ put_uint32 16 v) r (has OR 2) (m\<lparr>h_Protocol := v\<rparr>)"
  "length pre + length (put_string 26 s) + length r < 2 ^ 62 \<Longrightarrow>
    unm (Suc n) pre (put_string 26 s @ r) has m = unm n (pre @ put_string 26 s) r (has OR 4) (m\<lparr>h_SrcIP := s\<rparr>)"
  "length pre + length (put_string 34 s) + length r < 2 ^ 62 \<Longrightarrow>
    unm (Suc n) pre (put_string 34 s @ r) has m = unm n (pre @ put_string 34 s) r (has OR 8) (m\<lparr>h_DstIP := s\<rparr>)"
  "unm (Suc n) pre (put_uint32 40 v @ r) has m = unm n (pre @ put_uint32 40 v) r (has OR 16) (m\<lparr>h_SrcPort := v\<rparr>)"
  "unm (Suc n) pre (put_uint32 48 v @ r) has m = unm n (pre @ put_uint32 48 v) r (has OR 32) (m\<lparr>h_DstPort := v\<rparr>)"
  "unm (Suc n) pre (put_uint32 56 v @ r) has m = unm n (pre @ put_uint32 56 v) r (has OR 64) (m\<lparr>h_Tsec := v\<rparr>)"
  "unm (Suc n) pre (put_uint32 64 v @ r) has m = unm n (pre @ put_uint32 64 v) r (has OR 128) (m\<lparr>h_Tmsec := v\<rparr>)"
  "unm (Suc n) pre (put_uint32 72 v @ r) has m = unm n (pre @ put_uint32 72 v) r (has OR 256) (m\<lparr>h_ProtoType := v\<rparr>)"
  "unm (Suc n) pre (put_uint32 80 v @ r) has m = unm n (pre @ put_uint32 80 v) r (has OR 512) (m\<lparr>h_NodeID := v\<rparr>)"
  "length pre + length (put_string 90 s) + length r < 2 ^ 62 \<Longrightarrow>
    unm (Suc n) pre (put_string 90 s @ r) has m = unm n (pre @ put_string 90 s) r (has OR 1024) (m\<lparr>h_NodePW := s\<rparr>)"
  "length pre + length (put_string 98 s) + length r < 2 ^ 62 \<Longrightarrow>
    unm (Suc n) pre (put_string 98 s @ r) has m = unm n (pre @ put_string 98 s) r (has OR 2048) (m\<lparr>h_Payload := s\<rparr>)"
  "length pre + length (put_string 106 s) + length r < 2 ^ 62 \<Longrightarrow>
    unm (Suc n) pre (put_string 106 s @ r) has m = unm n (pre @ put_string 106 s) r (has OR 4096) (m\<lparr>h_CID := s\<rparr>)"
  "unm (Suc n) pre (put_uint32 112 v @ r) has m = unm n (pre @ put_uint32 112 v) r (has OR 8192) (m\<lparr>h_Vlan := v\<rparr>)"
  subgoal using unm_uint32 [of 1 "''Version''" "\<lambda>v. h_Version_update (\<lambda>_. v)" ] by (simp add: unmarshal_field_defs)
  subgoal using unm_uint32 [of 2 "''Protocol''" "\<lambda>v. h_Protocol_update (\<lambda>_. v)" ] by (simp add: unmarshal_field_defs)
  subgoal using unm_string [of 3 26 "''SrcIP''" "\<lambda>v. h_SrcIP_update (\<lambda>_. v)" pre s r] by (simp add: unmarshal_field_defs)
  subgoal using unm_string [of 4 34 "''DstIP''" "\<lambda>v. h_DstIP_update (\<lambda>_. v)" pre s r] by (simp add: unmarshal_field_defs)
  subgoal using unm_uint32 [of 5 "''SrcPort''" "\<lambda>v. h_SrcPort_update (\<lambda>_. v)" ] by (simp add: unmarshal_field_defs)
  subgoal using unm_uint32 [of 6 "''DstPort''" "\<lambda>v. h_DstPort_update (\<lambda>_. v)" ] by (simp add: unmarshal_field_defs)
  subgoal using unm_uint32 [of 7 "''Tsec''" "\<lambda>v. h_Tsec_update (\<lambda>_. v)" ] by (simp add: unmarshal_field_defs)
  subgoal using unm_uint32 [of 8 "''Tmsec''" "\<lambda>v. h_Tmsec_update (\<lambda>_. v)" ] by (simp add: unmarshal_field_defs)
  subgoal using unm_uint32 [of 9 "''ProtoType''" "\<lambda>v. h_ProtoType_update (\<lambda>_. v)" ] by (simp add: unmarshal_field_defs)
  subgoal using unm_uint32 [of 10 "''NodeID''" "\<lambda>v. h_NodeID_update (\<lambda>_. v)" ] by (simp add: unmarshal_field_defs)
  subgoal using unm_string [of 11 90 "''NodePW''" "\<lambda>v. h_NodePW_update (\<lambda>_. v)" pre s r] by (simp add: unmarshal_field_defs)
  subgoal using unm_string [of 12 98 "''Payload''" "\<lambda>v. h_Payload_update (\<lambda>_. v)" pre s r] by (simp add: unmarshal_field_defs)
  subgoal using unm_string [of 13 106 "''CID''" "\<lambda>v. h_CID_update (\<lambda>_. v)" pre s r] by (simp add: unmarshal_field_defs)
  subgoal using unm_uint32 [of 14 "''Vlan''" "\<lambda>v. h_Vlan_update (\<lambda>_. v)" ] by (simp add: unmarshal_field_defs)
  done

definition copy_wire_fields :: "hep \<Rightarrow> hep \<Rightarrow> hep" where
  "copy_wire_fields m m0 = m0\<lparr>h_Version := h_Version m, h_Protocol := h_Protocol m, h_SrcIP := h_SrcIP m, h_DstIP := h_DstIP m, h_SrcPort := h_SrcPort m,
     h_DstPort := h_DstPort m, h_Tsec := h_Tsec m, h_Tmsec := h_Tmsec m, h_ProtoType := h_ProtoType m, h_NodeID := h_NodeID m,
     h_NodePW := h_NodePW m, h_Payload := h_Payload m, h_CID := h_CID m, h_Vlan := h_Vlan m\<rparr>"

lemma length_MarshalTo: "length (MarshalTo m) = Size m"
  by (simp add: MarshalTo_def Size_def put_uint32_def put_string_def length_encodeVarintHep)

lemma put_uint32_not_Nil: "put_uint32 tag v \<noteq> []"
  by (simp add: put_uint32_def)

lemma unm_last:
  "unm (Suc n) pre (put_uint32 112 v) has m = unm n (pre @ put_uint32 112 v) [] (has OR 8192) (m\<lparr>h_Vlan := v\<rparr>)"
  using unm_fields(14) [of n pre v "[]" has m] by simp

lemma unm_MarshalTo:
  assumes "length (MarshalTo m) < 2 ^ 62"
  shows "unm (n + 14) [] (MarshalTo m) 0 m0 = unm n (MarshalTo m) [] 0x3FFF (copy_wire_fields m m0)"
proof -
  have "n + 14 = Suc (Suc (Suc (Suc (Suc (Suc (Suc (Suc (Suc (Suc (Suc (Suc (Suc (Suc n)))))))))))))" by simp
  then show ?thesis
    using assms unfolding MarshalTo_def copy_wire_fields_def
    by (simp only:) (simp add: unm_fields unm_last)
qed

text \<open>
  C26. Protobuf round trip: \<open>Marshal\<close> never overruns the buffer that \<open>Size\<close> computed and writes
  exactly that many bytes, and \<open>Unmarshal\<close> of the result succeeds and restores all fourteen wire fields.
\<close>

theorem Marshal_Unmarshal:
  assumes "Size m < 2 ^ 62"
  shows "Marshal m = Returns (MarshalTo m) \<and> length (MarshalTo m) = Size m \<and>
    Unmarshal m0 (MarshalTo m) = Some (Returns (copy_wire_fields m m0))"
proof -
  have len: "length (MarshalTo m) < 2 ^ 62" using assms by (simp add: length_MarshalTo)
  obtain k where k: "proto_fuel (MarshalTo m) = Suc k + 14"
  proof
    have "13 \<le> length (MarshalTo m)" by (simp add: MarshalTo_def put_uint32_def put_string_def)
    then show "proto_fuel (MarshalTo m) = Suc (proto_fuel (MarshalTo m) - 15) + 14"
      by (simp add: proto_fuel_def)
  qed
  have "Unmarshal_loop (proto_fuel (MarshalTo m)) (MarshalTo m) 0 0 m0 =
      Some (Returns (int (length (MarshalTo m)), 0x3FFF, copy_wire_fields m m0))"
    using unm_MarshalTo [OF len, of "Suc k" m0] by (simp add: k unm_def)
  moreover have "missing_field 0x3FFF = None"
    by (simp add: missing_field_def upt_rec)
  ultimately show ?thesis
    by (simp add: Marshal_def length_MarshalTo Unmarshal_def)
qed

theorem Marshal_Unmarshal_witness:
  "Unmarshal (acquireHEP None) (MarshalTo ((acquireHEP None)\<lparr>h_Version := 10, h_SrcIP := ''::1'', h_Vlan := 300\<rparr>)) =
     Some (Returns ((acquireHEP None)\<lparr>h_Version := 10, h_SrcIP := ''::1'', h_Vlan := 300\<rparr>))"
proof -
  let ?m = "(acquireHEP None)\<lparr>h_Version := 10, h_SrcIP := ''::1'', h_Vlan := 300\<rparr>"
  have "Size ?m < 2 ^ 62"
    by (simp add: Size_def acquireHEP_def sovHep.simps len64_def)
  from Marshal_Unmarshal [OF this, of "acquireHEP None"] show ?thesis
    by (simp add: copy_wire_fields_def acquireHEP_def)
qed

subsection \<open>Termination\<close>

lemma read_varint_bounds:
  "read_varint d i shift acc = Returns (i', v) \<Longrightarrow> 0 \<le> i \<and> i < i' \<and> i' \<le> int (length d)"
proof (induction d i shift acc rule: read_varint.induct)
  case (1 d i shift acc)
  from "1.prems" have g: "shift < 64" "i < int (length d)" "0 \<le> i"
    by (subst (asm) read_varint.simps, simp split: if_splits)+
  show ?case
  proof (cases "byte_val (d ! nat i) < 0x80")
    case True
    with g "1.prems" show ?thesis by (simp add: read_varint.simps [of d i] Let_def)
  next
    case False
    with g "1.prems" have "read_varint d (i + 1) (shift + 7)
        (acc OR push_bit shift (word_of_nat (byte_val (d ! nat i)) AND mask 7)) = Returns (i', v)"
      by (simp add: read_varint.simps [of d i] Let_def)
    from "1.IH" [OF _ _ _ refl refl False this] g show ?thesis by simp
  qed
qed

lemma wrap64_range: "- (2 ^ 63) \<le> wrap64 i \<and> wrap64 i < 2 ^ 63"
  using sint_range_size [of "word_of_int i :: 64 word"] by (simp add: wrap64_def word_size)

lemma wrap64_over: "2 ^ 63 \<le> i \<Longrightarrow> i < 2 ^ 64 \<Longrightarrow> wrap64 i = i - 2 ^ 64"
proof -
  assume "2 ^ 63 \<le> i" and "i < 2 ^ 64"
  then have "wrap64 (i - 2 ^ 64) = i - 2 ^ 64" by (intro wrap64_id) auto
  moreover have "(word_of_int (i - 2 ^ 64) :: 64 word) = word_of_int i"
    unfolding word_of_int_eq_iff by (simp add: take_bit_eq_mod)
  ultimately show ?thesis by (simp only: wrap64_def)
qed

lemma wrap64_add:
  assumes "0 \<le> a" and "a < 2 ^ 62" and "0 \<le> b" and "b < 2 ^ 63"
  shows "wrap64 (a + b) = a + b \<or> wrap64 (a + b) < - (2 ^ 62)"
  using assms wrap64_id [of "a + b"] wrap64_over [of "a + b"] by (cases "a + b < 2 ^ 63") auto

lemma skip_group_result:
  "skip_group n d s = Some (Returns nx) \<Longrightarrow> 1 \<le> nx \<and> nx \<le> int (length d)"
proof (induction n arbitrary: s)
  case 0
  then show ?case by simp
next
  case (Suc n)
  then show ?case
    by (auto split: go_result.splits prod.splits if_splits option.splits dest!: read_varint_bounds)
qed

lemma sint64_bound: "sint (w :: 64 word) < 2 ^ 63"
  using sint_range_size [of w] by (simp add: word_size)

lemma skipHep_result:
  assumes "length d < 2 ^ 62" and "skipHep n d = Some (Returns nx)"
  shows "(1 \<le> nx \<or> nx < - (2 ^ 62)) \<and> - (2 ^ 63) \<le> nx \<and> nx < 2 ^ 63"
proof (cases n)
  case 0
  with assms show ?thesis by simp
next
  case (Suc k)
  with assms(2) obtain i wire where rd: "read_varint d 0 0 (0 :: 64 word) = Returns (i, wire)"
    by (auto split: if_splits go_result.splits)
  then have i: "0 < i" "i \<le> int (length d)" by (auto dest: read_varint_bounds)
  have ln: "int (length d) < 2 ^ 62" using assms(1) by simp
  let ?w = "unat (wire AND 7)"
  have small: "wrap64 (i + c) = i + c" if "0 \<le> c" "c \<le> 8" for c
    using that i ln by (intro wrap64_id) auto
  have str: "(1 \<le> wrap64 (i' + sint l) \<or> wrap64 (i' + sint l) < - (2 ^ 62)) \<and>
      - (2 ^ 63) \<le> wrap64 (i' + sint l) \<and> wrap64 (i' + sint l) < 2 ^ 63"
    if "0 < i'" "i' \<le> int (length d)" "\<not> sint l < 0" for i' and l :: "64 word"
    using wrap64_add [of i' "sint l"] wrap64_range [of "i' + sint l"] sint64_bound [of l] that ln
    by linarith
  have body: "Some (Returns nx) =
      (if ?w = 0 then Some (go_bind (read_varint d i 0 (0 :: 64 word)) (\<lambda>(i', _). Returns i'))
       else if ?w = 1 then Some (Returns (wrap64 (i + 8)))
       else if ?w = 2 then
         Some (go_bind (read_varint d i 0 (0 :: 64 word))
           (\<lambda>(i', len). if sint len < 0 then Fails ErrInvalidLengthHep else Returns (wrap64 (i' + sint len))))
       else if ?w = 3 then skip_group k d i
       else if ?w = 4 then Some (Returns i)
       else if ?w = 5 then Some (Returns (wrap64 (i + 4)))
       else Some (Fails (ErrIllegalWireType ?w)))"
    using Suc assms(2) rd by (simp add: Let_def split: if_splits)
  show ?thesis
  proof (cases "?w = 2")
    case True
    with body obtain i' l where "read_varint d i 0 (0 :: 64 word) = Returns (i', l)"
      "\<not> sint l < 0" "nx = wrap64 (i' + sint l)"
      by (auto simp: go_bind_eq_Returns eq_commute [of "Returns nx"] split: if_splits)
    with str [of i' l] show ?thesis by (auto dest!: read_varint_bounds)
  next
    case False
    with body have "1 \<le> nx \<and> nx \<le> int (length d) + 8"
      using i small [of 4] small [of 8]
      by (auto simp: go_bind_eq_Returns eq_commute [of "Returns nx"] eq_commute [of "Some (Returns nx)"]
          split: if_splits dest!: read_varint_bounds skip_group_result)
    with ln show ?thesis by auto
  qed
qed

lemma skip_fuel:
  "length d < 2 ^ 62 \<Longrightarrow>
    (2 * length d + 1 \<le> n \<longrightarrow> skipHep n d \<noteq> None) \<and>
    (1 \<le> n \<longrightarrow> (0 \<le> s \<longrightarrow> 2 * (length d - nat s) + 2 \<le> n) \<longrightarrow> skip_group n d s \<noteq> None)"
proof (induction n arbitrary: d s)
  case 0
  then show ?case by simp
next
  case (Suc n)
  have hep: "skipHep (Suc n) d \<noteq> None" if fuel: "2 * length d + 1 \<le> Suc n"
  proof -
    have "skip_group n d i \<noteq> None" if "read_varint d 0 0 (0 :: 64 word) = Returns (i, wire)" for i wire
    proof -
      from that have "0 < i" "i \<le> int (length d)" by (auto dest: read_varint_bounds)
      then have "1 \<le> n" "2 * (length d - nat i) + 2 \<le> n" using fuel by linarith+
      with Suc show ?thesis by simp
    qed
    then show ?thesis by (auto simp: Let_def split: go_result.split)
  qed
  have group: "skip_group (Suc n) d s \<noteq> None" if fuel: "0 \<le> s \<longrightarrow> 2 * (length d - nat s) + 2 \<le> Suc n"
  proof (cases "read_varint d s 0 (0 :: 64 word)")
    case (Returns r)
    then obtain i v where r: "read_varint d s 0 (0 :: 64 word) = Returns (i, v)" by (cases r) simp
    then have s: "0 \<le> s" "s < int (length d)" by (auto dest: read_varint_bounds)
    with fuel have fuel': "2 * (length d - nat s) + 1 \<le> n" "1 \<le> n" by auto
    then have "skipHep n (drop (nat s) d) \<noteq> None" using Suc by simp
    moreover have "skip_group n d (wrap64 (s + nx)) \<noteq> None" if "skipHep n (drop (nat s) d) = Some (Returns nx)" for nx
    proof -
      have nx: "1 \<le> nx \<or> nx < - (2 ^ 62)" "- (2 ^ 63) \<le> nx" "nx < 2 ^ 63"
        using skipHep_result [OF _ that] Suc.prems by auto
      have "int (length d) < 2 ^ 62" using Suc.prems by simp
      then have "wrap64 (s + nx) < 0 \<or> wrap64 (s + nx) = s + nx \<and> 1 \<le> nx"
        using nx s wrap64_add [of s nx] wrap64_id [of "s + nx"] by force
      then have "0 \<le> wrap64 (s + nx) \<longrightarrow> 2 * (length d - nat (wrap64 (s + nx))) + 2 \<le> n"
        using fuel' s by auto
      with Suc fuel' show ?thesis by blast
    qed
    ultimately show ?thesis using r by (auto split: option.split go_result.split)
  qed auto
  from hep group show ?case by simp
qed

lemma skip_unknown_terminates:
  assumes "length d < 2 ^ 62" and "0 \<le> i" and "i < int (length d)"
  shows "skip_unknown d i \<noteq> None \<and> (skip_unknown d i = Some (Returns i2) \<longrightarrow> i < i2 \<or> i2 < 0)"
proof -
  have "length (drop (nat i) d) < 2 ^ 62" using assms(1) by simp
  with skip_fuel [OF this, of "proto_fuel d"] have "skipHep (proto_fuel d) (drop (nat i) d) \<noteq> None"
    by (simp add: proto_fuel_def)
  then obtain r where r: "skipHep (proto_fuel d) (drop (nat i) d) = Some r" by auto
  have "i < i2 \<or> i2 < 0" if "r = Returns nx" "\<not> nx < 0" "i2 = wrap64 (i + nx)" for nx
  proof -
    from skipHep_result [of "drop (nat i) d" "proto_fuel d" nx] r that assms(1)
    have "1 \<le> nx" "nx < 2 ^ 63" by auto
    moreover have "int (length d) < 2 ^ 62" using assms(1) by simp
    then have "i < 2 ^ 62" using assms(3) by linarith
    ultimately show ?thesis using wrap64_add [of i nx] assms(2) that by force
  qed
  then show ?thesis
    by (auto simp: skip_unknown_def r go_bind_eq_Returns split: if_splits)
qed

lemma unmarshal_field_advances:
  "unmarshal_field d i f w m = Returns (i2, m') \<Longrightarrow> i < i2"
  unfolding unmarshal_field_defs field_uint32_def field_string_def
  by (auto simp: go_bind_eq_Returns Let_def split: if_splits dest!: read_varint_bounds)

lemma Unmarshal_loop_fuel:
  "length d < 2 ^ 62 \<Longrightarrow> 1 \<le> n \<Longrightarrow> (0 \<le> i \<Longrightarrow> length d - nat i + 1 \<le> n) \<Longrightarrow> Unmarshal_loop n d i has m \<noteq> None"
proof (induction n arbitrary: i has m)
  case 0
  then show ?case by simp
next
  case (Suc n)
  show ?case
  proof (cases "\<exists>i1 wire. i < int (length d) \<and> read_varint d i 0 (0 :: 64 word) = Returns (i1, wire)")
    case False
    then show ?thesis by (auto split: go_result.split)
  next
    case True
    then obtain i1 wire where i: "i < int (length d)" and rd: "read_varint d i 0 (0 :: 64 word) = Returns (i1, wire)"
      by blast
    then have b: "0 \<le> i" "i < i1" by (auto dest: read_varint_bounds)
    have next_ok: "Unmarshal_loop n d i2 has' m' \<noteq> None" if "i < i2 \<or> i2 < 0" for i2 has' m'
      using that b i Suc.prems by (intro Suc.IH) auto
    from skip_unknown_terminates [OF Suc.prems(1) b(1) i]
    have "skip_unknown d i \<noteq> None" "skip_unknown d i = Some (Returns i2) \<Longrightarrow> i < i2 \<or> i2 < 0" for i2 by blast+
    then show ?thesis
      using rd i b next_ok
      by (auto simp: Let_def split: go_result.split option.split dest!: unmarshal_field_advances)
  qed
qed

text \<open>
  \<open>Unmarshal\<close> returns on every packet: each iteration of its loop, and each level and iteration of
  the skipping of nested unknown groups, moves the cursor forward or ends the run. So the fuel of the
  model is never exhausted and the result is a message, an error or a panic.
\<close>

theorem Unmarshal_terminates:
  assumes "length d < 2 ^ 62"
  shows "\<exists>r. Unmarshal m d = Some r"
  using Unmarshal_loop_fuel [OF assms, of "proto_fuel d" 0 0 m]
  by (auto simp: Unmarshal_def proto_fuel_def)

theorem Unmarshal_terminates_witness:
  "\<exists>r. Unmarshal (acquireHEP None) [CHR 0x7B, CHR 0x7B, CHR 0x08, CHR 0x01, CHR 0x7C] = Some r"
  by (rule Unmarshal_terminates) simp

definition overflow_packet :: bytes where
  "overflow_packet =
     [CHR 0x1A, CHR 0xFF, CHR 0xFF, CHR 0xFF, CHR 0xFF, CHR 0xFF, CHR 0xFF, CHR 0xFF, CHR 0xFF, CHR 0x7F]"

lemma overflow_packet_encode: "overflow_packet = [] @ byte_of 0x1A # encodeVarintHep 0x7FFFFFFFFFFFFFFF"
  by (simp add: overflow_packet_def encodeVarintHep.simps char_of_def bit_0)

text \<open>
  A ten-byte packet makes \<open>Unmarshal\<close> panic instead of returning an error: a string field whose
  length is the largest 63-bit number makes \<open>postIndex\<close> wrap to a negative number, which passes the
  test \<open>postIndex > l\<close> and is then used as a slice bound.
\<close>

lemma Unmarshal_overflow_packet: "Unmarshal m overflow_packet = Some Panics"
proof -
  let ?v = "0x7FFFFFFFFFFFFFFF :: 64 word"
  have "read_varint ([byte_of 0x1A] @ encodeVarintHep ?v @ []) (int (length [byte_of 0x1A])) 0 (0 :: 64 word) =
      Returns (int (length [byte_of 0x1A] + sovHep ?v), 0 OR push_bit 0 (ucast ?v))"
    by (rule read_varint_encode) simp_all
  then have rd: "read_varint overflow_packet 1 0 (0 :: 64 word) = Returns (10, ?v)"
    by (simp add: overflow_packet_encode sovHep.simps)
  have "wrap64 (10 + sint ?v) < 0" "\<not> sint ?v < 0"
    by (simp_all add: wrap64_def)
  with rd have "unmarshal_field overflow_packet 1 3 2 m = Panics"
    by (simp add: unmarshal_field_defs field_string_def Let_def)
  moreover have "read_varint overflow_packet 0 0 (0 :: 64 word) = Returns (1, 0x1A)"
    using read_tag [of 26 "[]" "encodeVarintHep ?v"] by (simp add: overflow_packet_encode)
  moreover have "length overflow_packet = 10" by (simp add: overflow_packet_def)
  ultimately have "Unmarshal_loop (Suc n) overflow_packet 0 0 m = Some Panics" for n
    by (simp add: Let_def)
  then show ?thesis by (simp add: Unmarshal_def proto_fuel_def)
qed

end
