(* ===== verification/Ip_Format.thy ===== *)
theory Ip_Format
  imports Homer_Prelude
begin

text \<open>
  src/decoder/ipformat.go: the text of the addresses of a HEP packet. The IPv6 branch calls
  \<open>netip.AddrFrom16(b).Unmap().String()\<close>; the definitions \<open>v6u16\<close>, \<open>appendHex\<close> and \<open>appendTo6\<close> are
  that method of Go's standard library, with its scan for the longest run of zero groups.
\<close>

definition writeDecimalUint8 :: "char \<Rightarrow> string" where
  "writeDecimalUint8 c =
     (let v = byte_val c
      in if 100 \<le> v then [digit_char (v div 100), digit_char (v div 10 mod 10), digit_char (v mod 10)]
         else if 10 \<le> v then [digit_char (v div 10), digit_char (v mod 10)]
         else [digit_char v])"

text \<open>The loop over the octets writes a dot before every octet but the first.\<close>

fun ipv4_loop :: "nat \<Rightarrow> bytes \<Rightarrow> string" where
  "ipv4_loop i [] = []"
| "ipv4_loop i (v # b) =
     (if 0 < i then ''.'' else []) @ writeDecimalUint8 v @ ipv4_loop (Suc i) b"

definition ipv4BytesToString :: "bytes \<Rightarrow> string" where
  "ipv4BytesToString b = (if length b \<noteq> 4 then [] else ipv4_loop 0 b)"

definition v6u16 :: "bytes \<Rightarrow> nat \<Rightarrow> nat" where
  "v6u16 b i = byte_val (b ! (2 * i)) * 256 + byte_val (b ! (2 * i + 1))"

definition hex_lower :: "nat \<Rightarrow> char" where
  "hex_lower n = (if n < 10 then byte_of (48 + n) else byte_of (87 + n))"

definition appendHex :: "nat \<Rightarrow> string" where
  "appendHex x =
     (if 0x1000 \<le> x then [hex_lower (x div 4096)] else [])
     @ (if 0x100 \<le> x then [hex_lower (x div 256 mod 16)] else [])
     @ (if 0x10 \<le> x then [hex_lower (x div 16 mod 16)] else [])
     @ [hex_lower (x mod 16)]"

text \<open>\<open>for j < 8 && ip.v6u16(j) == 0 { j++ }\<close>\<close>

definition zero_run_end :: "bytes \<Rightarrow> nat \<Rightarrow> nat" where
  "zero_run_end b i = (case for_find (\<lambda>j. v6u16 b j \<noteq> 0) i 8 of None \<Rightarrow> 8 | Some j \<Rightarrow> j)"

fun longest_zero_run :: "bytes \<Rightarrow> nat list \<Rightarrow> nat \<times> nat \<Rightarrow> nat \<times> nat" where
  "longest_zero_run b [] z = z"
| "longest_zero_run b (i # is) (zs, ze) =
     (let j = zero_run_end b i; l = j - i
      in longest_zero_run b is (if 2 \<le> l \<and> ze - zs < l then (i, j) else (zs, ze)))"

text \<open>At \<open>i = zeroStart\<close> the run is skipped (\<open>i = zeroEnd\<close>); a run found is never empty.\<close>

function appendTo6_loop :: "bytes \<Rightarrow> nat \<Rightarrow> nat \<Rightarrow> nat \<Rightarrow> string" where
  "appendTo6_loop b zs ze i =
     (if 8 \<le> i then []
      else if i = zs \<and> i < ze then
        (if 8 \<le> ze then ''::'' else ''::'' @ appendHex (v6u16 b ze) @ appendTo6_loop b zs ze (Suc ze))
      else (if 0 < i then '':'' else []) @ appendHex (v6u16 b i) @ appendTo6_loop b zs ze (Suc i))"
  by pat_completeness auto
termination
  by (relation "measure (\<lambda>(b, zs, ze, i). 8 - i)") auto

declare appendTo6_loop.simps [simp del]

definition appendTo6 :: "bytes \<Rightarrow> string" where
  "appendTo6 b = (let (zs, ze) = longest_zero_run b [0..<8] (255, 255) in appendTo6_loop b zs ze 0)"

definition Is4In6 :: "bytes \<Rightarrow> bool" where
  "Is4In6 b \<longleftrightarrow> take 12 b = replicate 10 (byte_of 0) @ [byte_of 255, byte_of 255]"

definition ipv6BytesToString :: "bytes \<Rightarrow> string" where
  "ipv6BytesToString b =
     (if length b \<noteq> 16 then []
      else if Is4In6 b then ipv4BytesToString (drop 12 b)
      else appendTo6 b)"

subsection \<open>Dotted quads\<close>

lemma writeDecimalUint8_Itoa: "writeDecimalUint8 c = Itoa (byte_val c)"
proof -
  have "Itoa v = (if 100 \<le> v then [digit_char (v div 100), digit_char (v div 10 mod 10), digit_char (v mod 10)]
         else if 10 \<le> v then [digit_char (v div 10), digit_char (v mod 10)]
         else [digit_char v])" if "v < 256" for v
    using that by (simp add: Itoa.simps [of v] Itoa.simps [of "v div 10"] Itoa.simps [of "v div 100"]
        div_mult2_eq [symmetric] less_mult_imp_div_less) linarith
  from this [OF byte_val_less] show ?thesis by (simp add: writeDecimalUint8_def Let_def)
qed

lemma ipv4_loop_Join:
  "b \<noteq> [] \<Longrightarrow> ipv4_loop i b = (if 0 < i then ''.'' else []) @ Join (map (\<lambda>c. Itoa (byte_val c)) b) ''.''"
proof (induction b arbitrary: i)
  case Nil
  then show ?case by simp
next
  case (Cons v b)
  then show ?case by (cases b) (auto simp: writeDecimalUint8_Itoa)
qed

lemma Itoa_no_dot: "CHR ''.'' \<notin> set (Itoa n)"
  using Itoa_digits [of "CHR ''.''" n] by auto

text \<open>
  The text of an IPv4 address is the four octets in decimal joined by dots, and reading the
  text back gives the octets: two different source addresses never share a text.
\<close>

theorem ipv4_roundtrip:
  assumes "length b = 4"
  shows "map (Atoi_digits 0) (Split (ipv4BytesToString b) ''.'') = map (\<lambda>c. Some (byte_val c)) b"
proof -
  let ?ds = "map (\<lambda>c. Itoa (byte_val c)) b"
  have "b \<noteq> []" using assms by auto
  then have "ipv4BytesToString b = Join ?ds ''.''"
    using assms by (simp add: ipv4BytesToString_def ipv4_loop_Join)
  moreover have "Split (Join ?ds ''.'') ''.'' = ?ds"
    using \<open>b \<noteq> []\<close> by (intro Split_Join) (auto simp: sublist_single Itoa_no_dot)
  ultimately show ?thesis by (simp add: Atoi_Itoa)
qed

theorem ipv4_roundtrip_witness:
  "map (Atoi_digits 0) (Split (ipv4BytesToString [CHR 0x0A, CHR 0x00, CHR 0x01, CHR 0xFF]) ''.'') =
     [Some 10, Some 0, Some 1, Some 255]"
  using ipv4_roundtrip [of "[CHR 0x0A, CHR 0x00, CHR 0x01, CHR 0xFF]"] by simp

lemma ipv6_mapped:
  "length b = 4 \<Longrightarrow>
   ipv6BytesToString (replicate 10 (byte_of 0) @ [byte_of 255, byte_of 255] @ b) = ipv4BytesToString b"
  by (simp add: ipv6BytesToString_def Is4In6_def eval_nat_numeral)

end
