(* ===== verification/Go_Utf8.thy ===== *)
theory Go_Utf8
  imports Homer_Prelude
begin

text \<open>
  Package \<open>unicode/utf8\<close> as the modelled code uses it, and \<open>toUTF8\<close> of
  src/decoder/decoder.go, the last step before a payload is stored in a text column.
  \<open>rune_len\<close> is the decoder's table of first bytes and accepted ranges: \<open>Some n\<close> for a
  well-formed encoding of \<open>n\<close> bytes at the start of the string, \<open>None\<close> for \<open>RuneError\<close> of width 1.
\<close>

subsection \<open>Decoding one rune\<close>

definition in_range :: "nat \<Rightarrow> nat \<Rightarrow> char \<Rightarrow> bool" where
  "in_range lo hi c \<longleftrightarrow> lo \<le> byte_val c \<and> byte_val c \<le> hi"

abbreviation is_cont :: "char \<Rightarrow> bool" where
  "is_cont c \<equiv> in_range 0x80 0xBF c"

text \<open>The accepted range of the second byte, by the first byte of a multi-byte sequence.\<close>

definition second_lo :: "char \<Rightarrow> nat" where
  "second_lo c = (if byte_val c = 0xE0 then 0xA0 else if byte_val c = 0xF0 then 0x90 else 0x80)"

definition second_hi :: "char \<Rightarrow> nat" where
  "second_hi c = (if byte_val c = 0xED then 0x9F else if byte_val c = 0xF4 then 0x8F else 0xBF)"

fun rune_len :: "string \<Rightarrow> nat option" where
  "rune_len [] = None"
| "rune_len (a # s) =
     (if byte_val a < 0x80 then Some 1
      else if in_range 0xC2 0xDF a then
        (case s of b # _ \<Rightarrow> if is_cont b then Some 2 else None | _ \<Rightarrow> None)
      else if in_range 0xE0 0xEF a then
        (case s of
           b # c # _ \<Rightarrow> if in_range (second_lo a) (second_hi a) b \<and> is_cont c then Some 3 else None
         | _ \<Rightarrow> None)
      else if in_range 0xF0 0xF4 a then
        (case s of
           b # c # d # _ \<Rightarrow>
             if in_range (second_lo a) (second_hi a) b \<and> is_cont c \<and> is_cont d then Some 4 else None
         | _ \<Rightarrow> None)
      else None)"

lemma rune_len_bounds: "rune_len s = Some n \<Longrightarrow> 1 \<le> n \<and> n \<le> 4 \<and> n \<le> length s"
  by (induction s rule: rune_len.induct) (auto split: if_splits list.splits)

lemma rune_len_append: "rune_len s = Some n \<Longrightarrow> rune_len (s @ t) = Some n"
  by (induction s rule: rune_len.induct) (auto split: if_splits list.splits)

lemma rune_len_take: "rune_len s = Some n \<Longrightarrow> rune_len (take n s) = Some n"
  by (induction s rule: rune_len.induct)
    (auto split: if_splits list.splits simp: numeral_2_eq_2 numeral_3_eq_3 take_Cons split: nat.splits)

lemma rune_len_1: "rune_len s = Some (Suc 0) \<Longrightarrow> byte_val (hd s) < 0x80"
  by (induction s rule: rune_len.induct) (auto split: if_splits list.splits)

text \<open>A multi-byte sequence has no byte below 0x80, so no NUL.\<close>

lemma rune_len_multibyte:
  "rune_len s = Some n \<Longrightarrow> n \<noteq> 1 \<Longrightarrow> c \<in> set (take n s) \<Longrightarrow> 0x80 \<le> byte_val c"
  by (induction s rule: rune_len.induct)
    (auto split: if_splits list.splits simp: in_range_def take_Cons second_lo_def split: nat.splits)

declare rune_len.simps(2) [simp del]

subsection \<open>Valid strings\<close>

function ValidString :: "string \<Rightarrow> bool" where
  "ValidString s =
     (if s = [] then True
      else case rune_len s of None \<Rightarrow> False | Some n \<Rightarrow> ValidString (drop n s))"
  by pat_completeness auto
termination
  by (relation "measure length") (auto dest: rune_len_bounds)

declare ValidString.simps [simp del]

lemma ValidString_Nil [simp]: "ValidString []"
  by (simp add: ValidString.simps)

lemma ValidString_step: "rune_len s = Some n \<Longrightarrow> ValidString s = ValidString (drop n s)"
  by (cases "s = []") (simp_all add: ValidString.simps [of s])

lemma ValidString_append: "ValidString a \<Longrightarrow> ValidString b \<Longrightarrow> ValidString (a @ b)"
proof (induction a rule: ValidString.induct)
  case (1 a)
  show ?case
  proof (cases "a = []")
    case True
    with "1.prems" show ?thesis by simp
  next
    case False
    with "1.prems"(1) obtain n where n: "rune_len a = Some n" "ValidString (drop n a)"
      by (auto simp: ValidString.simps [of a] split: option.splits)
    with "1.IH" False "1.prems"(2) have "ValidString (drop n a @ b)" by simp
    moreover have "n \<le> length a" using rune_len_bounds [OF n(1)] by simp
    ultimately show ?thesis
      using ValidString_step [OF rune_len_append [OF n(1), of b]] by simp
  qed
qed

lemma ValidString_rune: "rune_len s = Some n \<Longrightarrow> ValidString (take n s)"
  using ValidString_step [OF rune_len_take [of s n]] by simp

subsection \<open>toUTF8\<close>

definition NUL :: char where
  "NUL = CHR 0x00"

text \<open>
  The slow path: \<open>i\<close> is the part of the input still to be read, \<open>invalid\<close> whether the previous
  byte was part of an invalid run.
\<close>

function toUTF8_loop :: "string \<Rightarrow> bool \<Rightarrow> string \<Rightarrow> string" where
  "toUTF8_loop replacement invalid [] = []"
| "toUTF8_loop replacement invalid (c # s) =
     (if c = NUL then toUTF8_loop replacement False s
      else if byte_val c < 0x80 then c # toUTF8_loop replacement False s
      else case rune_len (c # s) of
        None \<Rightarrow> (if invalid then [] else replacement) @ toUTF8_loop replacement True s
      | Some wid \<Rightarrow> take wid (c # s) @ toUTF8_loop replacement False (drop wid (c # s)))"
  by pat_completeness auto
termination
  by (relation "measure (\<lambda>(r, inv, s). length s)") (auto dest: rune_len_bounds)

definition toUTF8 :: "string \<Rightarrow> string \<Rightarrow> string" where
  "toUTF8 s replacement =
     (if ValidString s \<and> IndexByte s NUL = None then s else toUTF8_loop replacement False s)"

definition utf8_safe :: "string \<Rightarrow> bool" where
  "utf8_safe s \<longleftrightarrow> ValidString s \<and> NUL \<notin> set s"

lemma utf8_safe_append: "utf8_safe a \<Longrightarrow> utf8_safe b \<Longrightarrow> utf8_safe (a @ b)"
  by (simp add: utf8_safe_def ValidString_append)

lemma utf8_safe_Nil [simp]: "utf8_safe []"
  by (simp add: utf8_safe_def)

lemma utf8_safe_ascii: "byte_val c < 0x80 \<Longrightarrow> c \<noteq> NUL \<Longrightarrow> utf8_safe [c]"
  by (auto simp: utf8_safe_def ValidString.simps rune_len.simps)

lemma utf8_safe_rune:
  assumes "rune_len s = Some n" and "n \<noteq> 1"
  shows "utf8_safe (take n s)"
  using ValidString_rune [OF assms(1)] rune_len_multibyte [OF assms, of NUL]
  by (auto simp: utf8_safe_def NUL_def)

lemma utf8_safe_toUTF8_loop: "utf8_safe replacement \<Longrightarrow> utf8_safe (toUTF8_loop replacement invalid s)"
proof (induction replacement invalid s rule: toUTF8_loop.induct)
  case (1 replacement invalid)
  then show ?case by simp
next
  case (2 replacement invalid c s)
  show ?case
  proof (cases "c = NUL \<or> byte_val c < 0x80")
    case True
    with 2 show ?thesis
      using utf8_safe_append [OF utf8_safe_ascii [of c]] by auto
  next
    case False
    show ?thesis
    proof (cases "rune_len (c # s)")
      case None
      with False 2 show ?thesis by (auto intro: utf8_safe_append)
    next
      case (Some n)
      with False have "n \<noteq> 1" using rune_len_1 [of "c # s"] by fastforce
      with False Some 2 show ?thesis
        by (auto intro!: utf8_safe_append utf8_safe_rune)
    qed
  qed
qed

text \<open>
  C-independent facts about the stored text: the conversion never fails, its result is always
  safe to store, and text that was already safe is kept byte for byte.
\<close>

lemma utf8_safe_toUTF8: "utf8_safe replacement \<Longrightarrow> utf8_safe (toUTF8 s replacement)"
  by (auto simp: toUTF8_def utf8_safe_toUTF8_loop) (auto simp: utf8_safe_def)

lemma toUTF8_id: "utf8_safe s \<Longrightarrow> toUTF8 s replacement = s"
  by (simp add: toUTF8_def utf8_safe_def)

lemma subseq_toUTF8_loop: "subseq (toUTF8_loop [] invalid s) s"
proof (induction "[] :: string" invalid s rule: toUTF8_loop.induct)
  case (1 invalid)
  then show ?case by simp
next
  case (2 invalid c s)
  show ?case
  proof (cases "c \<noteq> NUL \<and> \<not> byte_val c < 0x80 \<and> rune_len (c # s) \<noteq> None")
    case True
    then obtain n where n: "rune_len (c # s) = Some n" by auto
    with 2 True have "subseq (take n (c # s) @ toUTF8_loop [] False (drop n (c # s)))
        (take n (c # s) @ drop n (c # s))"
      by (intro list_emb_append_mono) auto
    with n True show ?thesis by (simp del: take_append)
  next
    case False
    with 2 show ?thesis by auto
  qed
qed

lemma subseq_toUTF8: "subseq (toUTF8 s []) s"
  by (simp add: toUTF8_def subseq_toUTF8_loop)

end
