(* ===== verification/Isup_Preserve.thy ===== *)
theory Isup_Preserve
  imports Go_Utf8 Byte_Scan
begin

text \<open>
  src/isup/preserve.go: how the binary body of a SIP-I message (application/isup) is taken out of
  the text payload before storage and put back for PCAP and decoding, and the older form that
  kept it as hex inside the message. The functions of the Go packages \<open>mime\<close> (\<open>ParseMediaType\<close>)
  and \<open>encoding/base64\<close> (\<open>StdEncoding.DecodeString\<close>) are arguments (\<open>mp\<close>, \<open>b64\<close>): nothing is
  assumed about them, so every result below holds for whatever they return.
\<close>

type_synonym media_parser = "string \<Rightarrow> (string \<times> (string \<rightharpoonup> string)) option"
type_synonym b64_decoder = "string \<Rightarrow> bytes option"

subsection \<open>Hexadecimal (package encoding/hex)\<close>

definition hex_digit :: "nat \<Rightarrow> char" where
  "hex_digit n = (if n < 10 then byte_of (48 + n) else byte_of (87 + n))"

definition hex_value :: "char \<Rightarrow> nat option" where
  "hex_value c =
     (let v = byte_val c
      in if 48 \<le> v \<and> v \<le> 57 then Some (v - 48)
         else if 97 \<le> v \<and> v \<le> 102 then Some (v - 87)
         else if 65 \<le> v \<and> v \<le> 70 then Some (v - 55)
         else None)"

fun hex_EncodeToString :: "bytes \<Rightarrow> string" where
  "hex_EncodeToString [] = []"
| "hex_EncodeToString (c # cs) =
     hex_digit (byte_val c div 16) # hex_digit (byte_val c mod 16) # hex_EncodeToString cs"

fun hex_DecodeString :: "string \<Rightarrow> bytes option" where
  "hex_DecodeString [] = Some []"
| "hex_DecodeString [c] = None"
| "hex_DecodeString (a # b # s) =
     (case (hex_value a, hex_value b) of
        (Some x, Some y) \<Rightarrow> map_option ((#) (byte_of (x * 16 + y))) (hex_DecodeString s)
      | _ \<Rightarrow> None)"

lemma hex_value_hex_digit: "n < 16 \<Longrightarrow> hex_value (hex_digit n) = Some n"
  by (simp add: hex_value_def hex_digit_def Let_def of_char_of)

lemma hex_Decode_Encode: "hex_DecodeString (hex_EncodeToString b) = Some b"
proof (induction b)
  case Nil
  show ?case by simp
next
  case (Cons c b)
  have "byte_val c div 16 < 16" using byte_val_less [of c] by (intro less_mult_imp_div_less) simp
  then show ?case using Cons by (simp add: hex_value_hex_digit)
qed

subsection \<open>Header lines\<close>

definition binaryBodyHeader :: string where
  "binaryBodyHeader = ''X-Homer-Binary-Body''"

definition multiBodyMagic :: string where
  "multiBodyMagic = ''ISI1''"

definition unsafeUTF8 :: "string \<Rightarrow> bool" where
  "unsafeUTF8 s \<longleftrightarrow> IndexByte s NUL \<noteq> None \<or> \<not> ValidString s"

definition LF :: string where
  "LF = [LFc]"

definition splitSIP :: "string \<Rightarrow> (string \<times> string \<times> string) option" where
  "splitSIP payload =
     (case Index payload CRLFCRLF of
        Some i \<Rightarrow> Some (take i payload, CRLF, drop (i + 4) payload)
      | None \<Rightarrow>
          (case Index payload (LF @ LF) of
             Some i \<Rightarrow> Some (take i payload, LF, drop (i + 2) payload)
           | None \<Rightarrow> None))"

definition payloadBody :: "string \<Rightarrow> string" where
  "payloadBody payload = (case splitSIP payload of None \<Rightarrow> [] | Some (_, _, body) \<Rightarrow> body)"

definition splitHeaderLine :: "string \<Rightarrow> (string \<times> string) option" where
  "splitHeaderLine line =
     (if line = [] \<or> line ! 0 = CHR 0x20 \<or> line ! 0 = CHR 0x09 then None
      else case IndexByte line (CHR '':'') of
        None \<Rightarrow> None
      | Some i \<Rightarrow>
          if i = 0 then None
          else Some (TrimSpace (take i line), TrimSpace (drop (i + 1) line)))"

definition headerNamesMatch :: "string \<Rightarrow> string \<Rightarrow> bool" where
  "headerNamesMatch got want =
     (if EqualFold got want then True
      else if ToLower want = ''content-type'' then EqualFold got ''c''
      else if ToLower want = ''content-length'' then EqualFold got ''l''
      else False)"

definition line_matches :: "string \<Rightarrow> string \<Rightarrow> bool" where
  "line_matches name line =
     (case splitHeaderLine line of None \<Rightarrow> False | Some (hname, _) \<Rightarrow> headerNamesMatch hname name)"

fun headerValue_loop :: "string list \<Rightarrow> string \<Rightarrow> string option" where
  "headerValue_loop [] name = None"
| "headerValue_loop (line # lines) name =
     (case splitHeaderLine line of
        Some (hname, val) \<Rightarrow>
          if headerNamesMatch hname name then Some val else headerValue_loop lines name
      | None \<Rightarrow> headerValue_loop lines name)"

definition headerValue :: "string \<Rightarrow> string \<Rightarrow> string \<Rightarrow> string option" where
  "headerValue headers nl name = headerValue_loop (Split headers nl) name"

text \<open>\<open>ct, _ := headerValue(...)\<close>: a missing header reads as the empty string.\<close>

definition headerValue_or_empty :: "string \<Rightarrow> string \<Rightarrow> string \<Rightarrow> string" where
  "headerValue_or_empty headers nl name =
     (case headerValue headers nl name of None \<Rightarrow> [] | Some v \<Rightarrow> v)"

definition replace_line :: "string \<Rightarrow> string \<Rightarrow> string \<Rightarrow> string" where
  "replace_line name val line =
     (case splitHeaderLine line of
        None \<Rightarrow> line
      | Some (hname, _) \<Rightarrow> if headerNamesMatch hname name then hname @ '': '' @ val else line)"

definition replaceHeaderValue :: "string \<Rightarrow> string \<Rightarrow> string \<Rightarrow> string \<Rightarrow> string \<times> bool" where
  "replaceHeaderValue headers nl name val =
     (let lines = Split headers nl
      in if \<not> list_ex (line_matches name) lines then (headers, False)
         else (Join (map (replace_line name val) lines) nl, True))"

definition removeHeader :: "string \<Rightarrow> string \<Rightarrow> string \<Rightarrow> string" where
  "removeHeader headers nl name = Join (filter (\<lambda>l. \<not> line_matches name l) (Split headers nl)) nl"

definition setSIPBody :: "string \<Rightarrow> string \<Rightarrow> string \<Rightarrow> string" where
  "setSIPBody headers nl body =
     (let headers' = (if headers \<noteq> [] then fst (replaceHeaderValue headers nl ''Content-Length'' (Itoa (length body)))
                      else headers)
      in headers' @ nl @ nl @ body)"

subsection \<open>Media types\<close>

text \<open>\<open>isISUPType\<close> of src/isup/decode.go: \<open>Some version\<close> for an ISUP content type.\<close>

definition isISUPType :: "media_parser \<Rightarrow> string \<Rightarrow> string option" where
  "isISUPType mp contentType =
     (case mp contentType of
        None \<Rightarrow> if Contains (ToLower contentType) ''application/isup'' then Some [] else None
      | Some (media, params) \<Rightarrow>
          if \<not> EqualFold media ''application/isup'' then None
          else Some (case params ''version'' of None \<Rightarrow> [] | Some v \<Rightarrow> v))"

definition multipartBoundary :: "media_parser \<Rightarrow> string \<Rightarrow> string option" where
  "multipartBoundary mp contentType =
     (case mp contentType of
        None \<Rightarrow> None
      | Some (media, params) \<Rightarrow>
          if \<not> HasPrefix (ToLower media) ''multipart/'' then None
          else case params ''boundary'' of
            None \<Rightarrow> None
          | Some b \<Rightarrow> if b = [] then None else Some b)"

subsection \<open>Several bodies in one column\<close>

fun pack_loop :: "bytes list \<Rightarrow> bytes" where
  "pack_loop [] = []"
| "pack_loop (part # parts) = be_bytes 4 (length part mod 2 ^ 32) @ part @ pack_loop parts"

definition packISUPBodies :: "bytes list \<Rightarrow> bytes option" where
  "packISUPBodies parts =
     (case parts of
        [] \<Rightarrow> None
      | [p] \<Rightarrow> Some p
      | _ \<Rightarrow> Some (multiBodyMagic @ be_bytes 2 (length parts mod 2 ^ 16) @ pack_loop parts))"

fun unpack_loop :: "nat \<Rightarrow> bytes \<Rightarrow> (bytes list \<times> bytes) option" where
  "unpack_loop 0 rest = Some ([], rest)"
| "unpack_loop (Suc n) rest =
     (if length rest < 4 then None
      else let l = be_val (take 4 rest); rest' = drop 4 rest
           in if length rest' < l then None
              else case unpack_loop n (drop l rest') of
                None \<Rightarrow> None
              | Some (out, r) \<Rightarrow> Some (take l rest' # out, r))"

definition unpackISUPEnvelope :: "bytes \<Rightarrow> bytes list option" where
  "unpackISUPEnvelope body =
     (if length body < 6 \<or> take 4 body \<noteq> multiBodyMagic then None
      else let n = be_val (take 2 (drop 4 body))
           in if n \<le> 1 then None
              else case unpack_loop n (drop 6 body) of
                None \<Rightarrow> None
              | Some (out, rest) \<Rightarrow> if length rest \<noteq> 0 then None else Some out)"

text \<open>\<open>out := make([][]byte, nparts); out[0] = body\<close>: the other entries are nil.\<close>

definition unpackISUPBodies :: "bytes \<Rightarrow> nat \<Rightarrow> bytes list" where
  "unpackISUPBodies body nparts =
     (if nparts \<le> 1 then [body]
      else case unpackISUPEnvelope body of
        Some decoded \<Rightarrow>
          if length decoded = nparts then decoded else body # replicate (nparts - 1) []
      | None \<Rightarrow> body # replicate (nparts - 1) [])"

subsection \<open>MIME parts\<close>

text \<open>
  \<open>mapMultipart\<close> applies a callback to each part. The callbacks of the source change variables of
  their caller (\<open>parts\<close>, \<open>nparts\<close>, \<open>idx\<close>); here that is a state \<open>'st\<close> passed through the calls.
\<close>

type_synonym 'st part_fn = "'st \<Rightarrow> string \<Rightarrow> 'st \<times> string \<times> bool"

definition cut_prefix :: "string \<Rightarrow> string \<Rightarrow> string \<times> string" where
  "cut_prefix nl s = (if HasPrefix s nl then (nl, drop (length nl) s) else ([], s))"

definition cut_suffix :: "string \<Rightarrow> string \<Rightarrow> string \<times> string" where
  "cut_suffix nl s = (if HasSuffix s nl then (take (length s - length nl) s, nl) else (s, []))"

fun map_parts :: "'st part_fn \<Rightarrow> string \<Rightarrow> string \<Rightarrow> 'st \<Rightarrow> string list \<Rightarrow> 'st \<times> string \<times> bool" where
  "map_parts fn marker nl st [] = (st, [], False)"
| "map_parts fn marker nl st (seg # segs) =
     (if HasPrefix seg ''--'' then
        (let (st', out, ch) = map_parts fn marker nl st segs in (st', marker @ seg @ out, ch))
      else
        let (lead, rest0) = cut_prefix nl seg;
            (rest, trail) = cut_suffix nl rest0;
            (st1, new, ok) = fn st rest;
            changed1 = (ok \<and> new \<noteq> rest);
            rest' = (if changed1 then new else rest);
            (st', out, ch) = map_parts fn marker nl st1 segs
        in (st', marker @ lead @ rest' @ trail @ out, changed1 \<or> ch))"

definition mapMultipart :: "'st part_fn \<Rightarrow> 'st \<Rightarrow> string \<Rightarrow> string \<Rightarrow> string \<Rightarrow> 'st \<times> string \<times> bool" where
  "mapMultipart fn st body boundary nl =
     (let marker = ''--'' @ boundary
      in if \<not> Contains body marker then (st, body, False)
         else let parts = Split body marker;
                  (st', out, changed) = map_parts fn marker nl st (tl parts)
              in if \<not> changed then (st', body, False) else (st', hd parts @ out, True))"

subsection \<open>Detaching and attaching the body\<close>

definition detach_part :: "media_parser \<Rightarrow> bytes list part_fn" where
  "detach_part mp parts part =
     (case splitSIP part of
        None \<Rightarrow> (parts, part, False)
      | Some (headers, hnl, pbody) \<Rightarrow>
          if isISUPType mp (headerValue_or_empty headers hnl ''Content-Type'') = None
             \<or> \<not> unsafeUTF8 pbody
          then (parts, part, False)
          else (parts @ [pbody], setSIPBody headers hnl [], True))"

definition detachMultipartISUP :: "media_parser \<Rightarrow> string \<Rightarrow> string \<Rightarrow> string \<Rightarrow> string \<times> bytes list" where
  "detachMultipartISUP mp body boundary nl =
     (let (parts, newBody, changed) = mapMultipart (detach_part mp) [] body boundary nl
      in if \<not> changed then (body, []) else (newBody, parts))"

definition count_part :: "media_parser \<Rightarrow> nat part_fn" where
  "count_part mp nparts part =
     (case splitSIP part of
        None \<Rightarrow> (nparts, part, False)
      | Some (headers, hnl, _) \<Rightarrow>
          if isISUPType mp (headerValue_or_empty headers hnl ''Content-Type'') \<noteq> None
          then (Suc nparts, part, False) else (nparts, part, False))"

definition attach_part :: "media_parser \<Rightarrow> bytes list \<Rightarrow> nat part_fn" where
  "attach_part mp bodies idx part =
     (case splitSIP part of
        None \<Rightarrow> (idx, part, False)
      | Some (headers, hnl, _) \<Rightarrow>
          if isISUPType mp (headerValue_or_empty headers hnl ''Content-Type'') = None
          then (idx, part, False)
          else let raw = (if idx < length bodies then bodies ! idx else [])
               in (Suc idx, setSIPBody headers hnl raw, True))"

definition attachMultipartISUP :: "media_parser \<Rightarrow> string \<Rightarrow> string \<Rightarrow> string \<Rightarrow> bytes \<Rightarrow> string" where
  "attachMultipartISUP mp body boundary nl blob =
     (let (nparts, _, _) = mapMultipart (count_part mp) 0 body boundary nl;
          bodies = unpackISUPBodies blob nparts;
          (_, newBody, _) = mapMultipart (attach_part mp bodies) 0 body boundary nl
      in newBody)"

definition DetachISUPBody :: "media_parser \<Rightarrow> string \<Rightarrow> string \<times> bytes option" where
  "DetachISUPBody mp payload =
     (if \<not> unsafeUTF8 payload then (payload, None)
      else case splitSIP payload of
        None \<Rightarrow> (payload, None)
      | Some (headers, nl, rawBody) \<Rightarrow>
          if headerValue headers nl binaryBodyHeader \<noteq> None then (payload, None)
          else let ct = headerValue_or_empty headers nl ''Content-Type''
               in case multipartBoundary mp ct of
                    Some boundary \<Rightarrow>
                      let (newBody, parts) = detachMultipartISUP mp rawBody boundary nl
                      in if length parts = 0 then (payload, None)
                         else let headers' = fst (replaceHeaderValue headers nl ''Content-Length''
                                                    (Itoa (length newBody)))
                              in (headers' @ nl @ nl @ newBody, packISUPBodies parts)
                  | None \<Rightarrow>
                      if isISUPType mp ct = None \<or> \<not> unsafeUTF8 rawBody then (payload, None)
                      else (setSIPBody headers nl [], Some rawBody))"

definition AttachISUPBody :: "media_parser \<Rightarrow> string \<Rightarrow> bytes \<Rightarrow> string" where
  "AttachISUPBody mp payload body =
     (if length body = 0 then payload
      else case splitSIP payload of
        None \<Rightarrow> payload
      | Some (headers, nl, rawBody) \<Rightarrow>
          let ct = headerValue_or_empty headers nl ''Content-Type''
          in case multipartBoundary mp ct of
               Some boundary \<Rightarrow>
                 let newBody = attachMultipartISUP mp rawBody boundary nl body;
                     headers' = fst (replaceHeaderValue headers nl ''Content-Length''
                                       (Itoa (length newBody)))
                 in headers' @ nl @ nl @ newBody
             | None \<Rightarrow>
                 if isISUPType mp ct = None then payload
                 else let parts = unpackISUPBodies body 1
                      in setSIPBody headers nl (parts ! 0))"

subsection \<open>The hex form inside the message\<close>

definition decodeEncodedBody :: "b64_decoder \<Rightarrow> string \<Rightarrow> string \<Rightarrow> bytes option" where
  "decodeEncodedBody b64 encoding body =
     (let s = TrimSpace body; enc = ToLower (TrimSpace encoding)
      in if enc = ''hex'' then hex_DecodeString s
         else if enc = ''base64'' then b64 s
         else None)"

definition preservePart :: "string \<Rightarrow> string \<times> bool" where
  "preservePart part =
     (case splitSIP part of
        None \<Rightarrow> (part, False)
      | Some (headers, pnl, body) \<Rightarrow>
          if \<not> unsafeUTF8 body then (part, False)
          else if headerValue headers pnl binaryBodyHeader \<noteq> None then (part, False)
          else let encoded = hex_EncodeToString body;
                   h1 = (if headers \<noteq> [] then headers @ pnl else headers);
                   h2 = h1 @ binaryBodyHeader @ '': hex'';
                   h3 = fst (replaceHeaderValue h2 pnl ''Content-Length'' (Itoa (length encoded)))
               in (h3 @ pnl @ pnl @ encoded, True))"

definition restorePart :: "b64_decoder \<Rightarrow> string \<Rightarrow> string \<times> bool" where
  "restorePart b64 part =
     (case splitSIP part of
        None \<Rightarrow> (part, False)
      | Some (headers, pnl, body) \<Rightarrow>
          (case headerValue headers pnl binaryBodyHeader of
             None \<Rightarrow> (part, False)
           | Some enc \<Rightarrow>
               (case decodeEncodedBody b64 enc body of
                  None \<Rightarrow> (part, False)
                | Some raw \<Rightarrow>
                    let h1 = removeHeader headers pnl binaryBodyHeader;
                        h2 = fst (replaceHeaderValue h1 pnl ''Content-Length'' (Itoa (length raw)))
                    in (h2 @ pnl @ pnl @ raw, True))))"

definition stateless :: "(string \<Rightarrow> string \<times> bool) \<Rightarrow> unit part_fn" where
  "stateless f st part = ((), f part)"

definition PreserveBinarySIPPayload :: "media_parser \<Rightarrow> string \<Rightarrow> string" where
  "PreserveBinarySIPPayload mp payload =
     (if \<not> unsafeUTF8 payload then payload
      else case splitSIP payload of
        None \<Rightarrow> payload
      | Some (headers, nl, _) \<Rightarrow>
          if headerValue headers nl binaryBodyHeader \<noteq> None then payload
          else let ct = headerValue_or_empty headers nl ''Content-Type''
               in case multipartBoundary mp ct of
                    Some boundary \<Rightarrow>
                      let (_, newBody, changed) =
                            mapMultipart (stateless preservePart) () (payloadBody payload) boundary nl
                      in if \<not> changed then payload
                         else fst (replaceHeaderValue headers nl ''Content-Length'' (Itoa (length newBody)))
                              @ nl @ nl @ newBody
                  | None \<Rightarrow>
                      let (rewritten, changed) = preservePart payload
                      in if \<not> changed then payload else rewritten)"

definition RestoreBinarySIPPayload :: "media_parser \<Rightarrow> b64_decoder \<Rightarrow> string \<Rightarrow> string" where
  "RestoreBinarySIPPayload mp b64 payload =
     (case splitSIP payload of
        None \<Rightarrow> payload
      | Some (headers, nl, _) \<Rightarrow>
          if headerValue headers nl binaryBodyHeader \<noteq> None then
            (let (restored, changed) = restorePart b64 payload
             in if \<not> changed then payload else restored)
          else case multipartBoundary mp (headerValue_or_empty headers nl ''Content-Type'') of
            None \<Rightarrow> payload
          | Some boundary \<Rightarrow>
              let (_, newBody, changed) =
                    mapMultipart (stateless (restorePart b64)) () (payloadBody payload) boundary nl
              in if \<not> changed then payload
                 else fst (replaceHeaderValue headers nl ''Content-Length'' (Itoa (length newBody)))
                      @ nl @ nl @ newBody)"

text \<open>An \<open>isup_body\<close> cell of a search row: the dynamic types that \<open>BodyFromCell\<close> distinguishes.\<close>

datatype cell = CellNil | CellBytes bytes | CellString string | CellOther

fun BodyFromCell :: "b64_decoder \<Rightarrow> cell \<Rightarrow> bytes option" where
  "BodyFromCell b64 CellNil = None"
| "BodyFromCell b64 (CellBytes t) = (if length t = 0 then None else Some t)"
| "BodyFromCell b64 (CellString t) =
     (if t = [] then None
      else case b64 t of None \<Rightarrow> None | Some raw \<Rightarrow> if length raw = 0 then None else Some raw)"
| "BodyFromCell b64 CellOther = None"

definition MessageBytes :: "media_parser \<Rightarrow> b64_decoder \<Rightarrow> string \<Rightarrow> cell \<Rightarrow> string" where
  "MessageBytes mp b64 payload isupBody =
     (let payload' = RestoreBinarySIPPayload mp b64 payload
      in case BodyFromCell b64 isupBody of
           None \<Rightarrow> payload'
         | Some body \<Rightarrow> AttachISUPBody mp payload' body)"

subsection \<open>The envelope of several bodies\<close>

lemma unpack_loop_pack_loop:
  "\<forall>p\<in>set parts. length p < 2 ^ 32 \<Longrightarrow> unpack_loop (length parts) (pack_loop parts @ r) = Some (parts, r)"
proof (induction parts)
  case Nil
  show ?case by simp
next
  case (Cons p ps)
  then have "be_val (be_bytes 4 (length p mod 2 ^ 32)) = length p"
    by (simp add: be_val_be_bytes del: be_bytes.simps)
  with Cons show ?case by (simp add: Let_def del: be_bytes.simps)
qed

text \<open>
  Every list of ISUP bodies that one message can carry is recovered from the stored column:
  unpacking what was packed returns the same bodies in the same order. A single body is stored raw.
\<close>

theorem pack_unpack_roundtrip:
  assumes "parts \<noteq> []" and "length parts < 2 ^ 16" and "\<forall>p\<in>set parts. length p < 2 ^ 32"
  shows "map_option (\<lambda>blob. unpackISUPBodies blob (length parts)) (packISUPBodies parts) = Some parts"
proof (cases "\<exists>p. parts = [p]")
  case True
  then show ?thesis by (auto simp: packISUPBodies_def unpackISUPBodies_def)
next
  case False
  then have two: "1 < length parts" using assms(1) by (cases parts) auto
  let ?blob = "multiBodyMagic @ be_bytes 2 (length parts mod 2 ^ 16) @ pack_loop parts"
  have pack: "packISUPBodies parts = Some ?blob"
    using False assms(1) by (auto simp: packISUPBodies_def split: list.splits)
  have n: "be_val (be_bytes 2 (length parts mod 2 ^ 16)) = length parts"
    using assms(2) by (simp add: be_val_be_bytes del: be_bytes.simps)
  have loop: "unpack_loop (length parts) (pack_loop parts) = Some (parts, [])"
    using unpack_loop_pack_loop [OF assms(3), of "[]"] by simp
  have "unpackISUPEnvelope ?blob = Some parts"
    using n loop two by (simp add: unpackISUPEnvelope_def multiBodyMagic_def Let_def del: be_bytes.simps)
  with pack two show ?thesis by (simp add: unpackISUPBodies_def)
qed

theorem pack_unpack_roundtrip_witness:
  "map_option (\<lambda>blob. unpackISUPBodies blob (length [''ab'', ''c''])) (packISUPBodies [''ab'', ''c'']) =
     Some [''ab'', ''c'']"
  by (rule pack_unpack_roundtrip) simp_all

end
