(* ===== verification/Hep_Decoder.thy ===== *)
theory Hep_Decoder
  imports Hep_Proto Ip_Format Isup_Preserve
begin

text \<open>
  The HEP decoder: src/decoder/hep.go (\<open>parseHEP\<close>, \<open>parseHEP2\<close>), src/decoder/decoder.go (\<open>Decode\<close>,
  \<open>parse\<close>, the timestamp window, the payload normalisation with deduplication, JSON escaping),
  src/decoder/sip.go (\<open>parseSIP\<close>) and src/decoder/sip_capture.go (\<open>ApplyCapturedSIP\<close>).

  What the code takes from outside is the record \<open>env\<close>: the hash \<open>xxhash.Sum64String\<close>, the cache
  (\<open>fastcache\<close>), \<open>mime.ParseMediaType\<close> and the legacy configuration \<open>homerconfig.MainConfig\<close>. The
  cache is a state \<open>'c\<close> passed through the calls. The clock is an argument \<open>now\<close>.
\<close>

record 'c env =
  xxhash_Sum64 :: "string \<Rightarrow> 64 word"
  cache_Get :: "'c \<Rightarrow> bytes \<Rightarrow> bytes option"
  cache_Set :: "'c \<Rightarrow> bytes \<Rightarrow> bytes \<Rightarrow> 'c"
  env_mp :: media_parser
  MainConfig :: "decoder_config option"

text \<open>\<open>h.decoder.config\<close>, else \<open>homerconfig.MainConfig\<close>, else the defaults of the function.\<close>

definition active_config :: "'c env \<Rightarrow> hep \<Rightarrow> decoder_config option" where
  "active_config E h = (case h_decoder h of Some c \<Rightarrow> Some c | None \<Rightarrow> MainConfig E)"

definition cfg_get :: "'c env \<Rightarrow> hep \<Rightarrow> 'a \<Rightarrow> (decoder_config \<Rightarrow> 'a) \<Rightarrow> 'a" where
  "cfg_get E h dflt sel = (case active_config E h of Some c \<Rightarrow> sel c | None \<Rightarrow> dflt)"

subsection \<open>HEP version 3\<close>

text \<open>
  The chunk types of decoder.go: 1 Version, 2 Protocol, 3/4 IPv4 source/destination, 5/6 IPv6
  source/destination, 7/8 ports, 9 Tsec, 10 Tmsec, 11 ProtoType, 12 NodeID, 14 NodePW, 15 Payload,
  17 CID, 18 Vlan, 19 NodeName. \<open>chunk_size\<close> is the first switch of \<open>parseHEP\<close>.
\<close>

definition chunk_size :: "nat \<Rightarrow> nat option" where
  "chunk_size t =
     (if t \<in> {1, 2, 11} then Some 1
      else if t \<in> {7, 8, 18} then Some 2
      else if t \<in> {3, 4, 9, 10, 12} then Some 4
      else if t \<in> {5, 6} then Some 16
      else None)"

definition proto_string :: "32 word \<Rightarrow> string" where
  "proto_string p =
     (if p = 1 then ''sip'' else if p = 5 then ''rtcp'' else if p = 34 then ''rtpagent''
      else if p = 35 then ''rtcpxr'' else if p = 38 then ''horaclifix'' else if p = 53 then ''dns''
      else if p = 56 then ''diameter'' else if p = 100 then ''log''
      else Itoa (unat p))"

definition byte32 :: "bytes \<Rightarrow> 32 word" where
  "byte32 b = word_of_nat (byte_val (b ! 0))"

text \<open>The second switch; the sizes are known to be right when it runs.\<close>

definition apply_chunk :: "nat \<Rightarrow> bytes \<Rightarrow> hep \<Rightarrow> hep" where
  "apply_chunk t b h =
     (if t = 1 then h\<lparr>h_Version := byte32 b\<rparr>
      else if t = 2 then h\<lparr>h_Protocol := byte32 b\<rparr>
      else if t = 3 then h\<lparr>h_SrcIP := ipv4BytesToString b\<rparr>
      else if t = 4 then h\<lparr>h_DstIP := ipv4BytesToString b\<rparr>
      else if t = 5 then h\<lparr>h_SrcIP := ipv6BytesToString b\<rparr>
      else if t = 6 then h\<lparr>h_DstIP := ipv6BytesToString b\<rparr>
      else if t = 7 then h\<lparr>h_SrcPort := ucast (be16 b)\<rparr>
      else if t = 8 then h\<lparr>h_DstPort := ucast (be16 b)\<rparr>
      else if t = 9 then h\<lparr>h_Tsec := be32 b\<rparr>
      else if t = 10 then h\<lparr>h_Tmsec := be32 b\<rparr>
      else if t = 11 then h\<lparr>h_ProtoType := byte32 b, h_ProtoString := proto_string (byte32 b)\<rparr>
      else if t = 12 then h\<lparr>h_NodeID := be32 b\<rparr>
      else if t = 14 then h\<lparr>h_NodePW := b\<rparr>
      else if t = 15 then h\<lparr>h_Payload := b\<rparr>
      else if t = 17 then h\<lparr>h_CID := b\<rparr>
      else if t = 18 then h\<lparr>h_Vlan := ucast (be16 b)\<rparr>
      else if t = 19 then h\<lparr>h_NodeName := b\<rparr>
      else h)"

text \<open>One iteration: the chunk at the cursor, its length, and the message after it.\<close>

definition parse_chunk :: "bytes \<Rightarrow> hep \<Rightarrow> (hep_error, 16 word \<times> hep) go_result" where
  "parse_chunk hepChunk h =
     (if length hepChunk < 6 then Fails (ErrChunkShort (length hepChunk))
      else
        let chunkType = unat (be16 (drop 2 hepChunk)); chunkLength = be16 (drop 4 hepChunk)
        in if length hepChunk < unat chunkLength \<or> unat chunkLength < 6
           then Fails (ErrChunkLength (length hepChunk) (unat chunkLength))
           else
             go_bind (go_slice hepChunk 6 (unat chunkLength)) (\<lambda>chunkBody.
               case chunk_size chunkType of
                 Some k \<Rightarrow>
                   if length chunkBody \<noteq> k then Fails (ErrChunkSize chunkType k (length chunkBody))
                   else Returns (chunkLength, apply_chunk chunkType chunkBody h)
               | None \<Rightarrow> Returns (chunkLength, apply_chunk chunkType chunkBody h)))"

text \<open>
  The loop \<^verbatim>\<open>for currentByte < length\<close>. The cursor is a \<open>uint16\<close> and \<open>currentByte += chunkLength\<close> wraps,
  so nothing in the loop alone makes it end; \<open>None\<close> is a loop that does not. \<open>parseHEP\<close> checks the
  packet length first, and \<open>parseHEP_total\<close> shows that it always returns.
\<close>

partial_function (option) parseHEP_loop ::
  "bytes \<Rightarrow> 16 word \<Rightarrow> 16 word \<Rightarrow> hep \<Rightarrow> (hep_error, hep) go_result option" where
  "parseHEP_loop packet len currentByte h =
     (if \<not> currentByte < len then Some (Returns h)
      else if length packet < unat currentByte then Some Panics
      else case parse_chunk (drop (unat currentByte) packet) h of
        Fails e \<Rightarrow> Some (Fails e)
      | Panics \<Rightarrow> Some Panics
      | Returns r \<Rightarrow> parseHEP_loop packet len (currentByte + fst r) (snd r))"

definition parseHEP :: "hep \<Rightarrow> bytes \<Rightarrow> (hep_error, hep) go_result option" where
  "parseHEP h packet =
     (case go_slice packet 4 6 of
        Panics \<Rightarrow> Some Panics
      | Fails e \<Rightarrow> Some (Fails e)
      | Returns b \<Rightarrow>
          let len = be16 b
          in if unat len \<noteq> length packet then Some (Fails (ErrHepLength (length packet) (unat len)))
             else parseHEP_loop packet len 6 h)"

subsection \<open>HEP versions 1 and 2\<close>

definition hep2_addresses :: "bytes \<Rightarrow> char \<Rightarrow> (hep_error, string \<times> string \<times> nat) go_result" where
  "hep2_addresses packet family =
     (if byte_val family = 10 then
        go_bind (go_slice packet 8 24) (\<lambda>s. go_bind (go_slice packet 24 40) (\<lambda>d.
          Returns (ipv6BytesToString s, ipv6BytesToString d, 40)))
      else
        go_bind (go_slice packet 8 12) (\<lambda>s. go_bind (go_slice packet 12 16) (\<lambda>d.
          Returns (ipv4BytesToString s, ipv4BytesToString d, 16))))"

definition hep2_tail :: "bytes \<Rightarrow> nat \<Rightarrow> hep \<Rightarrow> (hep_error, hep) go_result" where
  "hep2_tail packet totalLen h =
     go_bind
       (if h_Version h = 2 then
          go_bind (go_slice packet totalLen (totalLen + 4)) (\<lambda>sec.
          go_bind (go_slice packet (totalLen + 4) (totalLen + 8)) (\<lambda>usec.
          go_bind (go_slice packet (totalLen + 8) (totalLen + 10)) (\<lambda>cid.
          Returns (totalLen + 10, h\<lparr>h_Tsec := be32 sec, h_Tmsec := be32 usec, h_CID := cid\<rparr>))))
        else Returns (totalLen, h))
       (\<lambda>(n, h'). go_bind (go_slice packet n (length packet)) (\<lambda>p. Returns (h'\<lparr>h_Payload := p\<rparr>)))"

definition parseHEP2 :: "hep \<Rightarrow> bytes \<Rightarrow> (hep_error, hep) go_result" where
  "parseHEP2 h packet =
     go_bind (go_index packet 0) (\<lambda>version.
     go_bind (go_index packet 2) (\<lambda>family.
     go_bind (go_index packet 3) (\<lambda>protocol.
     go_bind (go_slice packet 4 6) (\<lambda>srcPort.
     go_bind (go_slice packet 6 8) (\<lambda>dstPort.
     go_bind (hep2_addresses packet family) (\<lambda>(srcIP, dstIP, totalLen).
     hep2_tail packet totalLen
       (h\<lparr>h_ProtoString := ''sip'', h_ProtoType := 1, h_Version := word_of_nat (byte_val version),
          h_Protocol := word_of_nat (byte_val protocol), h_SrcPort := ucast (be16 srcPort),
          h_DstPort := ucast (be16 dstPort), h_SrcIP := srcIP, h_DstIP := dstIP\<rparr>)))))))"

subsection \<open>The timestamp window\<close>

definition ntpUnixOffset :: "32 word" where
  "ntpUnixOffset = 2208988800"

definition hepTimestampPastWindow :: int where
  "hepTimestampPastWindow = 10 * 365 * 24 * 3600 * 10 ^ 9"

definition hepTimestampFutureWindow :: int where
  "hepTimestampFutureWindow = 24 * 3600 * 10 ^ 9"

definition time_Unix :: "32 word \<Rightarrow> 32 word \<Rightarrow> int" where
  "time_Unix sec usec = uint sec * 10 ^ 9 + uint usec * 1000"

definition hepTimestampInWindow :: "int \<Rightarrow> int \<Rightarrow> bool" where
  "hepTimestampInWindow ts now =
     (if now + hepTimestampFutureWindow < ts then False
      else if ts < now - hepTimestampPastWindow then False
      else True)"

definition applyTimestamp :: "int \<Rightarrow> hep \<Rightarrow> hep" where
  "applyTimestamp ts h =
     h\<lparr>h_Timestamp := ts, h_Tsec := word_of_int (ts div 10 ^ 9),
       h_Tmsec := word_of_int (ts mod 10 ^ 9 div 1000)\<rparr>"

definition sanitizeHEPTimestamp :: "int \<Rightarrow> hep \<Rightarrow> hep" where
  "sanitizeHEPTimestamp now h0 =
     (let h = (if 1000000 \<le> h_Tmsec h0 then h0\<lparr>h_Tmsec := 0\<rparr> else h0)
      in if h_Tsec h = 0 then applyTimestamp now h
         else
           let ts = time_Unix (h_Tsec h) (h_Tmsec h);
               converted = time_Unix (h_Tsec h - ntpUnixOffset) (h_Tmsec h)
           in if hepTimestampInWindow ts now then applyTimestamp ts h
              else if ntpUnixOffset < h_Tsec h \<and> hepTimestampInWindow converted now
              then applyTimestamp converted h
              else applyTimestamp now h)"

subsection \<open>Payload normalisation and deduplication\<close>

text \<open>\<open>binary.BigEndian.Uint64\<close> reads \<open>b[7]\<close> first: a shorter slice panics.\<close>

definition Uint64 :: "bytes \<Rightarrow> (hep_error, 64 word) go_result" where
  "Uint64 b = (if length b < 8 then Panics else Returns (word_of_nat (be_val (take 8 b))))"

definition PutUint64 :: "64 word \<Rightarrow> bytes" where
  "PutUint64 v = be_bytes 8 (unat v)"

text \<open>\<open>Some true\<close> in the first component: the payload was seen less than 500 ms ago.\<close>

definition dedup_check :: "'c env \<Rightarrow> 'c \<Rightarrow> hep \<Rightarrow> (hep_error, bool \<times> 'c) go_result" where
  "dedup_check E cache h =
     (let ts = word_of_int (h_Timestamp h) :: 64 word;
          kh = PutUint64 (xxhash_Sum64 E (h_Payload h));
          store = cache_Set E cache kh (PutUint64 ts)
      in case cache_Get E cache kh of
           None \<Rightarrow> Returns (False, store)
         | Some buf \<Rightarrow>
             go_bind (Uint64 buf) (\<lambda>i.
               let d = (if ts < i then i - ts else ts - i)
               in if d < 500000000 then Returns (True, cache) else Returns (False, store)))"

definition clean_payload :: "'c env \<Rightarrow> hep \<Rightarrow> hep" where
  "clean_payload E h =
     (let h1 = (if h_ProtoType h = 1
                then (let (p, b) = DetachISUPBody (env_mp E) (h_Payload h)
                      in h\<lparr>h_Payload := p, h_ISUPBody := b\<rparr>)
                else h)
      in h1\<lparr>h_Payload := toUTF8 (h_Payload h1) []\<rparr>)"

definition normPayload :: "'c env \<Rightarrow> 'c \<Rightarrow> hep \<Rightarrow> (hep_error, hep \<times> 'c) go_result" where
  "normPayload E cache h =
     (if cfg_get E h False Deduplicate then
        go_bind (dedup_check E cache h) (\<lambda>(dup, cache').
          if dup then Returns (h\<lparr>h_ProtoType := 0\<rparr>, cache')
          else Returns (clean_payload E h, cache'))
      else Returns (clean_payload E h, cache))"

subsection \<open>The SIP payload\<close>

definition zc_options :: "'c env \<Rightarrow> hep \<Rightarrow> zc_opts option" where
  "zc_options E h =
     (case active_config E h of
        None \<Rightarrow> None
      | Some c \<Rightarrow>
          if 0 < length (cfg_AlegIDs c) \<or> 0 < length (cfg_CustomHeaders c)
          then Some \<lparr>AlegIDs = cfg_AlegIDs c, CustomHeaders = cfg_CustomHeaders c\<rparr> else None)"

definition sip_profile :: "string \<Rightarrow> string" where
  "sip_profile m =
     (if m \<in> {''INVITE'', ''ACK'', ''BYE'', ''CANCEL'', ''UPDATE'', ''PRACK'', ''REFER'', ''INFO''}
      then ''call''
      else if m = ''REGISTER'' then ''registration'' else ''default'')"

definition select_cid :: "bool \<Rightarrow> string \<Rightarrow> sip_msg \<Rightarrow> string" where
  "select_cid forceALegID cid s =
     (if cid = [] then (if XCallID s \<noteq> [] then XCallID s else CallID s)
      else if forceALegID \<and> XCallID s \<noteq> [] then XCallID s
      else cid)"

definition parseSIP :: "'c env \<Rightarrow> hep \<Rightarrow> (hep_error, hep) go_result" where
  "parseSIP E h =
     (let s = ParseMsgZeroCopy (h_Payload h) (zc_options E h)
      in case sm_Error s of
           Some e \<Rightarrow> Fails (ErrSip e)
         | None \<Rightarrow>
             if length (CseqMethod s) < 3 then Fails ErrNoCSeq
             else if length (CallID s) < 1 then Fails ErrNoCallID
             else
               let s1 = (if FirstMethod s = [] then s\<lparr>FirstMethod := FirstResp s\<rparr> else s);
                   s2 = s1\<lparr>sm_Profile := sip_profile (CseqMethod s1)\<rparr>
               in Returns (h\<lparr>h_SIP := Some s2, h_CID := select_cid (cfg_get E h False ForceALegID) (h_CID h) s2,
                             h_SID := CallID s2\<rparr>))"

subsection \<open>Decode\<close>

text \<open>\<open>h.Payload[:len(h.Payload)-lb]\<close> panics when the body is longer than the payload.\<close>

fun censor_loop :: "string list \<Rightarrow> sip_msg \<Rightarrow> string \<Rightarrow> (hep_error, sip_msg \<times> string) go_result" where
  "censor_loop [] s payload = Returns (s, payload)"
| "censor_loop (m # ms) s payload =
     (if m = CseqMethod s then
        (let lb = length (sm_Body s); body = replicate lb CHR ''x''
         in if length payload < lb then Panics
            else censor_loop ms (s\<lparr>sm_Body := body\<rparr>) (take (length payload - lb) payload @ body))
      else censor_loop ms s payload)"

text \<open>The part of \<open>parse\<close> for a SIP payload; \<open>True\<close> says that it returned early (discarded).\<close>

definition parse_sip_part :: "'c env \<Rightarrow> hep \<Rightarrow> (hep_error, bool \<times> hep) go_result" where
  "parse_sip_part E h =
     go_bind (parseSIP E h) (\<lambda>h1.
       case h_SIP h1 of
         None \<Rightarrow> Panics
       | Some s \<Rightarrow>
           go_bind (censor_loop (cfg_get E h [] CensorMethods) s (h_Payload h1)) (\<lambda>(s', payload).
             let h2 = h1\<lparr>h_SIP := Some s', h_Payload := payload\<rparr>
             in if CseqMethod s' \<in> set (cfg_get E h [] DiscardMethods)
                then Returns (True, h2\<lparr>h_ProtoType := 0\<rparr>)
                else Returns (False, h2)))"

definition default_node_name :: "hep \<Rightarrow> hep" where
  "default_node_name h = (if h_NodeName h = [] then h\<lparr>h_NodeName := Itoa (unat (h_NodeID h))\<rparr> else h)"

text \<open>Everything that \<open>parse\<close> does after the packet has been read.\<close>

definition finish_parse :: "'c env \<Rightarrow> 'c \<Rightarrow> int \<Rightarrow> hep \<Rightarrow> (hep_error, hep \<times> 'c) go_result" where
  "finish_parse E cache now h0 =
     go_bind (normPayload E cache (sanitizeHEPTimestamp now h0)) (\<lambda>(h, cache').
       if h_ProtoType h = 0 then Returns (h, cache')
       else if h_ProtoType h = 1 \<and> 32 < length (h_Payload h) then
         go_bind (parse_sip_part E h) (\<lambda>(discarded, h').
           Returns (if discarded then h' else default_node_name h', cache'))
       else Returns (default_node_name h, cache'))"

definition read_packet :: "'c env \<Rightarrow> hep \<Rightarrow> bytes \<Rightarrow> (hep_error, hep) go_result option" where
  "read_packet E h packet =
     (if HasPrefix packet ''HEP3'' then parseHEP h packet
      else if cfg_get E h True HepV2Enable
              \<and> (HasPrefix packet [byte_of 1] \<or> HasPrefix packet [byte_of 2])
      then Some (parseHEP2 h packet)
      else if cfg_get E h True ProtobufEnable then Unmarshal h packet
      else Some (Fails ErrNotRecognized))"

definition parse :: "'c env \<Rightarrow> 'c \<Rightarrow> int \<Rightarrow> hep \<Rightarrow> bytes \<Rightarrow> (hep_error, hep \<times> 'c) go_result option" where
  "parse E cache now h packet =
     map_option (\<lambda>r. go_bind r (finish_parse E cache now)) (read_packet E h packet)"

definition Decode ::
  "'c env \<Rightarrow> 'c \<Rightarrow> int \<Rightarrow> decoder_config option \<Rightarrow> bytes \<Rightarrow> (hep_error, hep \<times> 'c) go_result option" where
  "Decode E cache now d packet = parse E cache now (acquireHEP d) packet"

definition empty_config :: decoder_config where
  "empty_config =
     \<lparr>HepV2Enable = False, HepV3Enable = False, ProtobufEnable = False, Deduplicate = False,
      cfg_AlegIDs = [], cfg_CustomHeaders = [], ForceALegID = False, CensorMethods = [],
      DiscardMethods = [], ForceHEPPayload = []\<rparr>"

definition NewDecoder :: "decoder_config option \<Rightarrow> decoder_config" where
  "NewDecoder cfg = (case cfg of None \<Rightarrow> empty_config | Some c \<Rightarrow> c)"

definition DecodeHEP :: "'c env \<Rightarrow> 'c \<Rightarrow> int \<Rightarrow> bytes \<Rightarrow> (hep_error, hep \<times> 'c) go_result option" where
  "DecodeHEP E cache now packet = Decode E cache now (Some empty_config) packet"

definition ShouldForcePayload :: "hep \<Rightarrow> bool" where
  "ShouldForcePayload h =
     (case h_decoder h of
        None \<Rightarrow> False
      | Some c \<Rightarrow> list_ex (\<lambda>pt. word_of_int pt = h_ProtoType h) (ForceHEPPayload c))"

text \<open>\<open>nano % 1e9\<close> truncates toward zero in Go; the conversion to \<open>uint32\<close> wraps.\<close>

definition ApplyCapturedSIP ::
  "'c env \<Rightarrow> decoder_config option \<Rightarrow> hep \<Rightarrow> string \<Rightarrow> string \<Rightarrow> 32 word \<Rightarrow> 32 word \<Rightarrow> 32 word \<Rightarrow> string
    \<Rightarrow> int \<Rightarrow> 32 word \<Rightarrow> (hep_error, hep) go_result" where
  "ApplyCapturedSIP E d h srcIP dstIP srcPort dstPort ipProto payload nano nodeID =
     (let sec = (if nano < 0 then 0 else nano div 10 ^ 9);
          rest = (if nano < 0 then - ((- nano) mod 10 ^ 9) else nano mod 10 ^ 9);
          usec = (if rest < 0 then - ((- rest) div 1000) else rest div 1000);
          (p, b) = DetachISUPBody (env_mp E) payload
      in parseSIP E
           (h\<lparr>h_decoder := Some (case d of None \<Rightarrow> empty_config | Some c \<Rightarrow> c), h_Version := 2,
              h_Protocol := ipProto, h_SrcIP := srcIP, h_DstIP := dstIP, h_SrcPort := srcPort,
              h_DstPort := dstPort, h_Tsec := word_of_int sec, h_Tmsec := word_of_int usec,
              h_ProtoType := 1, h_NodeID := nodeID, h_Payload := p, h_ISUPBody := b\<rparr>))"

subsection \<open>JSON strings\<close>

definition hex4 :: "nat \<Rightarrow> string" where
  "hex4 v = [CHR ''0'', CHR ''0'', hex_lower (v div 16), hex_lower (v mod 16)]"

definition json_escape :: "char \<Rightarrow> string option" where
  "json_escape c =
     (if c = CHR 0x22 then Some [CHR 0x5C, CHR 0x22]
      else if c = CHR 0x5C then Some [CHR 0x5C, CHR 0x5C]
      else if c = CHR 0x0A then Some [CHR 0x5C, CHR ''n'']
      else if c = CHR 0x0D then Some [CHR 0x5C, CHR ''r'']
      else if c = CHR 0x09 then Some [CHR 0x5C, CHR ''t'']
      else if c = CHR 0x0C then Some (CHR 0x5C # ''u000c'')
      else if c = CHR 0x08 then Some (CHR 0x5C # ''u0008'')
      else if byte_val c < 32 then Some (CHR 0x5C # CHR ''u'' # hex4 (byte_val c))
      else None)"

text \<open>
  The loop over \<open>b\<close> with the start \<open>j\<close> of the pending run: an escaped byte first writes \<open>b[j:i]\<close>.
  The result is what has been written to \<open>w\<close>.
\<close>

fun WriteJSONString_loop :: "bytes \<Rightarrow> nat \<Rightarrow> nat \<Rightarrow> nat \<Rightarrow> string" where
  "WriteJSONString_loop b j i 0 = drop j b"
| "WriteJSONString_loop b j i (Suc n) =
     (case json_escape (b ! i) of
        Some e \<Rightarrow> take (i - j) (drop j b) @ e @ WriteJSONString_loop b (i + 1) (i + 1) n
      | None \<Rightarrow> WriteJSONString_loop b j (i + 1) n)"

definition WriteJSONString :: "string \<Rightarrow> string" where
  "WriteJSONString s = WriteJSONString_loop s 0 0 (length s)"

definition EscapeFields :: "sip_msg \<Rightarrow> string \<Rightarrow> string" where
  "EscapeFields s tag =
     (if tag = ''callid'' then WriteJSONString (CallID s)
      else if tag = ''cseq'' then WriteJSONString (CseqVal s)
      else if tag = ''method'' then WriteJSONString (FirstMethod s)
      else if tag = ''ruri_user'' then WriteJSONString (URIUser s)
      else if tag = ''ruri_domain'' then WriteJSONString (URIHost s)
      else if tag = ''from_user'' then WriteJSONString (FromUser s)
      else if tag = ''from_domain'' then WriteJSONString (FromHost s)
      else if tag = ''from_tag'' then WriteJSONString (FromTag s)
      else if tag = ''to_user'' then WriteJSONString (ToUser s)
      else if tag = ''to_domain'' then WriteJSONString (ToHost s)
      else if tag = ''to_tag'' then WriteJSONString (ToTag s)
      else if tag = ''via'' then WriteJSONString (ViaOne s)
      else if tag = ''contact_user'' then WriteJSONString (ContactUser s)
      else if tag = ''contact_domain'' then WriteJSONString (ContactHost s)
      else if tag = ''user_agent'' then WriteJSONString (UserAgent s)
      else if tag = ''pid_user'' then WriteJSONString (PaiUser s)
      else if tag = ''auth_user'' then WriteJSONString (AuthUser s)
      else if tag = ''server'' then WriteJSONString (Server s)
      else if tag = ''content_type'' then WriteJSONString (ContentType s)
      else if tag = ''reason'' then WriteJSONString (ReasonVal s)
      else if tag = ''diversion'' then WriteJSONString (DiversionVal s)
      else if tag = ''expires'' then WriteJSONString (Expires s)
      else if tag = ''callid_aleg'' then WriteJSONString (XCallID s)
      else [])"

subsection \<open>The chunk loop ends\<close>

lemma unat16_less: "unat (w :: 16 word) < 2 ^ 16"
proof -
  have "unat w < 2 ^ LENGTH(16)" by (rule unsigned_less)
  then show ?thesis by simp
qed

lemma parse_chunk_Returns:
  "parse_chunk c h = Returns r \<Longrightarrow> 6 \<le> unat (fst r) \<and> unat (fst r) \<le> length c"
  by (auto simp: parse_chunk_def go_slice_def Let_def split: if_splits option.splits)

lemma parse_chunk_not_Panics: "parse_chunk c h \<noteq> Panics"
  by (auto simp: parse_chunk_def go_slice_def Let_def split: option.splits)

lemma parseHEP_loop_total:
  assumes "unat len = length packet" and "unat cur \<le> length packet"
  shows "\<exists>r. parseHEP_loop packet len cur h = Some r \<and> r \<noteq> Panics"
  using assms(2)
proof (induction "length packet - unat cur" arbitrary: cur h rule: less_induct)
  case less
  note unfold = parseHEP_loop.simps [of packet len cur h]
  show ?case
  proof (cases "cur < len")
    case False
    then show ?thesis by (simp add: unfold)
  next
    case True
    then have lt: "unat cur < length packet" using assms(1) by (simp add: word_less_nat_alt)
    show ?thesis
    proof (cases "parse_chunk (drop (unat cur) packet) h")
      case (Returns r)
      from parse_chunk_Returns [OF this] have r: "6 \<le> unat (fst r)" "unat cur + unat (fst r) \<le> length packet"
        using lt by auto
      have "length packet < 2 ^ 16" using assms(1) unat16_less [of len] by simp
      then have "unat (cur + fst r) = unat cur + unat (fst r)"
        using r(2) by (intro unat_add_lem [THEN iffD1]) simp
      then have "\<exists>r'. parseHEP_loop packet len (cur + fst r) (snd r) = Some r' \<and> r' \<noteq> Panics"
        using r lt by (intro less) auto
      with True lt Returns show ?thesis by (simp add: unfold)
    next
      case (Fails e)
      with True lt show ?thesis by (simp add: unfold)
    next
      case Panics
      then show ?thesis by (simp add: parse_chunk_not_Panics)
    qed
  qed
qed

text \<open>
  C27. On every packet of at least six bytes the HEPv3 parser returns, with a message or an error, and
  never panics: although the cursor is a wrapping 16-bit number and every length comes from the
  packet, the length check in front and the two chunk checks keep each slice in bounds and move the
  cursor forward by at least six.
\<close>

theorem parseHEP_total:
  assumes "6 \<le> length packet"
  shows "\<exists>r. parseHEP h packet = Some r \<and> r \<noteq> Panics"
proof -
  have "parseHEP h packet =
      (let len = be16 (take 2 (drop 4 packet))
       in if unat len \<noteq> length packet then Some (Fails (ErrHepLength (length packet) (unat len)))
          else parseHEP_loop packet len 6 h)"
    using assms by (simp add: parseHEP_def go_slice_def)
  then show ?thesis
    using parseHEP_loop_total [of "be16 (take 2 (drop 4 packet))" packet 6 h] assms
    by (auto simp: Let_def)
qed

theorem parseHEP_total_witness: "\<exists>r. parseHEP (acquireHEP None) ''HEP3zz'' = Some r \<and> r \<noteq> Panics"
  by (rule parseHEP_total) simp

subsection \<open>Chunks on the wire\<close>

text \<open>
  The sender's side of the format, as the comment in front of \<open>DecoderConfig\<close> describes it: a chunk is
  a vendor, a type, the length including these six bytes, and the body; the packet is \<open>HEP3\<close>, the
  total length, and the chunks.
\<close>

type_synonym chunk = "nat \<times> nat \<times> bytes"

definition encode_chunk :: "chunk \<Rightarrow> bytes" where
  "encode_chunk c =
     (case c of (vendor, t, body) \<Rightarrow> be_bytes 2 vendor @ be_bytes 2 t @ be_bytes 2 (6 + length body) @ body)"

definition hep3_packet :: "chunk list \<Rightarrow> bytes" where
  "hep3_packet cs =
     (let payload = concat (map encode_chunk cs)
      in ''HEP3'' @ be_bytes 2 (6 + length payload) @ payload)"

definition chunk_ok :: "chunk \<Rightarrow> bool" where
  "chunk_ok c =
     (case c of (vendor, t, body) \<Rightarrow>
        t < 2 ^ 16 \<and> (case chunk_size t of None \<Rightarrow> True | Some k \<Rightarrow> length body = k))"

definition apply_chunks :: "chunk list \<Rightarrow> hep \<Rightarrow> hep" where
  "apply_chunks cs h = fold (\<lambda>(vendor, t, body). apply_chunk t body) cs h"

lemma be16_be_bytes: "n < 2 ^ 16 \<Longrightarrow> be16 (be_bytes 2 n @ r) = word_of_nat n"
  by (simp add: be16_def be_val_be_bytes del: be_bytes.simps)

lemma unat_be16_be_bytes: "n < 2 ^ 16 \<Longrightarrow> unat (be16 (be_bytes 2 n @ r)) = n"
  by (simp add: be16_be_bytes unat_of_nat16)

lemma length_encode_chunk: "length (encode_chunk (v, t, b)) = 6 + length b"
  by (simp add: encode_chunk_def del: be_bytes.simps)

lemma parse_chunk_ok:
  assumes "unat (be16 (drop 2 c)) = t" and "unat (be16 (drop 4 c)) = k"
    and "6 \<le> k" and "k \<le> length c" and "chunk_ok (v, t, take (k - 6) (drop 6 c))"
  shows "parse_chunk c h = Returns (be16 (drop 4 c), apply_chunk t (take (k - 6) (drop 6 c)) h)"
  using assms by (auto simp: parse_chunk_def go_slice_def Let_def chunk_ok_def split: option.splits)

lemma parse_encode_chunk:
  assumes "chunk_ok (v, t, b)" and "6 + length b < 2 ^ 16"
  shows "parse_chunk (encode_chunk (v, t, b) @ r) h = Returns (word_of_nat (6 + length b), apply_chunk t b h)"
proof -
  let ?c = "encode_chunk (v, t, b) @ r"
  have d2: "drop 2 ?c = be_bytes 2 t @ be_bytes 2 (6 + length b) @ b @ r"
    and d4: "drop 4 ?c = be_bytes 2 (6 + length b) @ b @ r" and d6: "drop 6 ?c = b @ r"
    by (simp_all add: encode_chunk_def del: be_bytes.simps)
  have t: "unat (be16 (drop 2 ?c)) = t"
    unfolding d2 using assms(1) by (intro unat_be16_be_bytes) (simp add: chunk_ok_def)
  have l: "be16 (drop 4 ?c) = word_of_nat (6 + length b)" "unat (be16 (drop 4 ?c)) = 6 + length b"
    unfolding d4 using assms(2) be16_be_bytes unat_be16_be_bytes by blast+
  have body: "take (6 + length b - 6) (drop 6 ?c) = b" unfolding d6 by simp
  from parse_chunk_ok [OF t l(2), of v h] show ?thesis
    unfolding body l(1) using assms(1) by (simp add: length_encode_chunk)
qed

lemma parseHEP_loop_chunks:
  assumes "unat len = length packet" and "packet = pre @ concat (map encode_chunk cs)"
    and "\<forall>c\<in>set cs. chunk_ok c"
  shows "parseHEP_loop packet len (word_of_nat (length pre)) h = Some (Returns (apply_chunks cs h))"
  using assms(2,3)
proof (induction cs arbitrary: pre h)
  case Nil
  then have "\<not> word_of_nat (length pre) < len" using assms(1) by (metis append_Nil2 concat.simps(1) list.map(1) of_nat_unat order.irrefl ucast_id)
  then show ?case by (simp add: parseHEP_loop.simps apply_chunks_def)
next
  case (Cons c cs)
  obtain v t b where c: "c = (v, t, b)" by (cases c)
  let ?cur = "word_of_nat (length pre) :: 16 word"
  have small: "length packet < 2 ^ 16" using assms(1) unat16_less [of len] by simp
  have plen: "length packet = length pre + (6 + length b) + length (concat (map encode_chunk cs))"
    using Cons.prems(1) by (simp add: c length_encode_chunk)
  then have cur: "unat ?cur = length pre" using small by (intro unat_of_nat16) simp
  have lt: "?cur < len" using cur plen assms(1) by (simp add: word_less_nat_alt)
  have "parse_chunk (drop (length pre) packet) h = Returns (word_of_nat (6 + length b), apply_chunk t b h)"
    using Cons.prems plen small parse_encode_chunk [of v t b] by (simp add: c)
  moreover have "parseHEP_loop packet len (word_of_nat (length (pre @ encode_chunk c))) (apply_chunk t b h) =
      Some (Returns (apply_chunks cs (apply_chunk t b h)))"
    using Cons.prems by (intro Cons.IH) simp_all
  ultimately show ?case
    using lt cur plen
    by (simp add: parseHEP_loop.simps [of packet len ?cur] c length_encode_chunk apply_chunks_def algebra_simps)
qed

lemma parseHEP_hep3_packet:
  assumes "\<forall>c\<in>set cs. chunk_ok c" and "length (hep3_packet cs) < 2 ^ 16"
  shows "parseHEP h (hep3_packet cs) = Some (Returns (apply_chunks cs h))"
proof -
  let ?p = "hep3_packet cs" and ?body = "concat (map encode_chunk cs)"
  let ?pre = "''HEP3'' @ be_bytes 2 (6 + length ?body)"
  have len: "length ?p = 6 + length ?body" by (simp add: hep3_packet_def Let_def del: be_bytes.simps)
  have "take 2 (drop 4 ?p) = be_bytes 2 (6 + length ?body) @ []"
    by (simp add: hep3_packet_def Let_def del: be_bytes.simps)
  then have u: "unat (be16 (take 2 (drop 4 ?p))) = length ?p"
    using assms(2) len by (simp only: unat_be16_be_bytes)
  have pre: "length ?pre = 6" by (simp del: be_bytes.simps)
  have "?p = ?pre @ ?body" by (simp add: hep3_packet_def Let_def del: be_bytes.simps)
  from parseHEP_loop_chunks [OF u this assms(1), of h]
  have "parseHEP_loop ?p (be16 (take 2 (drop 4 ?p))) 6 h = Some (Returns (apply_chunks cs h))"
    unfolding pre by simp
  with u len show ?thesis by (simp add: parseHEP_def go_slice_def)
qed

text \<open>
  C25. A well-formed HEPv3 packet is decoded completely and in order: for every list of chunks whose
  fixed-size bodies have the right size and that fits the 16-bit total length, the parser accepts the
  packet and the message is the result of applying the chunks from left to right, whatever the vendor
  ids and with unknown chunk types skipped.
\<close>

theorem parseHEP_chunks:
  assumes "\<forall>c\<in>set cs. chunk_ok c" and "length (hep3_packet cs) < 2 ^ 16"
  shows "parseHEP h (hep3_packet cs) = Some (Returns (apply_chunks cs h))"
  using assms by (rule parseHEP_hep3_packet)

theorem parseHEP_chunks_witness:
  "parseHEP (acquireHEP None) (hep3_packet [(0, 11, [CHR 0x01]), (7, 99, ''?''), (0, 15, ''abc'')]) =
     Some (Returns ((acquireHEP None)\<lparr>h_ProtoType := 1, h_ProtoString := ''sip'', h_Payload := ''abc''\<rparr>))"
proof -
  let ?cs = "[(0, 11, [CHR 0x01]), (7, 99, ''?''), (0, 15, ''abc'')] :: chunk list"
  have "parseHEP (acquireHEP None) (hep3_packet ?cs) = Some (Returns (apply_chunks ?cs (acquireHEP None)))"
    by (rule parseHEP_chunks) (simp_all add: chunk_ok_def chunk_size_def hep3_packet_def encode_chunk_def)
  then show ?thesis by (simp add: apply_chunks_def apply_chunk_def byte32_def proto_string_def)
qed

subsection \<open>Timestamps\<close>

lemma applyTimestamp_sync:
  assumes "0 \<le> ts" and "ts < 2 ^ 32 * 10 ^ 9"
  shows "h_Timestamp (applyTimestamp ts h) = ts \<and>
    h_Timestamp (applyTimestamp ts h) - time_Unix (h_Tsec (applyTimestamp ts h)) (h_Tmsec (applyTimestamp ts h)) \<in> {0..<1000} \<and>
    unat (h_Tmsec (applyTimestamp ts h)) < 1000000"
proof -
  let ?s = "ts div 10 ^ 9" and ?u = "ts mod 10 ^ 9 div 1000"
  have s: "0 \<le> ?s" "?s < 2 ^ 32" and u: "0 \<le> ?u" "?u < 1000000"
    using assms by (auto simp: div_less_iff_less_mult)
  then have "uint (word_of_int ?s :: 32 word) = ?s" "uint (word_of_int ?u :: 32 word) = ?u"
    by (simp_all add: unsigned_of_int take_bit_int_eq_self)
  moreover have "ts - (?s * 10 ^ 9 + ?u * 1000) = ts mod 10 ^ 9 mod 1000"
    by (metis add_diff_cancel_left' diff_diff_eq div_mult_mod_eq)
  ultimately show ?thesis
    using u by (auto simp: applyTimestamp_def time_Unix_def unat_eq_nat_uint nat_less_iff)
qed

lemma sanitize_cases:
  "\<exists>ts h'. sanitizeHEPTimestamp now h = applyTimestamp ts h' \<and> (ts = now \<or> hepTimestampInWindow ts now \<and> 0 \<le> ts \<and> ts < 2 ^ 32 * 10 ^ 9)"
proof -
  have ts: "0 \<le> time_Unix a b \<and> time_Unix a b < 2 ^ 32 * 10 ^ 9 " if "b < 1000000" for a b :: "32 word"
  proof -
    have "uint a < 2 ^ LENGTH(32)" by (rule unsigned_less)
    moreover have "uint b < 1000000" using that by (simp add: word_less_alt)
    ultimately show ?thesis by (simp add: time_Unix_def)
  qed
  let ?h = "if 1000000 \<le> h_Tmsec h then h\<lparr>h_Tmsec := 0\<rparr> else h"
  have "h_Tmsec ?h < 1000000" by (auto simp: not_le)
  with ts show ?thesis
    unfolding sanitizeHEPTimestamp_def Let_def by metis
qed

text \<open>
  Whatever seconds and microseconds a packet claims, the timestamp that is stored lies between ten
  years (of 365 days) before and one day after the receive time, the microseconds are below one
  million, and the three time fields agree to the microsecond, so the date partition derived from the
  timestamp is never far from the clock. The clock itself is taken to be between 1970 and 2106.
\<close>

theorem sanitize_window:
  assumes "0 \<le> now" and "now < 2 ^ 32 * 10 ^ 9"
  shows "let h' = sanitizeHEPTimestamp now h
    in now - hepTimestampPastWindow \<le> h_Timestamp h' \<and> h_Timestamp h' \<le> now + hepTimestampFutureWindow \<and>
       unat (h_Tmsec h') < 1000000 \<and>
       h_Timestamp h' - time_Unix (h_Tsec h') (h_Tmsec h') \<in> {0..<1000}"
proof -
  obtain ts h' where e: "sanitizeHEPTimestamp now h = applyTimestamp ts h'"
    and ts: "ts = now \<or> hepTimestampInWindow ts now \<and> 0 \<le> ts \<and> ts < 2 ^ 32 * 10 ^ 9"
    using sanitize_cases by blast
  then have "0 \<le> ts" "ts < 2 ^ 32 * 10 ^ 9" "now - hepTimestampPastWindow \<le> ts" "ts \<le> now + hepTimestampFutureWindow"
    using assms
    by (auto simp: hepTimestampInWindow_def hepTimestampPastWindow_def hepTimestampFutureWindow_def split: if_splits)
  with applyTimestamp_sync [of ts h'] e show ?thesis by (simp add: Let_def)
qed

theorem sanitize_window_witness:
  "let h' = sanitizeHEPTimestamp (1700000000 * 10 ^ 9) ((acquireHEP None)\<lparr>h_Tsec := 3908988800, h_Tmsec := 5\<rparr>)
    in h_Timestamp h' \<le> 1700000000 * 10 ^ 9 + hepTimestampFutureWindow"
  using sanitize_window [of "1700000000 * 10 ^ 9" "(acquireHEP None)\<lparr>h_Tsec := 3908988800, h_Tmsec := 5\<rparr>"]
  by (simp add: Let_def)

subsection \<open>The contract of the SIP parser\<close>

lemma suffix_split: "suffix b d \<Longrightarrow> d = take (length d - length b) d @ b"
  by (auto simp: suffix_def)

text \<open>
  What censoring relies on: the body that the parser reports is the end of the text it was given. The
  decoder cuts that many bytes off the payload.
\<close>

locale sip_parser =
  fixes parse_msg :: "bytes \<Rightarrow> zc_opts option \<Rightarrow> sip_msg"
  assumes body_suffix: "suffix (sm_Body (parse_msg data opts)) data"
begin

lemma body_split: "data = take (length data - length (sm_Body (parse_msg data opts))) data @ sm_Body (parse_msg data opts)"
  by (rule suffix_split [OF body_suffix])

lemma body_length: "length (sm_Body (parse_msg data opts)) \<le> length data"
  using body_suffix by (rule suffix_length_le)

end

lemma ParseMsgZeroCopy_suffix: "suffix (sm_Body (ParseMsgZeroCopy data opts)) data"
  by (auto simp: ParseMsgZeroCopy_def acquireSipMsg_def Let_def zc_frame suffix_drop split: option.split)

interpretation zc: sip_parser ParseMsgZeroCopy
  by unfold_locales (rule ParseMsgZeroCopy_suffix)

subsection \<open>Censoring\<close>

lemma censor_loop_spec:
  assumes "length (sm_Body s) \<le> length payload"
  shows "censor_loop ms s payload =
    Returns (if CseqMethod s \<in> set ms
      then (s\<lparr>sm_Body := replicate (length (sm_Body s)) CHR ''x''\<rparr>,
            take (length payload - length (sm_Body s)) payload @ replicate (length (sm_Body s)) CHR ''x'')
      else (s, payload))"
  using assms
proof (induction ms arbitrary: s payload)
  case Nil
  then show ?case by simp
next
  case (Cons m ms)
  let ?lb = "length (sm_Body s)"
  let ?s = "s\<lparr>sm_Body := replicate ?lb CHR ''x''\<rparr>"
  let ?p = "take (length payload - ?lb) payload @ replicate ?lb CHR ''x''"
  have "censor_loop ms ?s ?p = Returns (?s, ?p)"
    using Cons.prems Cons.IH [of ?s ?p] by simp
  with Cons show ?case by (auto simp: Let_def)
qed

lemma parseSIP_Returns:
  assumes "parseSIP E h = Returns h'"
  shows "\<exists>s. h_SIP h' = Some s \<and> sm_Body s = sm_Body (ParseMsgZeroCopy (h_Payload h) (zc_options E h)) \<and>
    h_Payload h' = h_Payload h \<and> CallID s \<noteq> [] \<and> 3 \<le> length (CseqMethod s) \<and> h_SID h' = CallID s \<and>
    h_CID h' = select_cid (cfg_get E h False ForceALegID) (h_CID h) s"
proof -
  define m where "m = ParseMsgZeroCopy (h_Payload h) (zc_options E h)"
  define s where "s = (if FirstMethod m = [] then m\<lparr>FirstMethod := FirstResp m\<rparr> else m)\<lparr>sm_Profile :=
    sip_profile (CseqMethod (if FirstMethod m = [] then m\<lparr>FirstMethod := FirstResp m\<rparr> else m))\<rparr>"
  have same: "sm_Body s = sm_Body m" "CallID s = CallID m" "CseqMethod s = CseqMethod m"
    by (simp_all add: s_def)
  from assms have "\<not> length (CseqMethod m) < 3" "\<not> length (CallID m) < 1"
    "h' = h\<lparr>h_SIP := Some s, h_CID := select_cid (cfg_get E h False ForceALegID) (h_CID h) s, h_SID := CallID s\<rparr>"
    by (simp_all only: parseSIP_def Let_def m_def [symmetric] s_def [symmetric] split: option.splits if_splits) auto
  with same show ?thesis by (auto simp: m_def [symmetric])
qed

lemma parseSIP_not_Panics: "parseSIP E h \<noteq> Panics"
  by (auto simp: parseSIP_def Let_def split: option.splits)

lemma parse_sip_part_eq:
  assumes "parseSIP E h = Returns h1" and "h_SIP h1 = Some s"
    and "sm_Body s = sm_Body (ParseMsgZeroCopy (h_Payload h) (zc_options E h))" and "h_Payload h1 = h_Payload h"
  shows "\<exists>s' p d. parse_sip_part E h = Returns d \<and> h_SIP (snd d) = Some s' \<and> h_Payload (snd d) = p \<and>
    CseqMethod s' = CseqMethod s \<and>
    (s', p) = (if CseqMethod s \<in> set (cfg_get E h [] CensorMethods)
      then (s\<lparr>sm_Body := replicate (length (sm_Body s)) CHR ''x''\<rparr>,
            take (length (h_Payload h) - length (sm_Body s)) (h_Payload h) @ replicate (length (sm_Body s)) CHR ''x'')
      else (s, h_Payload h))"
  using assms censor_loop_spec [of s "h_Payload h" "cfg_get E h [] CensorMethods"]
    zc.body_length [of "h_Payload h" "zc_options E h"]
  by (auto simp: parse_sip_part_def Let_def)

text \<open>
  C28. Censoring a SIP message of a listed method never panics and hides exactly the body: the payload
  keeps its length and everything in front of the body, and the body, in the payload and in the parsed
  message, becomes a run of \<open>x\<close> of the same length. Messages of other methods are untouched.
\<close>

theorem censoring:
  assumes "parseSIP E h = Returns h1" and "h_SIP h1 = Some s"
  shows "\<exists>d s'. parse_sip_part E h = Returns d \<and> h_SIP (snd d) = Some s' \<and>
    (if CseqMethod s \<in> set (cfg_get E h [] CensorMethods)
     then sm_Body s' = replicate (length (sm_Body s)) CHR ''x'' \<and>
          (\<exists>front. h_Payload h = front @ sm_Body s \<and> h_Payload (snd d) = front @ sm_Body s')
     else s' = s \<and> h_Payload (snd d) = h_Payload h)"
proof -
  from assms have s: "sm_Body s = sm_Body (ParseMsgZeroCopy (h_Payload h) (zc_options E h))" "h_Payload h1 = h_Payload h"
    using parseSIP_Returns [OF assms(1)] by auto
  have "h_Payload h = take (length (h_Payload h) - length (sm_Body s)) (h_Payload h) @ sm_Body s"
    using zc.body_split [of "h_Payload h" "zc_options E h"] s(1) by simp
  then show ?thesis
    using parse_sip_part_eq [OF assms s] by (auto split: if_splits)
qed

end
