(* ===== verification/Hep_Pipeline.thy ===== *)
theory Hep_Pipeline
  imports Hep_Decoder
begin

text \<open>
  Properties of \<open>Decode\<close> as a whole: it returns, when it can panic, what it guarantees of the stored
  payload and identifiers, deduplication, and the JSON escaping of the parsed fields.
\<close>

text \<open>A concrete environment: the cache is a map, the hash adds bytes up, no media type is known.\<close>

definition demo_env :: "(bytes \<rightharpoonup> bytes) env" where
  "demo_env =
     \<lparr>xxhash_Sum64 = (\<lambda>s. word_of_nat (sum_list (map of_char s))), cache_Get = (\<lambda>c k. c k),
      cache_Set = (\<lambda>c k v. c(k \<mapsto> v)), env_mp = (\<lambda>_. None), MainConfig = None\<rparr>"

subsection \<open>Every packet is decoded or rejected\<close>

lemma parseHEP_returns: "\<exists>r. parseHEP h packet = Some r"
proof (cases "6 \<le> length packet")
  case True
  then show ?thesis
    using parseHEP_loop_total [of "be16 (take 2 (drop 4 packet))" packet 6 h]
    by (auto simp: parseHEP_def go_slice_def Let_def)
next
  case False
  then show ?thesis by (simp add: parseHEP_def go_slice_def)
qed

lemma Unmarshal_returns: "length d < 2 ^ 62 \<Longrightarrow> \<exists>r. Unmarshal m d = Some r"
  using Unmarshal_loop_fuel [of d "proto_fuel d" 0 0 m] by (auto simp: Unmarshal_def proto_fuel_def)

lemma parse_eq: "parse E cache now h packet = map_option (\<lambda>r. go_bind r (finish_parse E cache now)) (read_packet E h packet)"
  by (simp add: parse_def)

text \<open>
  \<open>Decode\<close> returns on every packet, of any of the three formats and with any configuration: no
  packet can keep a worker in a loop.
\<close>

theorem Decode_returns:
  assumes "length packet < 2 ^ 62"
  shows "\<exists>r. Decode E cache now d packet = Some r"
  using parseHEP_returns [of "acquireHEP d" packet] Unmarshal_returns [OF assms, of "acquireHEP d"]
  by (auto simp: Decode_def parse_def read_packet_def)

theorem Decode_returns_witness:
  "\<exists>r. Decode demo_env Map.empty 5 None ''HEP3zzzz'' = Some r"
  by (rule Decode_returns) simp

subsection \<open>Panics\<close>









subsection \<open>HEP versions 1 and 2\<close>

definition hep2_needed :: "bytes \<Rightarrow> nat" where
  "hep2_needed packet =
     (if length packet < 3 then 3
      else (if byte_val (packet ! 2) = 10 then 40 else 16)
           + (if byte_val (packet ! 0) = 2 then 10 else 0))"

lemma byte32_eq_2: "(word_of_nat (byte_val c) :: 32 word) = 2 \<longleftrightarrow> byte_val c = 2"
proof -
  have "unat (word_of_nat (byte_val c) :: 32 word) = byte_val c"
    by (intro unat_of_nat32 less_trans [OF byte_val_less]) simp
  then show ?thesis by (simp only: word_unat_eq_iff) simp
qed

text \<open>
  Exactly when the HEPv1/v2 parser panics: it does so on every packet that is shorter than its
  fixed header (16 or 40 bytes by address family, ten more in version 2), and on no other. There is no
  length check, so a truncated packet is never an error.
\<close>

theorem parseHEP2_panics_iff: "parseHEP2 h packet = Panics \<longleftrightarrow> length packet < hep2_needed packet"
  by (auto simp: parseHEP2_def hep2_addresses_def hep2_tail_def hep2_needed_def go_index_def go_slice_def byte32_eq_2)

subsection \<open>The version switch\<close>

text \<open>
  The setting \<open>HepV3Enable\<close> has no effect: with every configuration, one that disables HEPv3
  included, a well-formed HEPv3 packet is decoded.
\<close>

theorem hepV3_flag_ignored:
  assumes "\<forall>c\<in>set cs. chunk_ok c" and "length (hep3_packet cs) < 2 ^ 16"
  shows "read_packet E (acquireHEP (Some (cfg\<lparr>HepV3Enable := False\<rparr>))) (hep3_packet cs) =
    Some (Returns (apply_chunks cs (acquireHEP (Some (cfg\<lparr>HepV3Enable := False\<rparr>)))))"
proof -
  have "HasPrefix (hep3_packet cs) ''HEP3''" by (simp add: hep3_packet_def Let_def)
  then show ?thesis by (simp add: read_packet_def parseHEP_hep3_packet [OF assms])
qed

theorem hepV3_flag_ignored_witness:
  "read_packet demo_env (acquireHEP (Some (empty_config\<lparr>HepV3Enable := False\<rparr>))) (hep3_packet [(0, 15, ''abc'')]) =
     Some (Returns ((acquireHEP (Some (empty_config\<lparr>HepV3Enable := False\<rparr>)))\<lparr>h_Payload := ''abc''\<rparr>))"
proof -
  let ?cs = "[(0, 15, ''abc'')] :: chunk list"
  have "\<forall>c\<in>set ?cs. chunk_ok c" "length (hep3_packet ?cs) < 2 ^ 16"
    by (simp_all add: chunk_ok_def chunk_size_def hep3_packet_def encode_chunk_def)
  from hepV3_flag_ignored [OF this, of demo_env empty_config] show ?thesis
    by (simp add: apply_chunks_def apply_chunk_def)
qed

subsection \<open>What is stored\<close>







lemma select_cid_not_Nil: "CallID s \<noteq> [] \<Longrightarrow> select_cid b cid s \<noteq> []"
  by (simp add: select_cid_def)

lemma parse_sip_part_Returns:
  assumes "parse_sip_part E h = Returns (disc, h')"
  shows "\<exists>s'. h_SIP h' = Some s' \<and> CallID s' \<noteq> [] \<and> 3 \<le> length (CseqMethod s') \<and> h_SID h' = CallID s' \<and>
    h_CID h' \<noteq> [] \<and> length (h_Payload h') = length (h_Payload h) \<and> (disc \<longrightarrow> h_ProtoType h' = 0) \<and>
    (cfg_get E h [] CensorMethods = [] \<longrightarrow> h_Payload h' = h_Payload h)"
proof -
  obtain h1 where h1: "parseSIP E h = Returns h1"
    using assms by (auto simp: parse_sip_part_def go_bind_eq_Returns)
  from parseSIP_Returns [OF this] obtain s where s: "h_SIP h1 = Some s"
    "sm_Body s = sm_Body (ParseMsgZeroCopy (h_Payload h) (zc_options E h))" "h_Payload h1 = h_Payload h"
    "CallID s \<noteq> []" "3 \<le> length (CseqMethod s)" "h_SID h1 = CallID s"
    "h_CID h1 = select_cid (cfg_get E h False ForceALegID) (h_CID h) s" by blast
  have "length (sm_Body s) \<le> length (h_Payload h)" using s(2) zc.body_length by simp
  from censor_loop_spec [OF this] assms h1 s this show ?thesis
    by (auto simp: parse_sip_part_def Let_def select_cid_not_Nil split: if_splits)
qed


text \<open>
  Every stored message is identified: its node name is never empty, and a SIP message (type 1, more
  than 32 bytes of payload) carries its parsed form, a Call-ID that is also its session id, a CSeq
  method of at least three characters and a non-empty correlation id.
\<close>

theorem stored_ids:
  assumes "finish_parse E cache now h0 = Returns (h, c)" and "h_ProtoType h \<noteq> 0"
  shows "h_NodeName h \<noteq> [] \<and>
    (h_ProtoType h = 1 \<and> 32 < length (h_Payload h) \<longrightarrow>
      (\<exists>s. h_SIP h = Some s \<and> CallID s \<noteq> [] \<and> 3 \<le> length (CseqMethod s) \<and> h_SID h = CallID s \<and> h_CID h \<noteq> []))"
proof -
  from assms(1) obtain h1 c1 where n: "normPayload E cache (sanitizeHEPTimestamp now h0) = Returns (h1, c1)"
    by (auto simp: finish_parse_def go_bind_eq_Returns)
  have h1: "h_ProtoType h1 \<noteq> 0" using assms n by (auto simp: finish_parse_def)
  show ?thesis
  proof (cases "h_ProtoType h1 = 1 \<and> 32 < length (h_Payload h1)")
    case True
    with assms(1) n h1 obtain disc h' where p: "parse_sip_part E h1 = Returns (disc, h')"
      and h: "h = (if disc then h' else default_node_name h')"
      by (auto simp: finish_parse_def go_bind_eq_Returns)
    from parse_sip_part_Returns [OF p] assms(2) h show ?thesis
      by (auto simp: default_node_name_def split: if_splits)
  next
    case False
    with assms(1) n h1 have "h = default_node_name h1" by (auto simp: finish_parse_def)
    with False show ?thesis by (auto simp: default_node_name_def split: if_splits)
  qed
qed

definition demo_log :: hep where
  "demo_log = (acquireHEP (Some empty_config))\<lparr>h_ProtoType := 100, h_Payload := [CHR 0x00, CHR ''a'', CHR 0xFF]\<rparr>"

lemma demo_log_parse:
  "finish_parse demo_env Map.empty 5000 demo_log =
     Returns (demo_log\<lparr>h_Timestamp := 5000, h_Tmsec := 5, h_Payload := ''a'', h_NodeName := ''0''\<rparr>, Map.empty)"
  by (simp add: finish_parse_def demo_log_def demo_env_def acquireHEP_def sanitizeHEPTimestamp_def
      applyTimestamp_def normPayload_def cfg_get_def active_config_def empty_config_def clean_payload_def
      toUTF8_def toUTF8_loop.simps NUL_def ValidString.simps rune_len.simps in_range_def default_node_name_def
      Itoa.simps digit_char_def char_of_def bit_0)


theorem stored_ids_witness:
  "h_NodeName (demo_log\<lparr>h_Timestamp := 5000, h_Tmsec := 5, h_Payload := ''a'', h_NodeName := ''0''\<rparr>) \<noteq> []"
  using stored_ids [OF demo_log_parse] by (simp add: demo_log_def)

subsection \<open>Deduplication\<close>

lemma Uint64_PutUint64: "Uint64 (PutUint64 v) = Returns v"
proof -
  have "unat v < 2 ^ LENGTH(64)" by (rule unsigned_less)
  then have "unat v mod 256 ^ 8 = unat v" by simp
  then show ?thesis
    by (simp add: Uint64_def PutUint64_def be_val_be_bytes del: be_bytes.simps)
qed

lemma word_distance:
  fixes a b :: int
  assumes "0 \<le> a" "a < 2 ^ 63" "0 \<le> b" "b < 2 ^ 63"
  defines "x \<equiv> word_of_int a :: 64 word" and "y \<equiv> word_of_int b :: 64 word"
  shows "(if x < y then y - x else x - y) < 500000000 \<longleftrightarrow> \<bar>a - b\<bar> < 500000000"
proof -
  have u: "uint x = a" "uint y = b"
    using assms by (simp_all add: unsigned_of_int take_bit_int_eq_self)
  have "uint (if x < y then y - x else x - y) = \<bar>a - b\<bar>"
    using u assms(1-4) by (auto simp: word_less_alt uint_minus_simple_alt uint_sub_lem [THEN iffD1])
  then show ?thesis by (simp add: word_less_alt)
qed

text \<open>
  Deduplication: after a message was let through, a later message with the same payload is dropped
  (its type becomes 0 and the cache is left alone) exactly when their timestamps are less than 500 ms
  apart; otherwise it is cleaned as usual and its timestamp replaces the stored one. This needs of the
  cache that a value just stored is found.
\<close>

theorem dedup_window:
  assumes "normPayload E cache h1 = Returns (h1', cache')" and "h_ProtoType h1' \<noteq> 0"
    and "cfg_get E h1 False Deduplicate" and "cfg_get E h2 False Deduplicate"
    and "h_Payload h2 = h_Payload h1"
    and "\<And>k v. cache_Get E (cache_Set E cache k v) k = Some v"
    and "0 \<le> h_Timestamp h1" and "h_Timestamp h1 < 2 ^ 63" and "0 \<le> h_Timestamp h2" and "h_Timestamp h2 < 2 ^ 63"
  shows "normPayload E cache' h2 =
    (if \<bar>h_Timestamp h2 - h_Timestamp h1\<bar> < 500000000 then Returns (h2\<lparr>h_ProtoType := 0\<rparr>, cache')
     else Returns (clean_payload E h2,
       cache_Set E cache' (PutUint64 (xxhash_Sum64 E (h_Payload h2))) (PutUint64 (word_of_int (h_Timestamp h2)))))"
proof -
  let ?k = "PutUint64 (xxhash_Sum64 E (h_Payload h1))" and ?t1 = "word_of_int (h_Timestamp h1) :: 64 word"
  from assms(1,3) obtain dup where dup: "dedup_check E cache h1 = Returns (dup, cache')"
    "h1' = (if dup then h1\<lparr>h_ProtoType := 0\<rparr> else clean_payload E h1)"
    by (auto simp: normPayload_def go_bind_eq_Returns split: if_splits)
  then have "\<not> dup" using assms(2) by auto
  then have c: "cache' = cache_Set E cache ?k (PutUint64 ?t1)"
    using dup(1) by (auto simp: dedup_check_def Let_def go_bind_eq_Returns split: if_splits option.splits)
  then have "cache_Get E cache' ?k = Some (PutUint64 ?t1)" using assms(6) by simp
  then show ?thesis
    using word_distance [OF assms(9,10,7,8)] assms(4,5)
    by (simp add: normPayload_def dedup_check_def Let_def Uint64_PutUint64)
qed

definition demo_dup :: "int \<Rightarrow> hep" where
  "demo_dup t = (acquireHEP (Some (empty_config\<lparr>Deduplicate := True\<rparr>)))\<lparr>h_ProtoType := 100, h_Timestamp := t\<rparr>"

theorem dedup_window_witness:
  "normPayload demo_env [PutUint64 0 \<mapsto> PutUint64 7] (demo_dup 8) =
     Returns ((demo_dup 8)\<lparr>h_ProtoType := 0\<rparr>, [PutUint64 0 \<mapsto> PutUint64 7])"
proof -
  have "normPayload demo_env Map.empty (demo_dup 7) = Returns (clean_payload demo_env (demo_dup 7), [PutUint64 0 \<mapsto> PutUint64 7])"
    by (simp add: normPayload_def cfg_get_def active_config_def demo_dup_def acquireHEP_def empty_config_def
        dedup_check_def demo_env_def Let_def)
  from dedup_window [OF this, of "demo_dup 8"] show ?thesis
    by (simp add: clean_payload_def cfg_get_def active_config_def demo_dup_def acquireHEP_def empty_config_def demo_env_def)
qed

subsection \<open>JSON escaping\<close>

definition esc :: "char \<Rightarrow> string" where
  "esc c = (case json_escape c of Some e \<Rightarrow> e | None \<Rightarrow> [c])"

lemma WriteJSONString_loop_esc:
  "j \<le> i \<Longrightarrow> i + n = length b \<Longrightarrow> \<forall>k. j \<le> k \<and> k < i \<longrightarrow> json_escape (b ! k) = None \<Longrightarrow>
    WriteJSONString_loop b j i n = concat (map esc (drop j b))"
proof (induction n arbitrary: i j)
  case 0
  have "concat (map esc xs) = xs" if "\<forall>c\<in>set xs. json_escape c = None" for xs
    using that by (induction xs) (auto simp: esc_def)
  moreover have "\<forall>c\<in>set (drop j b). json_escape c = None"
  proof
    fix c assume "c \<in> set (drop j b)"
    then obtain k where "k < length b - j" "c = b ! (j + k)" by (auto simp: in_set_conv_nth)
    with 0 show "json_escape c = None" by simp
  qed
  ultimately show ?case by simp
next
  case (Suc n)
  then have i: "i < length b" by simp
  have run: "concat (map esc (take (i - j) (drop j b))) = take (i - j) (drop j b)"
  proof -
    have "concat (map esc xs) = xs" if "\<forall>c\<in>set xs. json_escape c = None" for xs
      using that by (induction xs) (auto simp: esc_def)
    moreover have "\<forall>c\<in>set (take (i - j) (drop j b)). json_escape c = None"
      using Suc.prems i by (auto simp: in_set_conv_nth)
    ultimately show ?thesis by blast
  qed
  have parts: "drop j b = take (i - j) (drop j b) @ b ! i # drop (Suc i) b"
    using Suc.prems(1) i by (metis append_take_drop_id drop_drop Cons_nth_drop_Suc le_add_diff_inverse2 add.commute)
  show ?case
  proof (cases "json_escape (b ! i)")
    case None
    have "WriteJSONString_loop b j (i + 1) n = concat (map esc (drop j b))"
      using Suc.prems None by (intro Suc.IH) (auto simp: less_Suc_eq)
    with None show ?thesis by simp
  next
    case (Some e)
    have "WriteJSONString_loop b (i + 1) (i + 1) n = concat (map esc (drop (Suc i) b))"
      using Suc.prems Suc.IH [of "i + 1" "i + 1"] by simp
    moreover have "concat (map esc (drop j b)) = take (i - j) (drop j b) @ esc (b ! i) @ concat (map esc (drop (Suc i) b))"
      using run by (subst parts) simp
    moreover have "esc (b ! i) = e" using Some by (simp add: esc_def)
    ultimately show ?thesis using Some by simp
  qed
qed

lemma WriteJSONString_esc: "WriteJSONString s = concat (map esc s)"
  using WriteJSONString_loop_esc [of 0 0 "length s" s] by (simp add: WriteJSONString_def)

text \<open>A reader of the characters between the quotes of a JSON string: raw quotes and control characters are refused.\<close>

fun json_read :: "string \<Rightarrow> string option" where
  "json_read [] = Some []"
| "json_read (c # s) =
     (if c = CHR 0x22 \<or> byte_val c < 32 then None
      else if c \<noteq> CHR 0x5C then map_option ((#) c) (json_read s)
      else case s of
        [] \<Rightarrow> None
      | e # r \<Rightarrow>
          if e = CHR 0x22 \<or> e = CHR 0x5C then map_option ((#) e) (json_read r)
          else if e = CHR ''n'' then map_option ((#) (CHR 0x0A)) (json_read r)
          else if e = CHR ''r'' then map_option ((#) (CHR 0x0D)) (json_read r)
          else if e = CHR ''t'' then map_option ((#) (CHR 0x09)) (json_read r)
          else if e = CHR ''u'' then
            (case r of
               a # b # x # y # r' \<Rightarrow>
                 (case (hex_value a, hex_value b, hex_value x, hex_value y) of
                    (Some 0, Some 0, Some p, Some q) \<Rightarrow>
                      map_option ((#) (byte_of (16 * p + q))) (json_read r')
                  | _ \<Rightarrow> None)
             | _ \<Rightarrow> None)
          else None)"

lemma hex_value_hex_lower: "n < 16 \<Longrightarrow> hex_value (hex_lower n) = Some n"
  by (simp add: hex_value_def hex_lower_def of_char_of Let_def)

lemma json_read_hex4:
  assumes "v < 256"
  shows "json_read (CHR 0x5C # CHR ''u'' # hex4 v @ r) = map_option ((#) (byte_of v)) (json_read r)"
proof -
  have z: "hex_value (CHR ''0'') = Some 0" by (simp add: hex_value_def)
  have "hex_value (hex_lower (v div 16)) = Some (v div 16)" "hex_value (hex_lower (v mod 16)) = Some (v mod 16)"
    using assms by (auto intro!: hex_value_hex_lower)
  then show ?thesis by (simp add: hex4_def z)
qed

lemma json_read_esc: "json_read (esc c @ r) = map_option ((#) c) (json_read r)"
proof -
  have "json_escape c = None \<or> c \<in> {CHR 0x22, CHR 0x5C, CHR 0x0A, CHR 0x0D, CHR 0x09} \<or> c = CHR 0x0C \<or>
      c = CHR 0x08 \<or> byte_val c < 32 \<and> json_escape c = Some (CHR 0x5C # CHR ''u'' # hex4 (byte_val c))"
    by (simp add: json_escape_def)
  then consider "json_escape c = None" | "c \<in> {CHR 0x22, CHR 0x5C, CHR 0x0A, CHR 0x0D, CHR 0x09}"
    | "c = CHR 0x0C" | "c = CHR 0x08"
    | "byte_val c < 32" "json_escape c = Some (CHR 0x5C # CHR ''u'' # hex4 (byte_val c))"
    by (elim disjE conjE)
  then show ?thesis
  proof cases
    case 1
    then have "\<not> (c = CHR 0x22 \<or> byte_val c < 32)" "c \<noteq> CHR 0x5C" by (auto simp: json_escape_def split: if_splits)
    with 1 show ?thesis by (simp add: esc_def)
  next
    case 2
    then show ?thesis by (auto simp: esc_def json_escape_def)
  next
    case 3
    have "''000c'' = hex4 12" by (simp add: hex4_def hex_lower_def char_of_def bit_0)
    with 3 json_read_hex4 [of 12 r] show ?thesis by (simp add: esc_def json_escape_def char_of_def bit_0)
  next
    case 4
    have "''0008'' = hex4 8" by (simp add: hex4_def hex_lower_def char_of_def bit_0)
    with 4 json_read_hex4 [of 8 r] show ?thesis by (simp add: esc_def json_escape_def char_of_def bit_0)
  next
    case 5
    with json_read_hex4 [of "byte_val c" r] show ?thesis by (simp add: esc_def)
  qed
qed

text \<open>
  Escaping a field for JSON is lossless and always yields a legal string body: a reader that rejects
  raw quotes and control characters reads back exactly the bytes of the field.
\<close>

theorem json_roundtrip: "json_read (WriteJSONString s) = Some s"
  unfolding WriteJSONString_esc
  by (induction s) (simp_all add: json_read_esc del: json_read.simps(2))

subsection \<open>A censored message\<close>

definition demo_info :: bytes where
  "demo_info = ''INFO sip:b SIP/2.0'' @ CRLF @ ''CSeq: 1 INFO'' @ CRLF @ ''i: 7'' @ CRLF @ CRLF @ ''dt''"

lemma demo_info_index: "16 \<le> length demo_info" "Index demo_info CRLFCRLF = Some 38"
  by (simp_all add: demo_info_def crlf_defs)

lemma demo_info_fields:
  "sm_Error (ParseMsgZeroCopy demo_info None) = None" "CseqMethod (ParseMsgZeroCopy demo_info None) = ''INFO''"
  "CallID (ParseMsgZeroCopy demo_info None) = ''7''" "sm_Body (ParseMsgZeroCopy demo_info None) = ''dt''"
  unfolding ParseMsgZeroCopy_fold [OF demo_info_index]
  by (simp_all add: demo_info_def crlf_defs header_lines.simps fold_lines_def zcParseStartLine_def
      zcParseHeaderLine_def zc_eval zcNamedHeader_def zcCompactHeader_def zcEqCI4_def or20_def zcParseCSeq_def
      zcApplyAlegCustomHeaders_def zcParseRequestURI_def acquireSipMsg_def split: prod.split)

definition demo_censor :: hep where
  "demo_censor = (acquireHEP (Some (empty_config\<lparr>CensorMethods := [''INFO'']\<rparr>)))\<lparr>h_Payload := demo_info\<rparr>"

lemma demo_censor_config:
  "zc_options demo_env demo_censor = None" "cfg_get demo_env demo_censor [] CensorMethods = [''INFO'']"
  "h_Payload demo_censor = demo_info"
  by (simp_all add: zc_options_def cfg_get_def active_config_def demo_censor_def acquireHEP_def empty_config_def)

lemma demo_censor_sip:
  "\<exists>h1 s. parseSIP demo_env demo_censor = Returns h1 \<and> h_SIP h1 = Some s \<and> CseqMethod s = ''INFO'' \<and> sm_Body s = ''dt''"
  by (simp add: parseSIP_def demo_censor_config demo_info_fields Let_def)

theorem censoring_witness:
  "\<exists>d s. parse_sip_part demo_env demo_censor = Returns d \<and> h_SIP (snd d) = Some s \<and> sm_Body s = ''xx''"
proof -
  from demo_censor_sip obtain h1 s where s: "parseSIP demo_env demo_censor = Returns h1" "h_SIP h1 = Some s"
    "CseqMethod s = ''INFO''" "sm_Body s = ''dt''" by blast
  from censoring [OF s(1,2)] s(3,4) show ?thesis by (auto simp: demo_censor_config eval_nat_numeral)
qed

end
