(* ===== verification/Hep_Ingest.thy ===== *)
theory Hep_Ingest
  imports Hep_Pipeline
begin

text \<open>
  The ingest side of the writer (src/writer): what the receivers accept (udp.go \<open>OnTraffic\<close>, http.go
  \<open>handleHEP\<close> and \<open>handleHEPProtobuf\<close>, tcp.go and tls.go \<open>handleConnection\<close>), the bounded queue
  (writer.go \<open>EnqueuePacket\<close>) and the workers (\<open>handlePacket\<close>, \<open>worker\<close>) that decode, script and store.
  A packet is its bytes and its protocol label; receive times and timings are left out. The Lua engine
  is an optional function on messages, the storage call \<open>WriteHEP\<close> is recorded in order in \<open>w_stored\<close>,
  and the Prometheus counters are a function of the protocol label.
\<close>

subsection \<open>What the receivers accept\<close>

definition maxPktLen :: nat where
  "maxPktLen = 65507"

definition hep_magic :: "bytes \<Rightarrow> bool" where
  "hep_magic data \<longleftrightarrow> data ! 0 = CHR ''H'' \<and> data ! 1 = CHR ''E'' \<and> data ! 2 = CHR ''P'' \<and> data ! 3 = CHR ''3''"

definition hep2_magic :: "bytes \<Rightarrow> bool" where
  "hep2_magic data \<longleftrightarrow> data ! 0 = CHR 0x02 \<and> data ! 1 = CHR 0x10 \<and> data ! 2 = CHR 0x02"

text \<open>\<open>Some\<close>: the packet handed to \<open>EnqueuePacket\<close>.\<close>

definition OnTraffic :: "bytes \<Rightarrow> (bytes \<times> string) option" where
  "OnTraffic data =
     (if length data < 6 then None
      else if hep_magic data then Some (data, ''udp'')
      else if hep2_magic data then Some (data, ''udp'')
      else None)"

datatype http_status = StatusOK | StatusBadRequest | StatusMethodNotAllowed | StatusNotFound

definition handleHEP :: "bool \<Rightarrow> bytes \<Rightarrow> http_status \<times> (bytes \<times> string) option" where
  "handleHEP isPost body =
     (if \<not> isPost then (StatusMethodNotAllowed, None)
      else if length body < 6 then (StatusBadRequest, None)
      else if hep_magic body then (StatusOK, Some (body, ''http''))
      else if hep2_magic body then (StatusOK, Some (body, ''http''))
      else (StatusBadRequest, None))"

definition handleHEPProtobuf :: "bool \<Rightarrow> bytes \<Rightarrow> http_status \<times> (bytes \<times> string) option" where
  "handleHEPProtobuf isPost body =
     (if \<not> isPost then (StatusMethodNotAllowed, None)
      else if length body < 1 then (StatusBadRequest, None)
      else (StatusOK, Some (body, ''http'')))"

definition handleRequest :: "string \<Rightarrow> bool \<Rightarrow> bytes \<Rightarrow> http_status \<times> (bytes \<times> string) option" where
  "handleRequest path isPost body =
     (if path = ''/api/hep'' \<or> path = ''/api/hep/binary'' then handleHEP isPost body
      else if path = ''/api/hep/protobuf'' then handleHEPProtobuf isPost body
      else if path = ''/health'' then (StatusOK, None)
      else (StatusNotFound, None))"

text \<open>
  \<open>handleConnection\<close> on the bytes that a connection delivers before it ends: the frames it enqueues. A
  short header, a wrong magic, a bad length or a short payload closes the connection.
\<close>

function frame_loop :: "bytes \<Rightarrow> bytes list" where
  "frame_loop input =
     (if length input < 6 then []
      else
        let header = take 6 input
        in if \<not> hep_magic header then []
           else
             let len = unat (be16 (drop 4 header))
             in if len < 6 \<or> maxPktLen < len then []
                else if length input < len then []
                else take len input # frame_loop (drop len input))"
  by pat_completeness auto
termination
  by (relation "measure length") auto

declare frame_loop.simps [simp del]

definition handleConnection :: "string \<Rightarrow> bytes \<Rightarrow> (bytes \<times> string) list" where
  "handleConnection proto input = map (\<lambda>f. (f, proto)) (frame_loop input)"

subsection \<open>The queue and the workers\<close>

record 'c writer_state =
  w_stopped :: bool
  w_queue :: "(bytes \<times> string) list"
  w_cap :: nat
  PktCount :: "64 word"
  DropCount :: "64 word"
  ErrCount :: "64 word"
  DupCount :: "64 word"
  HEPCount :: "64 word"
  w_prom :: "string \<Rightarrow> int \<times> int \<times> int"
  w_failed :: "(string \<times> string) list"
  w_stored :: "hep list"
  w_cache :: 'c

record worker_metrics =
  wm_received :: int
  wm_processed :: int
  wm_bytes :: int
  wm_count :: nat

definition record_failed :: "string \<Rightarrow> string \<Rightarrow> 'c writer_state \<Rightarrow> 'c writer_state" where
  "record_failed proto reason w = w\<lparr>w_failed := w_failed w @ [(proto, reason)]\<rparr>"


definition flush :: "string \<Rightarrow> 'c writer_state \<times> worker_metrics \<Rightarrow> 'c writer_state \<times> worker_metrics" where
  "flush proto wwm =
     (let (w, wm) = wwm
      in if wm_count wm = 0 then (w, wm)
         else
           let (r, p, b) = w_prom w proto
           in (w\<lparr>w_prom := (w_prom w)(proto := (r + wm_received wm, p + wm_processed wm, b + wm_bytes wm))\<rparr>,
               wm\<lparr>wm_received := 0, wm_processed := 0, wm_bytes := 0, wm_count := 0\<rparr>))"

definition flush_if_full :: "nat \<Rightarrow> string \<Rightarrow> 'c writer_state \<times> worker_metrics \<Rightarrow> 'c writer_state \<times> worker_metrics" where
  "flush_if_full flushPackets proto wwm = (if flushPackets \<le> wm_count (snd wwm) then flush proto wwm else wwm)"

text \<open>\<open>w.scriptEngine.Run(hepPkt)\<close> changes the message in place.\<close>

definition run_script :: "(hep \<Rightarrow> hep) option \<Rightarrow> hep \<Rightarrow> hep" where
  "run_script engine h = (case engine of None \<Rightarrow> h | Some f \<Rightarrow> f h)"

text \<open>What \<open>handlePacket\<close> does with the outcome of \<open>Decode\<close>.\<close>

definition settle ::
  "(hep \<Rightarrow> hep) option \<Rightarrow> string \<Rightarrow> (hep_error, hep \<times> 'c) go_result \<Rightarrow> 'c writer_state \<Rightarrow> worker_metrics
    \<Rightarrow> ('c writer_state \<times> worker_metrics) option" where
  "settle engine protocol r w wm =
     (case r of
        Panics \<Rightarrow> None
      | Fails e \<Rightarrow> Some (record_failed protocol ''decode_error'' (w\<lparr>ErrCount := ErrCount w + 1\<rparr>), wm)
      | Returns (h, cache) \<Rightarrow>
          let w1 = w\<lparr>w_cache := cache\<rparr>
          in if h_ProtoType h = 0
             then Some (record_failed protocol ''invalid_proto'' (w1\<lparr>DupCount := DupCount w1 + 1\<rparr>), wm)
             else
               let h' = run_script engine h
               in if h_ProtoType h' = 0
                  then Some (record_failed protocol ''script_discard'' (w1\<lparr>DupCount := DupCount w1 + 1\<rparr>), wm)
                  else Some (w1\<lparr>HEPCount := HEPCount w1 + 1, w_stored := w_stored w1 @ [h']\<rparr>,
                             wm\<lparr>wm_processed := wm_processed wm + 1\<rparr>))"

text \<open>
  \<open>None\<close>: the goroutine panics, which ends the process. The decoder returns on every packet
  (\<open>Decode_returns\<close>), so the inner \<open>None\<close> does not occur for packets from the queue.
\<close>

definition handlePacket ::
  "'c env \<Rightarrow> int \<Rightarrow> decoder_config \<Rightarrow> (hep \<Rightarrow> hep) option \<Rightarrow> nat \<Rightarrow> 'c writer_state \<Rightarrow> worker_metrics \<Rightarrow> string
    \<Rightarrow> bytes \<times> string \<Rightarrow> ('c writer_state \<times> worker_metrics \<times> string) option" where
  "handlePacket E now cfg engine flushPackets w0 wm0 lastProto msg =
     (let protocol = (if snd msg = [] then ''unknown'' else snd msg);
          (w, wm) = (if protocol \<noteq> lastProto \<and> lastProto \<noteq> [] then flush lastProto (w0, wm0) else (w0, wm0));
          wm1 = wm\<lparr>wm_received := wm_received wm + 1, wm_bytes := wm_bytes wm + int (length (fst msg)),
                   wm_count := wm_count wm + 1\<rparr>
      in case Decode E (w_cache w) now (Some cfg) (fst msg) of
           None \<Rightarrow> None
         | Some r \<Rightarrow>
             (case settle engine protocol r w wm1 of
                None \<Rightarrow> None
              | Some wwm \<Rightarrow>
                  let (w', wm') = flush_if_full flushPackets protocol wwm in Some (w', wm', protocol)))"






subsection \<open>Accounting\<close>









definition demo_writer :: "(bytes \<rightharpoonup> bytes) writer_state" where
  "demo_writer =
     \<lparr>w_stopped = False, w_queue = [], w_cap = 2, PktCount = 0, DropCount = 0, ErrCount = 0, DupCount = 0,
      HEPCount = 0, w_prom = (\<lambda>_. (0, 0, 0)), w_failed = [], w_stored = [], w_cache = Map.empty\<rparr>"


subsection \<open>Stream framing\<close>

definition frame_ok :: "bytes \<Rightarrow> bool" where
  "frame_ok f \<longleftrightarrow> 6 \<le> length f \<and> length f \<le> maxPktLen \<and> HasPrefix f ''HEP3'' \<and> unat (be16 (drop 4 f)) = length f"

lemma hep_magic_prefix: "4 \<le> length d \<Longrightarrow> hep_magic d \<longleftrightarrow> HasPrefix d ''HEP3''"
  by (cases d; cases "tl d"; cases "tl (tl d)"; cases "tl (tl (tl d))") (auto simp: hep_magic_def eval_nat_numeral)

lemma be16_header: "6 \<le> length d \<Longrightarrow> be16 (drop 4 (take 6 d)) = be16 (drop 4 d)"
  by (simp add: be16_def drop_take)

lemma magic_header: "6 \<le> length d \<Longrightarrow> hep_magic (take 6 d) = hep_magic d"
  by (simp add: hep_magic_def)

lemma frame_loop_cons:
  assumes "frame_ok f"
  shows "frame_loop (f @ rest) = f # frame_loop rest"
proof -
  have f: "6 \<le> length f" "length f \<le> maxPktLen" "HasPrefix f ''HEP3''" "unat (be16 (drop 4 f)) = length f"
    using assms by (auto simp: frame_ok_def)
  have "be16 (drop 4 (f @ rest)) = be16 (drop 4 f)" using f(1) by (simp add: be16_def)
  moreover have "hep_magic (f @ rest)" using f(1,3) by (subst hep_magic_prefix) (auto simp: prefix_def)
  ultimately show ?thesis
    using f by (subst frame_loop.simps) (simp add: Let_def be16_header magic_header del: take_append drop_append, simp)
qed

lemma frame_loop_concat: "\<forall>f\<in>set fs. frame_ok f \<Longrightarrow> frame_loop (concat fs @ rest) = fs @ frame_loop rest"
  by (induction fs) (simp_all add: frame_loop_cons)


text \<open>
  C32. Stream framing is lossless: a TCP or TLS connection that carries any sequence of valid HEPv3
  frames back to back, then an incomplete rest, hands exactly these frames to the queue, in order.
\<close>

theorem framing_roundtrip:
  assumes "\<forall>f\<in>set fs. frame_ok f" and "length rest < 6"
  shows "handleConnection proto (concat fs @ rest) = map (\<lambda>f. (f, proto)) fs"
  using frame_loop_concat [OF assms(1), of rest] assms(2)
  by (simp add: handleConnection_def frame_loop.simps [of rest])


definition demo_frame :: bytes where
  "demo_frame = ''HEP3'' @ [CHR 0x00, CHR 0x06]"

lemma demo_frame_ok: "frame_ok demo_frame"
  by (simp add: frame_ok_def demo_frame_def maxPktLen_def unat_be16 be_val_def)

theorem framing_roundtrip_witness:
  "handleConnection ''tcp'' (concat [demo_frame, demo_frame] @ ''HE'') = [(demo_frame, ''tcp''), (demo_frame, ''tcp'')]"
  using framing_roundtrip [of "[demo_frame, demo_frame]" "''HE''" "''tcp''"] demo_frame_ok by simp



subsection \<open>Packets that crash a worker\<close>

definition short_hep2 :: bytes where
  "short_hep2 = [CHR 0x02, CHR 0x10, CHR 0x02, CHR 0x00, CHR 0x00, CHR 0x00]"

lemma parseHEP2_short: "parseHEP2 h short_hep2 = Panics"
  by (simp add: parseHEP2_def short_hep2_def go_index_def go_slice_def)

lemma handlePacket_Panics:
  assumes "\<And>c. Decode E c now (Some cfg) data = Some Panics"
  shows "handlePacket E now cfg engine n w wm lp (data, p) = None"
  by (simp add: handlePacket_def Let_def assms settle_def split: prod.split)

text \<open>
  C30. A six-byte datagram ends the process: the UDP receiver accepts it as HEPv2 (the same test guards
  the HTTP endpoint), and the worker that takes it panics in \<open>parseHEP2\<close> whenever HEPv2 is enabled.
\<close>

theorem udp_hep2_crash:
  assumes "HepV2Enable cfg"
  shows "OnTraffic short_hep2 = Some (short_hep2, ''udp'') \<and>
    handlePacket E now cfg engine n w wm lp (short_hep2, ''udp'') = None"
proof
  show "OnTraffic short_hep2 = Some (short_hep2, ''udp'')"
    by (simp add: OnTraffic_def short_hep2_def hep2_magic_def hep_magic_def)
  have "Decode E c now (Some cfg) short_hep2 = Some Panics" for c
    using assms parseHEP2_short [of "acquireHEP (Some cfg)"]
    by (simp add: Decode_def parse_def read_packet_def cfg_get_def active_config_def acquireHEP_def short_hep2_def char_of_def bit_0)
  then show "handlePacket E now cfg engine n w wm lp (short_hep2, ''udp'') = None"
    by (rule handlePacket_Panics)
qed

theorem udp_hep2_crash_witness:
  "handlePacket demo_env 5 (empty_config\<lparr>HepV2Enable := True\<rparr>) None 128 demo_writer
     \<lparr>wm_received = 0, wm_processed = 0, wm_bytes = 0, wm_count = 0\<rparr> [] (short_hep2, ''udp'') = None"
  by (rule udp_hep2_crash [THEN conjunct2]) simp

text \<open>
  C31. A ten-byte HTTP request body ends the process: the protobuf endpoint accepts every non-empty body,
  and with protobuf enabled the worker panics in \<open>Unmarshal\<close>, where adding a string length of
  \<open>2\<^sup>6\<^sup>3 - 1\<close> to the cursor wraps to a negative slice bound that passes the bound check.
\<close>

theorem http_protobuf_crash:
  assumes "ProtobufEnable cfg"
  shows "handleRequest ''/api/hep/protobuf'' True overflow_packet = (StatusOK, Some (overflow_packet, ''http'')) \<and>
    handlePacket E now cfg engine n w wm lp (overflow_packet, ''http'') = None"
proof
  show "handleRequest ''/api/hep/protobuf'' True overflow_packet = (StatusOK, Some (overflow_packet, ''http''))"
    by (simp add: handleRequest_def handleHEPProtobuf_def overflow_packet_def)
  have "\<not> HasPrefix overflow_packet ''HEP3''" "\<not> HasPrefix overflow_packet [byte_of 1]"
    "\<not> HasPrefix overflow_packet [byte_of 2]"
    by (simp_all add: overflow_packet_def char_of_def bit_0)
  then have "Decode E c now (Some cfg) overflow_packet = Some Panics" for c
    using assms by (simp add: Decode_def parse_def read_packet_def cfg_get_def active_config_def acquireHEP_def
        Unmarshal_overflow_packet)
  then show "handlePacket E now cfg engine n w wm lp (overflow_packet, ''http'') = None"
    by (rule handlePacket_Panics)
qed

theorem http_protobuf_crash_witness:
  "handlePacket demo_env 5 (empty_config\<lparr>ProtobufEnable := True\<rparr>) None 128 demo_writer
     \<lparr>wm_received = 0, wm_processed = 0, wm_bytes = 0, wm_count = 0\<rparr> [] (overflow_packet, ''http'') = None"
  by (rule http_protobuf_crash [THEN conjunct2]) simp

end
