(* ===== verification/Hep_Stream.thy ===== *)
theory Hep_Stream
  imports Hep_Types
begin

text \<open>
  The live stream of decoded messages, src/stream/hepstream: events (event.go), filters and their URL
  form (filter.go), the configuration fallbacks (config.go) and the publish/subscribe broker with its
  ring buffer of recent events and the per-subscriber token bucket (broker.go).

  Go's \<open>int\<close> fields are \<open>int\<close>; times are nanoseconds. The subscriber map is an association list: the
  order in which Go ranges over the map is arbitrary, and so is the order of the list. A channel is the
  list of the events it buffers.
\<close>

subsection \<open>Events\<close>

record sip_meta =
  sm_Method :: string
  sm_RespCode :: string
  sm_RespText :: string
  sm_CallID :: string
  sm_CSeq :: string
  sm_FromUser :: string
  sm_ToUser :: string
  sm_RURIUser :: string

record event =
  TsMilli :: int
  ev_Proto :: "32 word"
  ev_SrcIP :: string
  ev_SrcPort :: "32 word"
  ev_DstIP :: string
  ev_DstPort :: "32 word"
  ev_NodeID :: "32 word"
  ev_SIP :: "sip_meta option"
  ev_Payload :: string

definition zero_event :: event where
  "zero_event =
     \<lparr>TsMilli = 0, ev_Proto = 0, ev_SrcIP = [], ev_SrcPort = 0, ev_DstIP = [], ev_DstPort = 0,
      ev_NodeID = 0, ev_SIP = None, ev_Payload = []\<rparr>"

definition FromHEP :: "int \<Rightarrow> hep option \<Rightarrow> event" where
  "FromHEP now ho =
     (case ho of
        None \<Rightarrow> zero_event
      | Some h \<Rightarrow>
          let ms = h_Timestamp h div 1000000;
              meta = (if h_ProtoType h = 1 then
                        (case h_SIP h of
                           None \<Rightarrow> None
                         | Some s \<Rightarrow>
                             Some \<lparr>sm_Method = (if CseqMethod s = [] then FirstMethod s else CseqMethod s),
                                   sm_RespCode = FirstResp s, sm_RespText = FirstRespText s,
                                   sm_CallID = CallID s, sm_CSeq = CseqVal s, sm_FromUser = FromUser s,
                                   sm_ToUser = ToUser s, sm_RURIUser = URIUser s\<rparr>)
                      else None)
          in \<lparr>TsMilli = (if ms \<le> 0 then now div 1000000 else ms), ev_Proto = h_ProtoType h,
              ev_SrcIP = h_SrcIP h, ev_SrcPort = h_SrcPort h, ev_DstIP = h_DstIP h,
              ev_DstPort = h_DstPort h, ev_NodeID = h_NodeID h, ev_SIP = meta,
              ev_Payload = h_Payload h\<rparr>)"

text \<open>
  \<open>MarshalFor\<close> hands one of two frames to \<open>json.Marshal\<close> (the argument \<open>marshal\<close>). They have the same fields
  but the payload, which is left out of the JSON when it is empty; so the frame without payload is
  the event with an empty one.
\<close>

definition MarshalFor :: "(event \<Rightarrow> 'j) \<Rightarrow> bool \<Rightarrow> event \<Rightarrow> 'j" where
  "MarshalFor marshal includePayload e = marshal (if includePayload then e else e\<lparr>ev_Payload := []\<rparr>)"

subsection \<open>Filters\<close>

record filter_rec =
  Protos :: "32 word list"
  Methods :: "string list"
  OnlyRequests :: bool
  IncludePayload :: bool

definition Match :: "filter_rec \<Rightarrow> event \<Rightarrow> bool" where
  "Match f evt =
     (if 0 < length (Protos f) \<and> \<not> list_ex (\<lambda>p. p = ev_Proto evt) (Protos f) then False
      else if ev_Proto evt = 1 then
        (if OnlyRequests f \<and> (case ev_SIP evt of None \<Rightarrow> False | Some m \<Rightarrow> sm_RespCode m \<noteq> []) then False
         else if 0 < length (Methods f) then
           (case ev_SIP evt of
              None \<Rightarrow> False
            | Some s \<Rightarrow> list_ex (\<lambda>m. EqualFold m (sm_Method s)) (Methods f))
         else True)
      else True)"

definition isTrueish :: "string \<Rightarrow> bool" where
  "isTrueish s \<longleftrightarrow> ToLower (TrimSpace s) \<in> {''1'', ''t'', ''true'', ''y'', ''yes'', ''on''}"

text \<open>\<open>url.Values\<close>: a list of values per key; \<open>Get\<close> returns the first or the empty string.\<close>

type_synonym url_values = "string \<Rightarrow> string list"

definition url_Get :: "url_values \<Rightarrow> string \<Rightarrow> string" where
  "url_Get q k = (case q k of [] \<Rightarrow> [] | v # _ \<Rightarrow> v)"

text \<open>\<open>strconv.ParseUint(raw, 10, 32)\<close>\<close>

definition ParseUint32 :: "string \<Rightarrow> 32 word option" where
  "ParseUint32 raw =
     (if raw = [] then None
      else case Atoi_digits 0 raw of
        None \<Rightarrow> None
      | Some n \<Rightarrow> if n < 2 ^ 32 then Some (word_of_nat n) else None)"

definition FilterFromQuery :: "url_values \<Rightarrow> filter_rec" where
  "FilterFromQuery q =
     \<lparr>Protos = List.map_filter ParseUint32 (q ''proto''),
      Methods = filter (\<lambda>m. m \<noteq> []) (map TrimSpace (q ''method'')),
      OnlyRequests = isTrueish (url_Get q ''only_requests''),
      IncludePayload = isTrueish (url_Get q ''include_payload'')\<rparr>"

definition ToQuery :: "filter_rec \<Rightarrow> url_values" where
  "ToQuery f =
     (let q0 = (\<lambda>_. []);
          q1 = q0(''proto'' := map (\<lambda>p. Itoa (unat p)) (Protos f));
          q2 = q1(''method'' := Methods f);
          q3 = (if OnlyRequests f then q2(''only_requests'' := [''1'']) else q2)
      in if IncludePayload f then q3(''include_payload'' := [''1'']) else q3)"

subsection \<open>Configuration\<close>

record stream_config =
  st_Enable :: bool
  BufferSize :: int
  MaxSubscribers :: int
  PerSubQueueLen :: int
  RatePerSubPPS :: int

definition DefaultConfig :: stream_config where
  "DefaultConfig =
     \<lparr>st_Enable = False, BufferSize = 10000, MaxSubscribers = 32, PerSubQueueLen = 256, RatePerSubPPS = 500\<rparr>"

definition applyFallbacks :: "stream_config \<Rightarrow> stream_config" where
  "applyFallbacks c0 =
     (let d = DefaultConfig;
          c1 = (if BufferSize c0 = 0 then c0\<lparr>BufferSize := BufferSize d\<rparr> else c0);
          c2 = (if MaxSubscribers c1 = 0 then c1\<lparr>MaxSubscribers := MaxSubscribers d\<rparr> else c1)
      in if PerSubQueueLen c2 = 0 then c2\<lparr>PerSubQueueLen := PerSubQueueLen d\<rparr> else c2)"

subsection \<open>The broker\<close>

record subscriber =
  sub_ch :: "event list"
  sub_filter :: filter_rec
  sub_tokens :: int
  sub_lastTick :: int

record broker =
  b_cfg :: stream_config
  b_subs :: "(64 word \<times> subscriber) list"
  b_nextSubID :: "64 word"
  b_ring :: "event list"
  b_ringHead :: nat
  b_ringLen :: nat
  b_published :: "64 word"
  b_droppedRate :: "64 word"
  b_droppedBackpressure :: "64 word"
  b_droppedFilter :: "64 word"

definition NewBroker :: "stream_config \<Rightarrow> broker option" where
  "NewBroker cfg0 =
     (if \<not> st_Enable cfg0 then None
      else
        let cfg = applyFallbacks cfg0
        in Some \<lparr>b_cfg = cfg, b_subs = [], b_nextSubID = 0,
                 b_ring = (if 0 < BufferSize cfg then replicate (nat (BufferSize cfg)) zero_event else []),
                 b_ringHead = 0, b_ringLen = 0, b_published = 0, b_droppedRate = 0,
                 b_droppedBackpressure = 0, b_droppedFilter = 0\<rparr>)"

definition appendToRing :: "event \<Rightarrow> broker \<Rightarrow> broker" where
  "appendToRing evt b =
     (if BufferSize (b_cfg b) \<le> 0 then b
      else
        let n = nat (BufferSize (b_cfg b));
            b1 = b\<lparr>b_ring := (b_ring b)[b_ringHead b := evt], b_ringHead := (b_ringHead b + 1) mod n\<rparr>
        in if b_ringLen b1 < n then b1\<lparr>b_ringLen := b_ringLen b1 + 1\<rparr> else b1)"

definition nano_second :: int where
  "nano_second = 10 ^ 9"

definition takeToken :: "int \<Rightarrow> int \<Rightarrow> subscriber \<Rightarrow> bool \<times> subscriber" where
  "takeToken now ratePPS s =
     (if ratePPS \<le> 0 then (True, s)
      else
        let elapsed = now - sub_lastTick s;
            secs = elapsed div nano_second;
            refill = min (secs * ratePPS) ratePPS;
            s1 = (if nano_second \<le> elapsed
                  then s\<lparr>sub_tokens := min (sub_tokens s + refill) ratePPS,
                         sub_lastTick := sub_lastTick s + secs * nano_second\<rparr>
                  else s)
        in if sub_tokens s1 \<le> 0 then (False, s1) else (True, s1\<lparr>sub_tokens := sub_tokens s1 - 1\<rparr>))"

text \<open>What happens to one subscriber: the counter that is increased, or delivery.\<close>

datatype delivery = Delivered | DropFilter | DropRate | DropBackpressure

definition deliver :: "stream_config \<Rightarrow> int \<Rightarrow> event \<Rightarrow> subscriber \<Rightarrow> delivery \<times> subscriber" where
  "deliver cfg now evt s =
     (if \<not> Match (sub_filter s) evt then (DropFilter, s)
      else
        let (ok, s1) = takeToken now (RatePerSubPPS cfg) s
        in if \<not> ok then (DropRate, s1)
           else if int (length (sub_ch s1)) < PerSubQueueLen cfg then (Delivered, s1\<lparr>sub_ch := sub_ch s1 @ [evt]\<rparr>)
           else (DropBackpressure, s1))"

definition count_delivery :: "delivery \<Rightarrow> broker \<Rightarrow> broker" where
  "count_delivery d b =
     (case d of
        Delivered \<Rightarrow> b
      | DropFilter \<Rightarrow> b\<lparr>b_droppedFilter := b_droppedFilter b + 1\<rparr>
      | DropRate \<Rightarrow> b\<lparr>b_droppedRate := b_droppedRate b + 1\<rparr>
      | DropBackpressure \<Rightarrow> b\<lparr>b_droppedBackpressure := b_droppedBackpressure b + 1\<rparr>)"

definition Publish :: "int \<Rightarrow> event \<Rightarrow> broker \<Rightarrow> broker" where
  "Publish now evt b =
     (let b1 = appendToRing evt (b\<lparr>b_published := b_published b + 1\<rparr>);
          results = map (\<lambda>(i, s). (i, deliver (b_cfg b) now evt s)) (b_subs b1);
          b2 = b1\<lparr>b_subs := map (\<lambda>(i, d, s). (i, s)) results\<rparr>
      in fold count_delivery (map (\<lambda>(i, d, s). d) results) b2)"

text \<open>\<open>make(chan Event, PerSubQueueLen)\<close> panics for a negative length.\<close>

datatype stream_error = ErrTooManySubscribers

definition Subscribe :: "int \<Rightarrow> filter_rec \<Rightarrow> broker \<Rightarrow> (stream_error, 64 word \<times> broker) go_result" where
  "Subscribe now f b =
     (if MaxSubscribers (b_cfg b) \<le> int (length (b_subs b)) then Fails ErrTooManySubscribers
      else if PerSubQueueLen (b_cfg b) < 0 then Panics
      else
        let i = b_nextSubID b + 1;
            s = \<lparr>sub_ch = [], sub_filter = f, sub_tokens = RatePerSubPPS (b_cfg b), sub_lastTick = now\<rparr>
        in Returns (i, b\<lparr>b_nextSubID := i, b_subs := (i, s) # filter (\<lambda>p. fst p \<noteq> i) (b_subs b)\<rparr>))"

definition cancel :: "64 word \<Rightarrow> broker \<Rightarrow> broker" where
  "cancel i b = b\<lparr>b_subs := filter (\<lambda>p. fst p \<noteq> i) (b_subs b)\<rparr>"

definition ring_contents :: "broker \<Rightarrow> event list" where
  "ring_contents b =
     (let n = nat (BufferSize (b_cfg b));
          start = (if b_ringLen b = n then b_ringHead b else 0)
      in map (\<lambda>i. b_ring b ! ((start + i) mod n)) [0..<b_ringLen b])"

definition last_n :: "nat \<Rightarrow> 'a list \<Rightarrow> 'a list" where
  "last_n n xs = drop (length xs - n) xs"

definition History :: "filter_rec \<Rightarrow> int \<Rightarrow> broker \<Rightarrow> event list" where
  "History f limit b =
     (if BufferSize (b_cfg b) \<le> 0 then []
      else
        let out = filter (Match f) (ring_contents b)
        in if 0 < limit \<and> limit < int (length out) then last_n (nat limit) out else out)"

text \<open>\<open>Stats\<close>\<close>

record stream_stats =
  Published :: "64 word"
  DroppedRate :: "64 word"
  DroppedBackpressure :: "64 word"
  DroppedFilter :: "64 word"
  Subscribers :: nat
  st_BufferSize :: nat
  BufferHead :: nat

definition Stats :: "broker \<Rightarrow> stream_stats" where
  "Stats b =
     \<lparr>Published = b_published b, DroppedRate = b_droppedRate b, DroppedBackpressure = b_droppedBackpressure b,
      DroppedFilter = b_droppedFilter b, Subscribers = length (b_subs b), st_BufferSize = b_ringLen b,
      BufferHead = b_ringHead b\<rparr>"

subsection \<open>The ring buffer keeps the most recent events\<close>

lemma last_n_snoc: "last_n n (last_n n xs @ [e]) = last_n n (xs @ [e])"
proof (cases "length xs \<le> n")
  case True
  then show ?thesis by (simp add: last_n_def)
next
  case False
  then have "Suc (length xs - n) - length xs = Suc 0 - n" "Suc (length xs) - n = Suc (length xs - n)" by linarith+
  with False show ?thesis by (simp add: last_n_def)
qed

text \<open>What a log of recent entries promises, and what follows for a whole run of appends.\<close>

locale recent_log =
  fixes append :: "'e \<Rightarrow> 's \<Rightarrow> 's"
    and contents :: "'s \<Rightarrow> 'e list"
    and inv :: "'s \<Rightarrow> bool"
    and cap :: "'s \<Rightarrow> nat"
  assumes inv_append: "inv s \<Longrightarrow> inv (append e s)"
    and cap_append: "cap (append e s) = cap s"
    and contents_append: "inv s \<Longrightarrow> contents (append e s) = last_n (cap s) (contents s @ [e])"
begin

lemma inv_fold: "inv s \<Longrightarrow> inv (fold append es s)"
  by (induction es arbitrary: s) (simp_all add: inv_append)

lemma cap_fold: "cap (fold append es s) = cap s"
  by (induction es arbitrary: s) (simp_all add: cap_append)

lemma contents_fold:
  "inv s \<Longrightarrow> length (contents s) \<le> cap s \<Longrightarrow> contents (fold append es s) = last_n (cap s) (contents s @ es)"
proof (induction es rule: rev_induct)
  case Nil
  then show ?case by (simp add: last_n_def)
next
  case (snoc e es)
  have "contents (fold append (es @ [e]) s) = last_n (cap s) (last_n (cap s) (contents s @ es) @ [e])"
    using snoc by (simp add: contents_append inv_fold cap_fold)
  also have "\<dots> = last_n (cap s) (contents s @ es @ [e])"
    using last_n_snoc [of "cap s" "contents s @ es" e] by simp
  finally show ?case by simp
qed

end

definition ring_cap :: "broker \<Rightarrow> nat" where
  "ring_cap b = nat (BufferSize (b_cfg b))"

definition ring_ok :: "broker \<Rightarrow> bool" where
  "ring_ok b \<longleftrightarrow> 0 < ring_cap b \<and> length (b_ring b) = ring_cap b \<and> b_ringHead b < ring_cap b \<and>
     b_ringLen b \<le> ring_cap b \<and> (b_ringLen b < ring_cap b \<longrightarrow> b_ringHead b = b_ringLen b)"

lemma appendToRing_fields:
  assumes "ring_ok b"
  shows "b_ring (appendToRing e b) = (b_ring b)[b_ringHead b := e]"
    and "b_ringHead (appendToRing e b) = (b_ringHead b + 1) mod ring_cap b"
    and "b_ringLen (appendToRing e b) = min (b_ringLen b + 1) (ring_cap b)"
    and "b_cfg (appendToRing e b) = b_cfg b"
  using assms by (auto simp: appendToRing_def ring_ok_def ring_cap_def Let_def)

lemma appendToRing_cfg: "b_cfg (appendToRing e b) = b_cfg b"
  by (simp add: appendToRing_def Let_def)

lemma ring_ok_append: "ring_ok b \<Longrightarrow> ring_ok (appendToRing e b)"
  by (auto simp: ring_ok_def appendToRing_fields ring_cap_def min_def split: if_splits)

lemma mod_wrap: "h < n \<Longrightarrow> k \<le> n \<Longrightarrow> (h + k) mod n = (if h + k < n then h + k else h + k - n)" for h k n :: nat
  by (simp add: le_mod_geq)

lemma ring_contents_length: "length (ring_contents b) = b_ringLen b"
  by (simp add: ring_contents_def Let_def)

lemma ring_contents_append:
  assumes "ring_ok b"
  shows "ring_contents (appendToRing e b) = last_n (ring_cap b) (ring_contents b @ [e])"
proof -
  let ?n = "ring_cap b" and ?h = "b_ringHead b" and ?l = "b_ringLen b" and ?r = "b_ring b"
  have ok: "0 < ?n" "length ?r = ?n" "?h < ?n" "?l \<le> ?n" "?l < ?n \<longrightarrow> ?h = ?l"
    using assms by (auto simp: ring_ok_def)
  have new: "ring_contents (appendToRing e b) =
      map (\<lambda>i. (?r[?h := e]) ! (((if min (?l + 1) ?n = ?n then (?h + 1) mod ?n else 0) + i) mod ?n))
        [0..<min (?l + 1) ?n]"
    using assms by (simp add: ring_contents_def Let_def appendToRing_fields ring_cap_def)
  have old: "ring_contents b = map (\<lambda>i. ?r ! (((if ?l = ?n then ?h else 0) + i) mod ?n)) [0..<?l]"
    by (simp add: ring_contents_def Let_def ring_cap_def)
  show ?thesis
  proof (cases "?l < ?n")
    case True
    have "last_n ?n (ring_contents b @ [e]) = ring_contents b @ [e]"
      using True by (simp add: last_n_def ring_contents_length)
    also have "\<dots> = ring_contents (appendToRing e b)"
      unfolding new old
      using True ok by (intro nth_equalityI) (auto simp: nth_append nth_list_update mod_Suc less_Suc_eq)
    finally show ?thesis by simp
  next
    case False
    then have l: "?l = ?n" using ok by simp
    have "last_n ?n (ring_contents b @ [e]) = tl (ring_contents b) @ [e]"
      using l ok(1) by (cases "ring_contents b") (auto simp: last_n_def ring_contents_length [symmetric])
    also have "\<dots> = ring_contents (appendToRing e b)"
    proof (rule nth_equalityI)
      show "length (tl (ring_contents b) @ [e]) = length (ring_contents (appendToRing e b))"
        unfolding new old using l ok(1) by simp
      fix i assume "i < length (tl (ring_contents b) @ [e])"
      then have i: "i < ?n" using l ok(1) by (simp add: ring_contents_length)
      have idx: "((?h + 1) mod ?n + i) mod ?n = (?h + Suc i) mod ?n" by (simp add: mod_add_left_eq)
      have nw: "ring_contents (appendToRing e b) ! i = (?r[?h := e]) ! ((?h + Suc i) mod ?n)"
        unfolding new using l i idx by simp
      show "(tl (ring_contents b) @ [e]) ! i = ring_contents (appendToRing e b) ! i"
      proof (cases "Suc i < ?n")
        case True
        then have "(tl (ring_contents b) @ [e]) ! i = ?r ! ((?h + Suc i) mod ?n)"
          using l by (simp add: nth_append ring_contents_length nth_tl old)
        moreover have "(?h + Suc i) mod ?n \<noteq> ?h" using mod_wrap [OF ok(3), of "Suc i"] True ok(3) by (simp split: if_splits)
        ultimately show ?thesis using nw by simp
      next
        case False
        then have "Suc i = ?n" using i by simp
        then have "(?h + Suc i) mod ?n = ?h" using ok(3) by simp
        moreover have "(tl (ring_contents b) @ [e]) ! i = e"
          using \<open>Suc i = ?n\<close> l by (simp add: nth_append ring_contents_length)
        ultimately show ?thesis using nw ok(2,3) by simp
      qed
    qed
    finally show ?thesis by simp
  qed
qed

interpretation ring: recent_log appendToRing ring_contents ring_ok ring_cap
  by unfold_locales (simp_all add: ring_ok_append ring_contents_append ring_cap_def appendToRing_cfg)

subsection \<open>Runs of the broker\<close>

text \<open>A run: publications, subscriptions, cancellations and receptions in any order.\<close>

datatype broker_op = OpPublish int event | OpSubscribe int filter_rec | OpCancel "64 word" | OpRecv "64 word"

definition recv :: "64 word \<Rightarrow> broker \<Rightarrow> broker" where
  "recv i b = b\<lparr>b_subs := map (\<lambda>(j, s). (j, if j = i then s\<lparr>sub_ch := tl (sub_ch s)\<rparr> else s)) (b_subs b)\<rparr>"

fun exec_op :: "broker_op \<Rightarrow> broker \<Rightarrow> broker" where
  "exec_op (OpPublish now e) b = Publish now e b"
| "exec_op (OpSubscribe now f) b = (case Subscribe now f b of Returns (i, b') \<Rightarrow> b' | _ \<Rightarrow> b)"
| "exec_op (OpCancel i) b = cancel i b"
| "exec_op (OpRecv i) b = recv i b"

definition exec_ops :: "broker_op list \<Rightarrow> broker \<Rightarrow> broker" where
  "exec_ops ops b = fold exec_op ops b"

fun published_events :: "broker_op list \<Rightarrow> event list" where
  "published_events [] = []"
| "published_events (OpPublish now e # ops) = e # published_events ops"
| "published_events (op # ops) = published_events ops"

definition ring_part :: "broker \<Rightarrow> stream_config \<times> event list \<times> nat \<times> nat" where
  "ring_part b = (b_cfg b, b_ring b, b_ringHead b, b_ringLen b)"

lemma ring_part_eqD:
  assumes "ring_part a = ring_part b"
  shows "b_cfg a = b_cfg b" "b_ring a = b_ring b" "b_ringHead a = b_ringHead b" "b_ringLen a = b_ringLen b"
  using assms by (simp_all add: ring_part_def)

lemma ring_part_append: "ring_part a = ring_part b \<Longrightarrow> ring_part (appendToRing e a) = ring_part (appendToRing e b)"
  by (auto dest: ring_part_eqD simp: appendToRing_def Let_def) (auto simp: ring_part_def)

lemma count_delivery_frame:
  "ring_part (count_delivery d b) = ring_part b" "b_subs (count_delivery d b) = b_subs b"
  "b_nextSubID (count_delivery d b) = b_nextSubID b" "b_cfg (count_delivery d b) = b_cfg b"
  by (simp_all add: count_delivery_def ring_part_def split: delivery.split)

lemma fold_count_delivery_frame:
  "ring_part (fold count_delivery ds b) = ring_part b" "b_subs (fold count_delivery ds b) = b_subs b"
  "b_cfg (fold count_delivery ds b) = b_cfg b"
  by (induction ds arbitrary: b) (simp_all add: count_delivery_frame)

lemma ring_part_Publish: "ring_part (Publish now e b) = ring_part (appendToRing e b)"
proof -
  have "ring_part (b\<lparr>b_subs := x\<rparr>) = ring_part b" "ring_part (b\<lparr>b_published := y\<rparr>) = ring_part b" for b x y
    by (simp_all add: ring_part_def)
  then show ?thesis
    by (simp add: Publish_def Let_def fold_count_delivery_frame) (rule ring_part_append, simp)
qed

lemma ring_part_exec:
  "ring_part (exec_op op b) =
    ring_part (case op of OpPublish now e \<Rightarrow> appendToRing e b | _ \<Rightarrow> b)"
proof (cases op)
  case (OpPublish now e)
  then show ?thesis by (simp add: ring_part_Publish)
qed (auto simp: Subscribe_def cancel_def recv_def Let_def ring_part_def split: go_result.splits)

lemma ring_part_exec_ops: "ring_part (exec_ops ops b) = ring_part (fold appendToRing (published_events ops) b)"
proof (induction ops arbitrary: b)
  case Nil
  show ?case by (simp add: exec_ops_def)
next
  case (Cons op ops)
  have cong: "ring_part (fold appendToRing es x) = ring_part (fold appendToRing es y)" if "ring_part x = ring_part y" for es x y
    using that
  proof (induction es arbitrary: x y)
    case Nil
    then show ?case by simp
  next
    case (Cons e es)
    from Cons.IH [OF ring_part_append [OF Cons.prems]] show ?case by simp
  qed
  have "ring_part (exec_ops (op # ops) b) = ring_part (fold appendToRing (published_events ops) (exec_op op b))"
    using Cons by (simp add: exec_ops_def)
  also have "\<dots> = ring_part (fold appendToRing (published_events ops)
      (case op of OpPublish now e \<Rightarrow> appendToRing e b | _ \<Rightarrow> b))"
    by (rule cong) (rule ring_part_exec)
  also have "\<dots> = ring_part (fold appendToRing (published_events (op # ops)) b)"
    by (cases op) simp_all
  finally show ?case .
qed

lemma fold_append_cfg: "b_cfg (fold appendToRing es b) = b_cfg b"
  by (induction es arbitrary: b) (simp_all add: appendToRing_cfg)

lemma ring_contents_cong: "ring_part a = ring_part b \<Longrightarrow> ring_contents a = ring_contents b"
  using ring_part_eqD [of a b] by (simp add: ring_contents_def Let_def)

lemma NewBroker_ring:
  assumes "NewBroker cfg = Some b" and "0 < BufferSize (b_cfg b)"
  shows "ring_ok b \<and> ring_contents b = []"
  using assms by (auto simp: NewBroker_def Let_def ring_ok_def ring_cap_def ring_contents_def split: if_splits)

text \<open>
  C40. The ring buffer implements "the last \<open>BufferSize\<close> events": after any run of publications,
  subscriptions, cancellations and receptions on a new broker, \<open>History\<close> returns, oldest first, the
  matching events among the last \<open>BufferSize\<close> published, cut to the most recent \<open>limit\<close> when a positive
  limit is given.
\<close>

theorem History_recent:
  assumes "NewBroker cfg = Some b0" and "0 < BufferSize (b_cfg b0)"
  shows "History f limit (exec_ops ops b0) =
    (let out = filter (Match f) (last_n (nat (BufferSize (b_cfg b0))) (published_events ops))
     in if 0 < limit then last_n (nat limit) out else out)"
proof -
  from NewBroker_ring [OF assms] have ok: "ring_ok b0" and e: "ring_contents b0 = []" by auto
  let ?b = "exec_ops ops b0" and ?r = "fold appendToRing (published_events ops) b0"
  note part = ring_part_exec_ops [of ops b0]
  have "ring_contents ?b = last_n (ring_cap b0) (published_events ops)"
    using ring.contents_fold [OF ok, of "published_events ops"] ring_contents_cong [OF part] e by simp
  moreover have "b_cfg ?r = b_cfg b0"
    by (rule fold_append_cfg)
  ultimately show ?thesis
    using assms(2) ring_part_eqD(1) [OF part]
    by (auto simp: History_def Let_def ring_cap_def last_n_def)
qed

definition demo_cfg :: stream_config where
  "demo_cfg = \<lparr>st_Enable = True, BufferSize = 2, MaxSubscribers = 1, PerSubQueueLen = 1, RatePerSubPPS = 0\<rparr>"

definition any_filter :: filter_rec where
  "any_filter = \<lparr>Protos = [], Methods = [], OnlyRequests = False, IncludePayload = False\<rparr>"

definition demo_broker :: broker where
  "demo_broker = the (NewBroker demo_cfg)"

lemma demo_broker_new: "NewBroker demo_cfg = Some demo_broker" "BufferSize (b_cfg demo_broker) = 2"
  by (simp_all add: demo_broker_def NewBroker_def demo_cfg_def applyFallbacks_def Let_def)

theorem History_recent_witness:
  "History any_filter 0 (exec_ops (map (\<lambda>p. OpPublish 0 (zero_event\<lparr>ev_Proto := p\<rparr>)) [5, 6, 7]) demo_broker) =
     [zero_event\<lparr>ev_Proto := 6\<rparr>, zero_event\<lparr>ev_Proto := 7\<rparr>]"
proof -
  let ?ops = "map (\<lambda>p. OpPublish 0 (zero_event\<lparr>ev_Proto := p\<rparr>)) [5, 6, 7]"
  from History_recent [OF demo_broker_new(1), of any_filter 0 ?ops] demo_broker_new(2) show ?thesis
    by (simp add: last_n_def Match_def any_filter_def zero_event_def)
qed

subsection \<open>Limits of the broker\<close>

definition sub_ok :: "stream_config \<Rightarrow> subscriber \<Rightarrow> bool" where
  "sub_ok cfg s \<longleftrightarrow> int (length (sub_ch s)) \<le> PerSubQueueLen cfg \<and>
     (0 < RatePerSubPPS cfg \<longrightarrow> 0 \<le> sub_tokens s \<and> sub_tokens s \<le> RatePerSubPPS cfg)"

definition broker_ok :: "broker \<Rightarrow> bool" where
  "broker_ok b \<longleftrightarrow> int (length (b_subs b)) \<le> max 0 (MaxSubscribers (b_cfg b)) \<and> distinct (map fst (b_subs b)) \<and>
     (\<forall>(i, s)\<in>set (b_subs b). sub_ok (b_cfg b) s)"

lemma fst_comp_pair: "fst \<circ> (\<lambda>(i, s). (i, g i s)) = fst"
  by auto

text \<open>After a whole second the bucket is full again.\<close>

lemma refill_full:
  assumes "0 < rate" and "nano_second \<le> elapsed"
  shows "min (elapsed div nano_second * rate) rate = rate"
proof -
  have "1 \<le> elapsed div nano_second" using assms(2) by (simp add: nano_second_def)
  then have "1 * rate \<le> elapsed div nano_second * rate" using assms(1) by (intro mult_right_mono) auto
  then show ?thesis by simp
qed

lemma takeToken_refill:
  assumes "0 < rate" and "0 \<le> sub_tokens s"
  shows "takeToken now rate s =
    (let s1 = (if nano_second \<le> now - sub_lastTick s
               then s\<lparr>sub_tokens := rate, sub_lastTick := sub_lastTick s + (now - sub_lastTick s) div nano_second * nano_second\<rparr>
               else s)
     in if sub_tokens s1 \<le> 0 then (False, s1) else (True, s1\<lparr>sub_tokens := sub_tokens s1 - 1\<rparr>))"
  using assms refill_full [OF assms(1), of "now - sub_lastTick s"] by (simp add: takeToken_def Let_def)

lemma takeToken_ok: "sub_ok cfg s \<Longrightarrow> sub_ok cfg (snd (takeToken now (RatePerSubPPS cfg) s))"
proof (cases "0 < RatePerSubPPS cfg")
  case True
  assume "sub_ok cfg s"
  with True show ?thesis
    by (auto simp: sub_ok_def takeToken_refill Let_def)
next
  case False
  assume "sub_ok cfg s"
  with False show ?thesis by (simp add: takeToken_def)
qed

lemma deliver_ok: "sub_ok cfg s \<Longrightarrow> sub_ok cfg (snd (deliver cfg now e s))"
  using takeToken_ok [of cfg s now]
  by (auto simp: deliver_def Let_def split: prod.splits) (auto simp: sub_ok_def)

lemma Publish_subs:
  "b_subs (Publish now e b) = map (\<lambda>(i, s). (i, snd (deliver (b_cfg b) now e s))) (b_subs b)"
  "b_cfg (Publish now e b) = b_cfg b"
  by (auto simp: Publish_def Let_def fold_count_delivery_frame appendToRing_def comp_def split: prod.splits)

lemma broker_ok_exec: "broker_ok b \<Longrightarrow> broker_ok (exec_op op b)"
proof (cases op)
  case (OpPublish now e)
  assume "broker_ok b"
  with OpPublish show ?thesis
    by (auto simp: broker_ok_def Publish_subs deliver_ok fst_comp_pair)
next
  case (OpSubscribe now f)
  assume ok: "broker_ok b"
  show ?thesis
  proof (cases "Subscribe now f b")
    case (Returns r)
    then have "int (length (b_subs b)) < MaxSubscribers (b_cfg b)" "0 \<le> PerSubQueueLen (b_cfg b)"
      and r: "snd r = b\<lparr>b_nextSubID := b_nextSubID b + 1, b_subs := (b_nextSubID b + 1,
          \<lparr>sub_ch = [], sub_filter = f, sub_tokens = RatePerSubPPS (b_cfg b), sub_lastTick = now\<rparr>) #
          filter (\<lambda>p. fst p \<noteq> b_nextSubID b + 1) (b_subs b)\<rparr>"
      by (auto simp: Subscribe_def Let_def split: if_splits)
    moreover have "distinct (map fst (filter P xs))" if "distinct (map fst xs)" for P and xs :: "(64 word \<times> subscriber) list"
      using that by (simp add: distinct_map_filter)
    moreover have "int (length (filter (\<lambda>p. fst p \<noteq> b_nextSubID b + 1) (b_subs b))) \<le> int (length (b_subs b))"
      by (simp only: of_nat_le_iff length_filter_le)
    then have "1 + int (length (filter (\<lambda>p. fst p \<noteq> b_nextSubID b + 1) (b_subs b))) \<le> MaxSubscribers (b_cfg b)"
      using calculation(1) by linarith
    ultimately show ?thesis
      using ok OpSubscribe Returns by (auto simp: broker_ok_def sub_ok_def split: prod.splits)
  qed (use ok OpSubscribe in simp_all)
next
  case (OpCancel i)
  assume "broker_ok b"
  moreover have "int (length (filter (\<lambda>p. fst p \<noteq> i) (b_subs b))) \<le> int (length (b_subs b))"
    by (simp only: of_nat_le_iff length_filter_le)
  then have "int (length (filter (\<lambda>p. fst p \<noteq> i) (b_subs b))) \<le> max 0 (MaxSubscribers (b_cfg b))"
    using \<open>broker_ok b\<close> unfolding broker_ok_def by linarith
  ultimately show ?thesis using OpCancel
    by (auto simp: broker_ok_def cancel_def distinct_map_filter)
next
  case (OpRecv i)
  assume "broker_ok b"
  moreover have "sub_ok cfg (s\<lparr>sub_ch := tl (sub_ch s)\<rparr>)" if "sub_ok cfg s" for cfg s
    using that by (auto simp: sub_ok_def)
  ultimately show ?thesis using OpRecv
    by (auto simp: broker_ok_def recv_def fst_comp_pair)
qed

text \<open>
  The broker respects its limits in every run: never more subscribers than \<open>MaxSubscribers\<close>, no two
  with the same id, no subscriber channel beyond \<open>PerSubQueueLen\<close> and no token bucket below zero or
  above \<open>RatePerSubPPS\<close>, so a slow consumer costs bounded memory and publishing never blocks.
\<close>

theorem broker_limits:
  assumes "NewBroker cfg = Some b0"
  shows "broker_ok (exec_ops ops b0)"
proof -
  have "broker_ok b0" using assms by (auto simp: NewBroker_def Let_def broker_ok_def split: if_splits)
  then show ?thesis
    unfolding exec_ops_def by (induction ops arbitrary: b0) (simp_all add: broker_ok_exec)
qed

theorem broker_limits_witness: "broker_ok (exec_ops [OpSubscribe 0 any_filter, OpPublish 0 zero_event] demo_broker)"
  by (rule broker_limits [OF demo_broker_new(1)])

subsection \<open>The rate limit\<close>

fun granted :: "int \<Rightarrow> subscriber \<Rightarrow> int list \<Rightarrow> nat" where
  "granted rate s [] = 0"
| "granted rate s (t # ts) =
     (let (ok, s') = takeToken t rate s in (if ok then 1 else 0) + granted rate s' ts)"

lemma granted_potential:
  assumes "0 < rate"
  shows "0 \<le> sub_tokens s \<Longrightarrow> sub_lastTick s \<le> T \<Longrightarrow> \<forall>t\<in>set ts. t \<le> T \<Longrightarrow>
    int (granted rate s ts) \<le> sub_tokens s + rate * ((T - sub_lastTick s) div nano_second)"
proof (induction ts arbitrary: s)
  case Nil
  then show ?case using assms by (simp add: nano_second_def pos_imp_zdiv_nonneg_iff)
next
  case (Cons t ts)
  let ?e = "t - sub_lastTick s"
  let ?s1 = "if nano_second \<le> ?e
    then s\<lparr>sub_tokens := rate, sub_lastTick := sub_lastTick s + ?e div nano_second * nano_second\<rparr> else s"
  have pot: "sub_tokens ?s1 + rate * ((T - sub_lastTick ?s1) div nano_second) \<le>
      sub_tokens s + rate * ((T - sub_lastTick s) div nano_second) \<and> 0 \<le> sub_tokens ?s1 \<and> sub_lastTick ?s1 \<le> T"
  proof (cases "nano_second \<le> ?e")
    case True
    let ?k = "?e div nano_second"
    have k: "1 \<le> ?k" using True by (simp add: nano_second_def)
    have "T - (sub_lastTick s + ?k * nano_second) = (T - sub_lastTick s) + (- ?k) * nano_second" by simp
    then have d: "(T - (sub_lastTick s + ?k * nano_second)) div nano_second = (T - sub_lastTick s) div nano_second - ?k"
      by (simp only: div_mult_self1 [of nano_second]) (simp add: nano_second_def)
    have "?k * nano_second \<le> ?e" by (simp add: nano_second_def minus_mod_eq_div_mult [symmetric])
    moreover have "rate * 1 \<le> rate * ?k" using k assms by (intro mult_left_mono) auto
    then have "rate - rate * ?k \<le> sub_tokens s" using Cons.prems(1) by linarith
    ultimately show ?thesis
      using True Cons.prems assms d by (simp add: right_diff_distrib)
  next
    case False
    then show ?thesis using Cons.prems by simp
  qed
  have step: "takeToken t rate s =
      (if sub_tokens ?s1 \<le> 0 then (False, ?s1) else (True, ?s1\<lparr>sub_tokens := sub_tokens ?s1 - 1\<rparr>))"
    using takeToken_refill [OF assms Cons.prems(1), of t] by (simp only: Let_def)
  show ?case
  proof (cases "sub_tokens ?s1 \<le> 0")
    case True
    with Cons.IH [of ?s1] Cons.prems pot step show ?thesis by (simp del: if_split)
  next
    case False
    let ?s2 = "?s1\<lparr>sub_tokens := sub_tokens ?s1 - 1\<rparr>"
    have "int (granted rate ?s2 ts) \<le> sub_tokens ?s2 + rate * ((T - sub_lastTick ?s2) div nano_second)"
      using Cons.prems pot False by (intro Cons.IH) auto
    with pot step False show ?thesis by simp
  qed
qed

text \<open>
  The rate limit holds over any stretch of time, not only per call: with a positive rate, a fresh
  subscriber is granted at most \<open>rate\<close> events plus \<open>rate\<close> for each whole second since it subscribed,
  however many events are published and at whatever times up to \<open>T\<close>.
\<close>

theorem rate_limit:
  assumes "0 < rate" and "sub_tokens s = rate" and "sub_lastTick s \<le> T" and "\<forall>t\<in>set ts. t \<le> T"
  shows "int (granted rate s ts) \<le> rate * (1 + (T - sub_lastTick s) div nano_second)"
  using granted_potential [OF assms(1), of s T ts] assms by (simp add: distrib_left)

theorem rate_limit_witness:
  "granted 2 \<lparr>sub_ch = [], sub_filter = any_filter, sub_tokens = 2, sub_lastTick = 0\<rparr> [1, 2, 3, 4] \<le> 2"
  using rate_limit [of 2 "\<lparr>sub_ch = [], sub_filter = any_filter, sub_tokens = 2, sub_lastTick = 0\<rparr>" 4 "[1, 2, 3, 4]"]
  by (simp add: nano_second_def)

subsection \<open>Filters in URLs\<close>

lemma ParseUint32_Itoa: "ParseUint32 (Itoa (unat p)) = Some p"
proof -
  have "unat p < 2 ^ LENGTH(32)" by (rule unsigned_less)
  then show ?thesis by (simp add: ParseUint32_def Atoi_Itoa of_nat_unat)
qed

lemma map_filter_all_Some: "\<forall>x\<in>set xs. f (g x) = Some x \<Longrightarrow> List.map_filter f (map g xs) = xs"
  by (induction xs) (simp_all add: List.map_filter_simps)

lemma isTrueish_values: "isTrueish ''1''" "\<not> isTrueish []"
  by (simp_all add: isTrueish_def TrimSpace_def trim_prefixes.simps go_spaces_def ToLower_def lower_byte_def)

text \<open>
  Forwarding a subscription keeps its filter: parsing the query that \<open>ToQuery\<close> writes gives back the
  same filter, for every filter whose method names are non-empty and without surrounding space (which
  is what \<open>FilterFromQuery\<close> itself produces).
\<close>

theorem filter_query_roundtrip:
  assumes "\<forall>m\<in>set (Methods f). m \<noteq> [] \<and> TrimSpace m = m"
  shows "FilterFromQuery (ToQuery f) = f"
proof -
  have "List.map_filter ParseUint32 (map (\<lambda>p. Itoa (unat p)) (Protos f)) = Protos f"
    by (rule map_filter_all_Some) (simp add: ParseUint32_Itoa)
  moreover have "filter (\<lambda>m. m \<noteq> []) (map TrimSpace (Methods f)) = Methods f"
    using assms by (simp add: map_idI)
  ultimately show ?thesis
    by (simp add: FilterFromQuery_def ToQuery_def Let_def url_Get_def isTrueish_values)
qed

theorem filter_query_roundtrip_witness:
  "FilterFromQuery (ToQuery \<lparr>Protos = [1, 5], Methods = [''BYE''], OnlyRequests = True, IncludePayload = False\<rparr>) =
     \<lparr>Protos = [1, 5], Methods = [''BYE''], OnlyRequests = True, IncludePayload = False\<rparr>"
  by (rule filter_query_roundtrip) (simp add: TrimSpace_def trim_prefixes.simps go_spaces_def)

subsection \<open>Fallbacks\<close>

text \<open>
  A configured buffer size of 0 does not disable the history: every enabled broker built from it
  keeps ten thousand events, although the comment on \<open>BufferSize\<close> says that 0 disables the replay.
\<close>

theorem zero_buffer_keeps_history:
  assumes "st_Enable cfg" and "BufferSize cfg = 0"
  shows "\<exists>b. NewBroker cfg = Some b \<and> ring_cap b = 10000 \<and> History any_filter 0 (Publish now e b) = [e]"
proof -
  obtain b where b: "NewBroker cfg = Some b" "BufferSize (b_cfg b) = 10000"
    using assms by (auto simp: NewBroker_def applyFallbacks_def DefaultConfig_def Let_def)
  then have ok: "ring_ok b" "ring_contents b = []" using NewBroker_ring [OF b(1)] by auto
  have "ring_contents (Publish now e b) = [e]"
    using ring_contents_cong [OF ring_part_Publish, of now e b] ring_contents_append [OF ok(1), of e] ok(2) b(2)
    by (simp add: last_n_def ring_cap_def)
  then have "History any_filter 0 (Publish now e b) = [e]"
    using b(2) by (simp add: History_def Publish_subs Match_def any_filter_def)
  with b show ?thesis by (auto simp: ring_cap_def)
qed

theorem zero_buffer_keeps_history_witness:
  "\<exists>b. NewBroker (demo_cfg\<lparr>BufferSize := 0\<rparr>) = Some b \<and> ring_cap b = 10000 \<and>
     History any_filter 0 (Publish 0 zero_event b) = [zero_event]"
  by (rule zero_buffer_keeps_history) (simp_all add: demo_cfg_def)

subsection \<open>Publishing while a subscriber leaves\<close>

text \<open>
  \<open>Publish\<close> copies the subscribers under the read lock and sends to them after releasing it; \<open>cancel\<close>
  removes the subscriber under the lock and closes its channel after it. The steps of the two, between
  which the scheduler may switch: \<open>rc_snapshots\<close> holds, for each \<open>Publish\<close> in progress, the subscribers
  it still has to serve. Each is either sent to (\<open>publish_send\<close>) or skipped by its filter or its rate
  limit (\<open>publish_skip\<close>). Sending on a closed channel panics.
\<close>

record race =
  rc_subs :: "64 word set"
  rc_leaving :: "64 word set"
  rc_closed :: "64 word set"
  rc_snapshots :: "64 word list list"
  rc_panicked :: bool

inductive race_step :: "race \<Rightarrow> race \<Rightarrow> bool" where
  publish_snapshot: "set ids = rc_subs r \<Longrightarrow> distinct ids \<Longrightarrow> race_step r (r\<lparr>rc_snapshots := ids # rc_snapshots r\<rparr>)"
| publish_send:
    "n < length (rc_snapshots r) \<Longrightarrow> rc_snapshots r ! n = i # rest \<Longrightarrow>
     race_step r (r\<lparr>rc_snapshots := (rc_snapshots r)[n := rest], rc_panicked := rc_panicked r \<or> i \<in> rc_closed r\<rparr>)"
| publish_skip:
    "n < length (rc_snapshots r) \<Longrightarrow> rc_snapshots r ! n = i # rest \<Longrightarrow>
     race_step r (r\<lparr>rc_snapshots := (rc_snapshots r)[n := rest]\<rparr>)"
| cancel_remove: "i \<in> rc_subs r \<Longrightarrow> race_step r (r\<lparr>rc_subs := rc_subs r - {i}, rc_leaving := insert i (rc_leaving r)\<rparr>)"
| cancel_close: "i \<in> rc_leaving r \<Longrightarrow> race_step r (r\<lparr>rc_leaving := rc_leaving r - {i}, rc_closed := insert i (rc_closed r)\<rparr>)"

definition race_start :: "64 word set \<Rightarrow> race" where
  "race_start ids = \<lparr>rc_subs = ids, rc_leaving = {}, rc_closed = {}, rc_snapshots = [], rc_panicked = False\<rparr>"

text \<open>
  A subscriber that disconnects while an event is being published can crash the process: from a
  broker with one subscriber there is a schedule (snapshot, remove, close, send) in which \<open>Publish\<close>
  sends on the closed channel.
\<close>

theorem publish_cancel_race: "\<exists>r. race_step\<^sup>*\<^sup>* (race_start {i}) r \<and> rc_panicked r"
proof -
  let ?r1 = "(race_start {i})\<lparr>rc_snapshots := [[i]]\<rparr>"
  let ?r2 = "?r1\<lparr>rc_subs := {}, rc_leaving := {i}\<rparr>"
  let ?r3 = "?r2\<lparr>rc_leaving := {}, rc_closed := {i}\<rparr>"
  let ?r4 = "?r3\<lparr>rc_snapshots := [[]], rc_panicked := True\<rparr>"
  have 1: "race_step (race_start {i}) ?r1"
    using publish_snapshot [of "[i]" "race_start {i}"] by (simp add: race_start_def)
  have 2: "race_step ?r1 ?r2" using cancel_remove [of i ?r1] by (simp add: race_start_def)
  have 3: "race_step ?r2 ?r3" using cancel_close [of i ?r2] by (simp add: race_start_def)
  have 4: "race_step ?r3 ?r4" using publish_send [of 0 ?r3 i "[]"] by (simp add: race_start_def)
  note step = rtranclp.rtrancl_into_rtrancl [of race_step]
  have "race_step\<^sup>*\<^sup>* (race_start {i}) ?r4"
    by (rule step [OF step [OF step [OF r_into_rtranclp [of race_step, OF 1] 2] 3] 4])
  then show ?thesis by (intro exI [of _ ?r4]) simp
qed

end
