(* ===== verification/Isup_Decode.thy ===== *)
theory Isup_Decode
  imports Isup_Preserve
begin

text \<open>
  src/isup/decode.go: the decoder for ITU-T Q.763 ISUP messages carried in SIP-I bodies. A message
  type byte selects a layout (mandatory fixed octets, pointers to mandatory variable parameters, a
  pointer to the optional part); the optional part is a list of code/length/value triples. Party
  numbers are packed two digits to an octet. \<open>DecodeSIP\<close> finds the ISUP bodies of a SIP message,
  raw or in the hex form of \<open>Isup_Preserve\<close>, alone or inside a multipart body.

  A \<open>*PartyNumber\<close> or \<open>*Cause\<close> is an \<open>option\<close>. \<open>applyLayout\<close> and \<open>parseOptional\<close> change the message
  in place and may then return an error, so they return the message together with the error; an
  index or slice out of range is \<open>Panics\<close>. Only \<open>varValue\<close> returns an error alone.
\<close>

unbundle bit_operations_syntax

subsection \<open>Data\<close>

record PartyNumber =
  p_Digits :: string
  p_NatureOfAddress :: string
  p_NumberingPlan :: string
  p_Presentation :: string
  p_Screening :: string
  p_Incomplete :: bool

record Cause =
  c_Value :: nat
  c_Text :: string
  c_Location :: string

record Parameter =
  pa_Code :: nat
  pa_Name :: string
  pa_Digits :: string
  pa_Text :: string
  pa_Hex :: string

record isup_message =
  i_Type :: nat
  i_Acronym :: string
  i_Name :: string
  i_CalledPartyNumber :: "PartyNumber option"
  i_CallingPartyNumber :: "PartyNumber option"
  i_OriginalCalledNumber :: "PartyNumber option"
  i_RedirectingNumber :: "PartyNumber option"
  i_SubsequentNumber :: string
  i_Cause :: "Cause option"
  i_CallingPartyCategory :: string
  i_TransmissionMedium :: string
  i_Event :: string
  i_Parameters :: "Parameter list"
  i_Hex :: string
  i_Summary :: string
  i_Error :: string

record isup_result =
  r_ContentType :: string
  r_Version :: string
  r_Messages :: "isup_message list"
  r_Error :: string

definition zero_message :: isup_message where
  "zero_message =
     \<lparr>i_Type = 0, i_Acronym = [], i_Name = [], i_CalledPartyNumber = None, i_CallingPartyNumber = None,
      i_OriginalCalledNumber = None, i_RedirectingNumber = None, i_SubsequentNumber = [], i_Cause = None,
      i_CallingPartyCategory = [], i_TransmissionMedium = [], i_Event = [], i_Parameters = [],
      i_Hex = [], i_Summary = [], i_Error = []\<rparr>"

datatype varKind = varCalled | varCause | varSubsequent

record msgLayout =
  l_acronym :: string
  l_name :: string
  l_fixed :: nat
  l_vars :: "varKind list"
  l_opt :: bool

definition msgLayouts :: "nat \<Rightarrow> msgLayout option" where
  "msgLayouts = map_of
     [(1, \<lparr>l_acronym = ''IAM'', l_name = ''Initial address'', l_fixed = 5, l_vars = [varCalled], l_opt = True\<rparr>),
      (2, \<lparr>l_acronym = ''SAM'', l_name = ''Subsequent address'', l_fixed = 0, l_vars = [varSubsequent], l_opt = True\<rparr>),
      (3, \<lparr>l_acronym = ''INR'', l_name = ''Information request'', l_fixed = 2, l_vars = [], l_opt = True\<rparr>),
      (4, \<lparr>l_acronym = ''INF'', l_name = ''Information'', l_fixed = 2, l_vars = [], l_opt = True\<rparr>),
      (5, \<lparr>l_acronym = ''COT'', l_name = ''Continuity'', l_fixed = 1, l_vars = [], l_opt = False\<rparr>),
      (6, \<lparr>l_acronym = ''ACM'', l_name = ''Address complete'', l_fixed = 2, l_vars = [], l_opt = True\<rparr>),
      (7, \<lparr>l_acronym = ''CON'', l_name = ''Connect'', l_fixed = 2, l_vars = [], l_opt = True\<rparr>),
      (8, \<lparr>l_acronym = ''FOT'', l_name = ''Forward transfer'', l_fixed = 0, l_vars = [], l_opt = True\<rparr>),
      (9, \<lparr>l_acronym = ''ANM'', l_name = ''Answer'', l_fixed = 0, l_vars = [], l_opt = True\<rparr>),
      (12, \<lparr>l_acronym = ''REL'', l_name = ''Release'', l_fixed = 0, l_vars = [varCause], l_opt = True\<rparr>),
      (13, \<lparr>l_acronym = ''SUS'', l_name = ''Suspend'', l_fixed = 1, l_vars = [], l_opt = True\<rparr>),
      (14, \<lparr>l_acronym = ''RES'', l_name = ''Resume'', l_fixed = 1, l_vars = [], l_opt = True\<rparr>),
      (16, \<lparr>l_acronym = ''RLC'', l_name = ''Release complete'', l_fixed = 0, l_vars = [], l_opt = True\<rparr>),
      (17, \<lparr>l_acronym = ''CCR'', l_name = ''Continuity check request'', l_fixed = 0, l_vars = [], l_opt = False\<rparr>),
      (18, \<lparr>l_acronym = ''RSC'', l_name = ''Reset circuit'', l_fixed = 0, l_vars = [], l_opt = False\<rparr>),
      (19, \<lparr>l_acronym = ''BLO'', l_name = ''Blocking'', l_fixed = 0, l_vars = [], l_opt = False\<rparr>),
      (20, \<lparr>l_acronym = ''UBL'', l_name = ''Unblocking'', l_fixed = 0, l_vars = [], l_opt = False\<rparr>),
      (21, \<lparr>l_acronym = ''BLA'', l_name = ''Blocking acknowledgement'', l_fixed = 0, l_vars = [], l_opt = False\<rparr>),
      (22, \<lparr>l_acronym = ''UBA'', l_name = ''Unblocking acknowledgement'', l_fixed = 0, l_vars = [], l_opt = False\<rparr>),
      (44, \<lparr>l_acronym = ''CPG'', l_name = ''Call progress'', l_fixed = 1, l_vars = [], l_opt = True\<rparr>),
      (47, \<lparr>l_acronym = ''CFN'', l_name = ''Confusion'', l_fixed = 0, l_vars = [varCause], l_opt = True\<rparr>)]"

subsection \<open>Names of code points\<close>

definition noaName :: "nat \<Rightarrow> string" where
  "noaName v =
     (if v = 1 then ''subscriber number''
      else if v = 2 then ''unknown''
      else if v = 3 then ''national (significant) number''
      else if v = 4 then ''international number''
      else if v = 5 then ''network-specific number''
      else if v = 6 then ''network routing number, national format''
      else if v = 7 then ''network routing number, network-specific format''
      else ''nature of address '' @ Itoa v)"

definition npiName :: "nat \<Rightarrow> string" where
  "npiName v =
     (if v = 1 then ''ISDN (E.164)''
      else if v = 3 then ''data (X.121)''
      else if v = 4 then ''telex''
      else if v = 5 then ''private''
      else if v = 6 then ''reserved for national use''
      else ''numbering plan '' @ Itoa v)"

definition presentationName :: "nat \<Rightarrow> string" where
  "presentationName v =
     (if v = 0 then ''presentation allowed''
      else if v = 1 then ''presentation restricted''
      else if v = 2 then ''address not available''
      else ''presentation '' @ Itoa v)"

definition screeningName :: "nat \<Rightarrow> string" where
  "screeningName v =
     (if v = 0 then ''user provided, not verified''
      else if v = 1 then ''user provided, verified and passed''
      else if v = 2 then ''user provided, verified and failed''
      else if v = 3 then ''network provided''
      else [])"

definition cpcName :: "nat \<Rightarrow> string" where
  "cpcName v =
     (if v = 0 then ''unknown''
      else if v = 10 then ''ordinary calling subscriber''
      else if v = 11 then ''calling subscriber with priority''
      else if v = 12 then ''data call''
      else if v = 13 then ''test call''
      else if v = 15 then ''payphone''
      else ''category '' @ Itoa v)"

definition tmrName :: "nat \<Rightarrow> string" where
  "tmrName v =
     (if v = 0 then ''speech''
      else if v = 2 then ''64 kbit/s unrestricted''
      else if v = 3 then ''3.1 kHz audio''
      else if v = 6 then ''64 kbit/s preferred''
      else ''transmission medium '' @ Itoa v)"

definition cpgEvent :: "nat \<Rightarrow> string" where
  "cpgEvent v =
     (if v = 1 then ''alerting''
      else if v = 2 then ''progress''
      else if v = 3 then ''in-band information available''
      else if v = 4 then ''call forwarded on busy''
      else if v = 5 then ''call forwarded on no reply''
      else if v = 6 then ''call forwarded unconditional''
      else ''event '' @ Itoa v)"

definition causeLocation :: "nat \<Rightarrow> string" where
  "causeLocation v =
     (if v = 0 then ''user''
      else if v = 1 then ''private network serving the local user''
      else if v = 2 then ''public network serving the local user''
      else if v = 3 then ''transit network''
      else if v = 4 then ''public network serving the remote user''
      else if v = 5 then ''private network serving the remote user''
      else if v = 7 then ''international network''
      else if v = 10 then ''beyond an interworking point''
      else ''location '' @ Itoa v)"

definition genericQualifier :: "nat \<Rightarrow> string" where
  "genericQualifier v =
     (if v = 1 then ''additional called number''
      else if v = 5 then ''additional connected number''
      else if v = 6 then ''additional calling party number''
      else if v = 7 then ''additional original called number''
      else if v = 8 then ''additional redirecting number''
      else if v = 9 then ''additional redirection number''
      else ''qualifier '' @ Itoa v)"

definition paramNames :: "nat \<Rightarrow> string option" where
  "paramNames = map_of
     [(1, ''Call reference''),
      (2, ''Transmission medium requirement''),
      (3, ''Access transport''),
      (4, ''Called party number''),
      (5, ''Subsequent number''),
      (6, ''Nature of connection indicators''),
      (7, ''Forward call indicators''),
      (8, ''Optional forward call indicators''),
      (9, ''Calling party's category''),
      (10, ''Calling party number''),
      (11, ''Redirecting number''),
      (12, ''Redirection number''),
      (13, ''Connection request''),
      (16, ''Continuity indicators''),
      (17, ''Backward call indicators''),
      (18, ''Cause indicators''),
      (19, ''Redirection information''),
      (29, ''User service information''),
      (32, ''User-to-user information''),
      (33, ''Connected number''),
      (36, ''Event information''),
      (40, ''Original called number''),
      (41, ''Optional backward call indicators''),
      (42, ''User-to-user indicators''),
      (44, ''Generic notification indicator''),
      (57, ''Parameter compatibility information''),
      (61, ''Hop counter''),
      (63, ''Location number''),
      (192, ''Generic number''),
      (193, ''Generic digits'')]"

definition causeText :: "nat \<Rightarrow> string option" where
  "causeText = map_of
     [(1, ''Unallocated number''),
      (2, ''No route to specified transit network''),
      (3, ''No route to destination''),
      (16, ''Normal call clearing''),
      (17, ''User busy''),
      (18, ''No user responding''),
      (19, ''No answer from the user''),
      (20, ''Subscriber absent''),
      (21, ''Call rejected''),
      (22, ''Number changed''),
      (27, ''Destination out of order''),
      (28, ''Invalid number format''),
      (29, ''Facility rejected''),
      (31, ''Normal, unspecified''),
      (34, ''No circuit/channel available''),
      (38, ''Network out of order''),
      (41, ''Temporary failure''),
      (42, ''Switching equipment congestion''),
      (44, ''Requested circuit/channel not available''),
      (47, ''Resource unavailable, unspecified''),
      (50, ''Requested facility not subscribed''),
      (55, ''Incoming calls barred within CUG''),
      (57, ''Bearer capability not authorized''),
      (58, ''Bearer capability not presently available''),
      (63, ''Service or option not available, unspecified''),
      (65, ''Bearer capability not implemented''),
      (79, ''Service or option not implemented, unspecified''),
      (87, ''User not a member of CUG''),
      (88, ''Incompatible destination''),
      (95, ''Invalid message, unspecified''),
      (97, ''Message type non-existent or not implemented''),
      (99, ''Information element non-existent or not implemented''),
      (102, ''Recovery on timer expiry''),
      (111, ''Protocol error, unspecified''),
      (127, ''Interworking, unspecified'')]"

text \<open>\<open>fmt.Sprintf("%02X", b)\<close>\<close>

definition upper_hex_digit :: "nat \<Rightarrow> char" where
  "upper_hex_digit n = (if n < 10 then byte_of (48 + n) else byte_of (55 + n))"

definition hex02X :: "nat \<Rightarrow> string" where
  "hex02X v = [upper_hex_digit (v div 16), upper_hex_digit (v mod 16)]"

definition paramName :: "nat \<Rightarrow> string" where
  "paramName code = (case paramNames code of Some n \<Rightarrow> n | None \<Rightarrow> ''Parameter 0x'' @ hex02X code)"

subsection \<open>Digits and party numbers\<close>

definition isupDigit :: "nat \<Rightarrow> char" where
  "isupDigit n =
     (if n \<le> 9 then byte_of (48 + n)
      else if n = 10 then CHR ''A''
      else if n = 11 then CHR ''B''
      else if n = 12 then CHR ''C''
      else if n = 13 then CHR ''*''
      else if n = 14 then CHR ''#''
      else CHR ''F'')"

fun decodeDigits :: "bytes \<Rightarrow> bool \<Rightarrow> string" where
  "decodeDigits [] isOdd = []"
| "decodeDigits (c # raw) isOdd =
     isupDigit (byte_val c AND 0x0f) #
       (if raw = [] \<and> isOdd then []
        else let hi = drop_bit 4 (byte_val c)
             in if hi = 0x0f then [] else isupDigit hi # decodeDigits raw isOdd)"

definition decodeCalled :: "bytes \<Rightarrow> PartyNumber option" where
  "decodeCalled b =
     (if length b < 2 then None
      else Some \<lparr>p_Digits = decodeDigits (drop 2 b) (byte_val (b ! 0) AND 0x80 \<noteq> 0),
                 p_NatureOfAddress = noaName (byte_val (b ! 0) AND 0x7f),
                 p_NumberingPlan = npiName (drop_bit 4 (byte_val (b ! 1)) AND 0x07),
                 p_Presentation = [], p_Screening = [], p_Incomplete = False\<rparr>)"

definition decodeCalling :: "bytes \<Rightarrow> PartyNumber option" where
  "decodeCalling b =
     (if length b < 2 then None
      else Some \<lparr>p_Digits = decodeDigits (drop 2 b) (byte_val (b ! 0) AND 0x80 \<noteq> 0),
                 p_NatureOfAddress = noaName (byte_val (b ! 0) AND 0x7f),
                 p_NumberingPlan = npiName (drop_bit 4 (byte_val (b ! 1)) AND 0x07),
                 p_Presentation = presentationName (drop_bit 2 (byte_val (b ! 1)) AND 0x03),
                 p_Screening = screeningName (byte_val (b ! 1) AND 0x03),
                 p_Incomplete = (byte_val (b ! 1) AND 0x80 \<noteq> 0)\<rparr>)"

definition decodeSubsequent :: "bytes \<Rightarrow> string option" where
  "decodeSubsequent b =
     (if length b < 1 then None
      else Some (decodeDigits (drop 1 b) (byte_val (b ! 0) AND 0x80 \<noteq> 0)))"

definition decodeGeneric :: "bytes \<Rightarrow> (string \<times> PartyNumber) option" where
  "decodeGeneric b =
     (if length b < 3 then None
      else case decodeCalling (drop 1 b) of
        None \<Rightarrow> None
      | Some n \<Rightarrow> Some (genericQualifier (byte_val (b ! 0)), n))"

definition decodeCause :: "bytes \<Rightarrow> Cause option" where
  "decodeCause b =
     (if length b < 2 then None
      else if byte_val (b ! 0) AND 0x80 = 0 \<and> length b < 3 then None
      else let i = (if byte_val (b ! 0) AND 0x80 = 0 then 2 else 1);
               v = byte_val (b ! i) AND 0x7f
           in Some \<lparr>c_Value = v, c_Text = (case causeText v of None \<Rightarrow> [] | Some t \<Rightarrow> t),
                    c_Location = causeLocation (byte_val (b ! 0) AND 0x0f)\<rparr>)"

subsection \<open>Text form\<close>

definition nonempty :: "string \<Rightarrow> string list" where
  "nonempty s = (if s \<noteq> [] then [s] else [])"

definition partyTail :: "PartyNumber option \<Rightarrow> string" where
  "partyTail n =
     (case n of
        None \<Rightarrow> []
      | Some n \<Rightarrow>
          Join (nonempty (p_NatureOfAddress n) @ nonempty (p_NumberingPlan n) @ nonempty (p_Presentation n)
                @ nonempty (p_Screening n) @ (if p_Incomplete n then [''incomplete''] else [])) '', '')"

definition formatParty :: "PartyNumber option \<Rightarrow> string" where
  "formatParty n =
     (case n of
        None \<Rightarrow> []
      | Some p \<Rightarrow>
          if p_Digits p = [] then []
          else let tail = partyTail n
               in if tail = [] then p_Digits p else p_Digits p @ '' ('' @ tail @ '')'')"

text \<open>A line of the summary: a line break, a label, and the text; nothing for an empty text.\<close>

definition labelled :: "string \<Rightarrow> string \<Rightarrow> string" where
  "labelled label s = (if s \<noteq> [] then LF @ label @ '': '' @ s else [])"

definition cause_line :: "Cause option \<Rightarrow> string" where
  "cause_line co =
     (case co of
        None \<Rightarrow> []
      | Some c \<Rightarrow>
          (if c_Text c \<noteq> [] then LF @ ''Cause: '' @ Itoa (c_Value c) @ '' '' @ c_Text c
           else LF @ ''Cause: '' @ Itoa (c_Value c)) @
          (if c_Location c \<noteq> [] then '' ('' @ c_Location c @ '')'' else []))"

definition param_line :: "Parameter \<Rightarrow> string" where
  "param_line p =
     (if pa_Digits p \<noteq> [] \<and> pa_Text p \<noteq> [] then LF @ pa_Name p @ '': '' @ pa_Digits p @ '' ('' @ pa_Text p @ '')''
      else if pa_Digits p \<noteq> [] then LF @ pa_Name p @ '': '' @ pa_Digits p
      else if pa_Text p \<noteq> [] then LF @ pa_Name p @ '': '' @ pa_Text p
      else if pa_Hex p \<noteq> [] then LF @ pa_Name p @ '': '' @ pa_Hex p
      else [])"

definition summary :: "isup_message \<Rightarrow> string" where
  "summary m =
     (let title = (if i_Acronym m \<noteq> [] \<and> i_Name m \<noteq> []
                   then i_Acronym m @ '' '' @ [CHR 0xE2, CHR 0x80, CHR 0x94] @ '' '' @ i_Name m
                   else if i_Name m \<noteq> [] then i_Name m else []);
          b = title
              @ labelled ''Called party number'' (formatParty (i_CalledPartyNumber m))
              @ labelled ''Calling party number'' (formatParty (i_CallingPartyNumber m))
              @ labelled ''Original called number'' (formatParty (i_OriginalCalledNumber m))
              @ labelled ''Redirecting number'' (formatParty (i_RedirectingNumber m))
              @ labelled ''Subsequent number'' (i_SubsequentNumber m)
              @ cause_line (i_Cause m)
              @ labelled ''Calling party's category'' (i_CallingPartyCategory m)
              @ labelled ''Transmission medium'' (i_TransmissionMedium m)
              @ labelled ''Event'' (i_Event m)
              @ concat (map param_line (i_Parameters m))
      in if i_Error m \<noteq> [] then b @ (if b \<noteq> [] then LF else []) @ i_Error m else b)"

subsection \<open>The optional part\<close>

definition add_parameter :: "Parameter \<Rightarrow> isup_message \<Rightarrow> isup_message" where
  "add_parameter p msg = msg\<lparr>i_Parameters := i_Parameters msg @ [p]\<rparr>"

definition number_parameter :: "nat \<Rightarrow> string \<Rightarrow> PartyNumber \<Rightarrow> string \<Rightarrow> Parameter" where
  "number_parameter code name n txt =
     \<lparr>pa_Code = code, pa_Name = name, pa_Digits = p_Digits n, pa_Text = txt, pa_Hex = []\<rparr>"

definition addOptional :: "nat \<Rightarrow> bytes \<Rightarrow> isup_message \<Rightarrow> isup_message" where
  "addOptional code val msg =
     (if code = 4 then
        (case decodeCalled val of
           Some n \<Rightarrow> if i_CalledPartyNumber msg = None then msg\<lparr>i_CalledPartyNumber := Some n\<rparr> else msg
         | None \<Rightarrow> msg)
      else if code = 5 then
        (case decodeSubsequent val of
           Some d \<Rightarrow> if i_SubsequentNumber msg = [] then msg\<lparr>i_SubsequentNumber := d\<rparr> else msg
         | None \<Rightarrow> msg)
      else if code = 10 then
        (case decodeCalling val of Some n \<Rightarrow> msg\<lparr>i_CallingPartyNumber := Some n\<rparr> | None \<Rightarrow> msg)
      else if code = 11 then
        (case decodeCalling val of Some n \<Rightarrow> msg\<lparr>i_RedirectingNumber := Some n\<rparr> | None \<Rightarrow> msg)
      else if code = 12 then
        (case decodeCalled val of
           Some n \<Rightarrow> add_parameter (number_parameter code ''Redirection number'' n (partyTail (Some n))) msg
         | None \<Rightarrow> msg)
      else if code = 18 then
        (case decodeCause val of
           Some c \<Rightarrow> if i_Cause msg = None then msg\<lparr>i_Cause := Some c\<rparr> else msg
         | None \<Rightarrow> msg)
      else if code = 33 then
        (case decodeCalling val of
           Some n \<Rightarrow> add_parameter (number_parameter code ''Connected number'' n (partyTail (Some n))) msg
         | None \<Rightarrow> msg)
      else if code = 40 then
        (case decodeCalling val of Some n \<Rightarrow> msg\<lparr>i_OriginalCalledNumber := Some n\<rparr> | None \<Rightarrow> msg)
      else if code = 63 then
        (case decodeCalling val of
           Some n \<Rightarrow> add_parameter (number_parameter code ''Location number'' n (partyTail (Some n))) msg
         | None \<Rightarrow> msg)
      else if code = 192 then
        (case decodeGeneric val of
           Some (qual, n) \<Rightarrow> add_parameter (number_parameter code ''Generic number'' n qual) msg
         | None \<Rightarrow> msg)
      else add_parameter \<lparr>pa_Code = code, pa_Name = paramName code, pa_Digits = [], pa_Text = [],
                          pa_Hex = hex_EncodeToString val\<rparr> msg)"

definition truncated :: string where
  "truncated = ''truncated ISUP message''"

type_synonym layout_result = "(string, isup_message \<times> string option) go_result"

function parseOptional :: "isup_message \<Rightarrow> bytes \<Rightarrow> layout_result" where
  "parseOptional msg b =
     (if length b = 0 then Returns (msg, None)
      else go_bind (go_index b 0) (\<lambda>c.
        let code = byte_val c
        in if code = 0 then Returns (msg, None)
           else if length b < 2 then Returns (msg, Some truncated)
           else go_bind (go_index b 1) (\<lambda>c1.
             let ln = byte_val c1
             in if length b < 2 + ln then Returns (msg, Some truncated)
                else go_bind (go_slice b 2 (2 + ln)) (\<lambda>val.
                     parseOptional (addOptional code val msg) (drop (2 + ln) b)))))"
  by pat_completeness auto
termination
  by (relation "measure (\<lambda>(_, b). length b)") auto

declare parseOptional.simps [simp del]

subsection \<open>The mandatory part\<close>

definition varValue :: "bytes \<Rightarrow> nat \<Rightarrow> (string, bytes) go_result" where
  "varValue b start =
     (if length b \<le> start then Fails truncated
      else go_bind (go_index b start) (\<lambda>c.
        let ln = byte_val c
        in if length b < start + 1 + ln then Fails truncated
           else go_slice b (start + 1) (start + 1 + ln)))"

definition set_var :: "varKind \<Rightarrow> bytes \<Rightarrow> isup_message \<Rightarrow> isup_message" where
  "set_var kind val msg =
     (case kind of
        varCalled \<Rightarrow> (case decodeCalled val of Some n \<Rightarrow> msg\<lparr>i_CalledPartyNumber := Some n\<rparr> | None \<Rightarrow> msg)
      | varCause \<Rightarrow> (case decodeCause val of Some c \<Rightarrow> msg\<lparr>i_Cause := Some c\<rparr> | None \<Rightarrow> msg)
      | varSubsequent \<Rightarrow> (case decodeSubsequent val of Some d \<Rightarrow> msg\<lparr>i_SubsequentNumber := d\<rparr> | None \<Rightarrow> msg))"

text \<open>The loop over the mandatory variable parameters; the pointer at \<open>ptrPos\<close> is relative to itself.\<close>

fun vars_loop :: "isup_message \<Rightarrow> bytes \<Rightarrow> nat \<Rightarrow> varKind list \<Rightarrow> layout_result" where
  "vars_loop msg b ptrPos [] = Returns (msg, None)"
| "vars_loop msg b ptrPos (kind # kinds) =
     go_bind (go_index b ptrPos) (\<lambda>c.
       case varValue b (ptrPos + byte_val c) of
         Panics \<Rightarrow> Panics
       | Fails e \<Rightarrow> Returns (msg, Some e)
       | Returns val \<Rightarrow> vars_loop (set_var kind val msg) b (ptrPos + 1) kinds)"

definition fixed_part :: "isup_message \<Rightarrow> bytes \<Rightarrow> msgLayout \<Rightarrow> (string, isup_message) go_result" where
  "fixed_part msg b layout =
     (if l_acronym layout = ''IAM'' then
        go_bind (go_index b 4) (\<lambda>c4. go_bind (go_index b 5) (\<lambda>c5.
          Returns (msg\<lparr>i_CallingPartyCategory := cpcName (byte_val c4),
                       i_TransmissionMedium := tmrName (byte_val c5)\<rparr>)))
      else if l_acronym layout = ''CPG'' then
        go_bind (go_index b 1) (\<lambda>c1. Returns (msg\<lparr>i_Event := cpgEvent (byte_val c1 AND 0x7f)\<rparr>))
      else Returns msg)"

definition layout_need :: "msgLayout \<Rightarrow> nat" where
  "layout_need layout = 1 + l_fixed layout + length (l_vars layout) + (if l_opt layout then 1 else 0)"

definition applyLayout :: "isup_message \<Rightarrow> bytes \<Rightarrow> msgLayout \<Rightarrow> layout_result" where
  "applyLayout msg b layout =
     (if length b < layout_need layout then Returns (msg, Some truncated)
      else go_bind (fixed_part msg b layout) (\<lambda>msg1.
        let base = 1 + l_fixed layout
        in go_bind (vars_loop msg1 b base (l_vars layout)) (\<lambda>(msg2, err).
          if err \<noteq> None then Returns (msg2, err)
          else if \<not> l_opt layout then Returns (msg2, None)
          else let ptrPos = base + length (l_vars layout)
               in go_bind (go_index b ptrPos) (\<lambda>c.
                 if byte_val c = 0 then Returns (msg2, None)
                 else let start = ptrPos + byte_val c
                      in if length b < start then Returns (msg2, Some truncated)
                         else go_bind (go_slice b start (length b)) (\<lambda>rest. parseOptional msg2 rest)))))"

definition isup_Decode :: "bytes \<Rightarrow> (string, isup_message) go_result" where
  "isup_Decode b =
     (let msg = zero_message\<lparr>i_Hex := hex_EncodeToString b\<rparr>
      in if length b = 0 then
           Returns (msg\<lparr>i_Error := ''Empty ISUP body'', i_Summary := ''Empty ISUP body''\<rparr>)
         else go_bind (go_index b 0) (\<lambda>c.
           let msg1 = msg\<lparr>i_Type := byte_val c\<rparr>
           in case msgLayouts (byte_val c) of
                None \<Rightarrow>
                  let msg2 = msg1\<lparr>i_Acronym := ''0x'' @ hex02X (byte_val c), i_Name := ''Unknown message'',
                                  i_Error := ''Unsupported ISUP message type''\<rparr>
                  in Returns (msg2\<lparr>i_Summary := summary msg2\<rparr>)
              | Some layout \<Rightarrow>
                  go_bind (applyLayout (msg1\<lparr>i_Acronym := l_acronym layout, i_Name := l_name layout\<rparr>) b layout)
                    (\<lambda>(msg2, err).
                      let msg3 = (case err of None \<Rightarrow> msg2 | Some e \<Rightarrow> msg2\<lparr>i_Error := e\<rparr>)
                      in Returns (msg3\<lparr>i_Summary := summary msg3\<rparr>))))"

subsection \<open>ISUP bodies of a SIP message\<close>

definition entityBody :: "b64_decoder \<Rightarrow> string \<Rightarrow> string \<Rightarrow> string \<Rightarrow> bytes option" where
  "entityBody b64 headers nl body =
     (case headerValue headers nl binaryBodyHeader of
        None \<Rightarrow> Some body
      | Some enc \<Rightarrow> decodeEncodedBody b64 enc body)"

definition versionLooksANSI :: "string \<Rightarrow> bool" where
  "versionLooksANSI version \<longleftrightarrow> Contains (ToLower version) ''ansi''"

definition decodeOrReject :: "string \<Rightarrow> bytes \<Rightarrow> (string, isup_message) go_result" where
  "decodeOrReject version raw =
     (if versionLooksANSI version
      then Returns (zero_message\<lparr>i_Name := ''ISUP'', i_Hex := hex_EncodeToString raw,
                                 i_Error := ''ANSI ISUP is not decoded'', i_Summary := ''ANSI ISUP is not decoded''\<rparr>)
      else isup_Decode raw)"

definition undecodable :: string where
  "undecodable = ''ISUP body could not be decoded''"

text \<open>The variables of the loop of \<open>decodeMultipart\<close>: messages, version, first content type, found.\<close>

record multi_state =
  mu_messages :: "isup_message list"
  mu_version :: string
  mu_partCT :: string
  mu_found :: bool

definition multi_part :: "media_parser \<Rightarrow> b64_decoder \<Rightarrow> string \<Rightarrow> string \<Rightarrow> multi_state \<Rightarrow> (string, multi_state) go_result" where
  "multi_part mp b64 nl seg st =
     (if HasPrefix seg ''--'' then Returns st
      else
        let rest = fst (cut_suffix nl (snd (cut_prefix nl seg)))
        in case splitSIP rest of
             None \<Rightarrow> Returns st
           | Some (ph, pnl, pb) \<Rightarrow>
               let pct = headerValue_or_empty ph pnl ''Content-Type''
               in case isISUPType mp pct of
                    None \<Rightarrow> Returns st
                  | Some ver \<Rightarrow>
                      let st1 = st\<lparr>mu_found := True\<rparr>;
                          st2 = (if mu_partCT st1 = [] then st1\<lparr>mu_partCT := pct, mu_version := ver\<rparr> else st1)
                      in case entityBody b64 ph pnl pb of
                           None \<Rightarrow>
                             Returns (st2\<lparr>mu_messages := mu_messages st2 @
                               [zero_message\<lparr>i_Name := ''ISUP'', i_Error := undecodable, i_Summary := undecodable\<rparr>]\<rparr>)
                         | Some raw \<Rightarrow>
                             go_bind (decodeOrReject ver raw) (\<lambda>m.
                               Returns (st2\<lparr>mu_messages := mu_messages st2 @ [m]\<rparr>)))"

fun multi_loop :: "media_parser \<Rightarrow> b64_decoder \<Rightarrow> string \<Rightarrow> string list \<Rightarrow> multi_state \<Rightarrow> (string, multi_state) go_result" where
  "multi_loop mp b64 nl [] st = Returns st"
| "multi_loop mp b64 nl (seg # segs) st = go_bind (multi_part mp b64 nl seg st) (multi_loop mp b64 nl segs)"

definition decodeMultipart ::
  "media_parser \<Rightarrow> b64_decoder \<Rightarrow> string \<Rightarrow> string \<Rightarrow> string \<Rightarrow> string \<Rightarrow> (string, isup_result option) go_result" where
  "decodeMultipart mp b64 body boundary nl topCT =
     (let marker = ''--'' @ boundary
      in if \<not> Contains body marker then Returns None
         else go_bind
                (multi_loop mp b64 nl (drop 1 (Split body marker))
                   \<lparr>mu_messages = [], mu_version = [], mu_partCT = [], mu_found = False\<rparr>)
                (\<lambda>st. if \<not> mu_found st then Returns None
                      else let ct = (if mu_partCT st = [] then topCT else mu_partCT st)
                           in Returns (Some \<lparr>r_ContentType = ct, r_Version = mu_version st,
                                             r_Messages = mu_messages st, r_Error = []\<rparr>)))"

definition DecodeSIP :: "media_parser \<Rightarrow> b64_decoder \<Rightarrow> string \<Rightarrow> (string, isup_result option) go_result" where
  "DecodeSIP mp b64 payload =
     (case splitSIP payload of
        None \<Rightarrow> Returns None
      | Some (headers, nl, body) \<Rightarrow>
          let ct = headerValue_or_empty headers nl ''Content-Type''
          in case multipartBoundary mp ct of
               Some boundary \<Rightarrow> decodeMultipart mp b64 body boundary nl ct
             | None \<Rightarrow>
                 (case isISUPType mp ct of
                    None \<Rightarrow> Returns None
                  | Some version \<Rightarrow>
                      (case entityBody b64 headers nl body of
                         None \<Rightarrow>
                           Returns (Some \<lparr>r_ContentType = ct, r_Version = version, r_Messages = [],
                                          r_Error = undecodable\<rparr>)
                       | Some raw \<Rightarrow>
                           go_bind (decodeOrReject version raw) (\<lambda>m.
                             Returns (Some \<lparr>r_ContentType = ct, r_Version = version,
                                            r_Messages = [m], r_Error = []\<rparr>)))))"

subsection \<open>Totality\<close>

text \<open>What the decoding steps never change.\<close>

definition frame :: "isup_message \<Rightarrow> nat \<times> string \<times> string \<times> string \<times> string" where
  "frame m = (i_Type m, i_Acronym m, i_Name m, i_Hex m, i_Error m)"

lemma addOptional_frame: "frame (addOptional code val msg) = frame msg"
  by (simp add: addOptional_def frame_def add_parameter_def split: option.split prod.split)

lemma set_var_frame: "frame (set_var kind val msg) = frame msg"
  by (simp add: set_var_def frame_def split: option.split varKind.split)

text \<open>A result that is a message with the same frame, and an error only if it is the truncation one.\<close>

definition settles :: "isup_message \<Rightarrow> layout_result \<Rightarrow> bool" where
  "settles msg r \<longleftrightarrow> (\<exists>m e. r = Returns (m, e) \<and> frame m = frame msg \<and> e \<in> {None, Some truncated})"

lemma settlesI: "frame m = frame msg \<Longrightarrow> e \<in> {None, Some truncated} \<Longrightarrow> settles msg (Returns (m, e))"
  by (auto simp: settles_def)

lemma parseOptional_settles: "settles msg (parseOptional msg b)"
proof (induction msg b rule: parseOptional.induct)
  case (1 msg b)
  show ?case
  proof (cases "length b = 0 \<or> byte_val (b ! 0) = 0 \<or> length b < 2 \<or> length b < 2 + byte_val (b ! 1)")
    case True
    then show ?thesis
      by (subst parseOptional.simps) (auto simp: settles_def go_index_def Let_def)
  next
    case False
    let ?ln = "byte_val (b ! 1)" and ?code = "byte_val (b ! 0)"
    let ?msg = "addOptional ?code (take ?ln (drop 2 b)) msg"
    have step: "parseOptional msg b = parseOptional ?msg (drop (2 + ?ln) b)"
      using False by (subst parseOptional.simps) (simp add: go_index_def go_slice_def Let_def)
    have "settles ?msg (parseOptional ?msg (drop (2 + ?ln) b))"
      by (rule "1.IH" [OF _ refl _ _ refl]) (use False in \<open>auto simp: go_index_def go_slice_def\<close>)
    then show ?thesis by (simp add: step settles_def addOptional_frame)
  qed
qed

lemma varValue_cases: "(\<exists>v. varValue b i = Returns v) \<or> varValue b i = Fails truncated"
  by (simp add: varValue_def go_index_def go_slice_def Let_def)

lemma vars_loop_settles: "ptr + length kinds \<le> length b \<Longrightarrow> settles msg (vars_loop msg b ptr kinds)"
proof (induction kinds arbitrary: msg ptr)
  case Nil
  then show ?case by (simp add: settles_def)
next
  case (Cons k ks)
  then have idx: "go_index b ptr = Returns (b ! ptr)" by (simp add: go_index_def)
  have rest: "settles (set_var k v msg) (vars_loop (set_var k v msg) b (Suc ptr) ks)" for v
    using Cons.prems by (intro Cons.IH) simp
  show ?case
    using varValue_cases [of b "ptr + byte_val (b ! ptr)"] rest
    by (auto simp: idx settles_def set_var_frame)
qed

lemma msgLayouts_fixed:
  assumes "msgLayouts c = Some l"
  shows "l_acronym l = ''IAM'' \<Longrightarrow> l_fixed l = 5" and "l_acronym l = ''CPG'' \<Longrightarrow> l_fixed l = 1"
  using assms by (auto simp: msgLayouts_def split: if_splits)

lemma fixed_part_Returns:
  assumes "msgLayouts c = Some l" and "layout_need l \<le> length b"
  shows "\<exists>m. fixed_part msg b l = Returns m \<and> frame m = frame msg"
  using assms(2) msgLayouts_fixed [OF assms(1)]
  by (auto simp: fixed_part_def go_index_def frame_def layout_need_def)

lemma applyLayout_settles:
  assumes l: "msgLayouts c = Some l"
  shows "settles msg (applyLayout msg b l)"
proof (cases "length b < layout_need l")
  case True
  then show ?thesis by (simp add: applyLayout_def settles_def)
next
  case False
  then obtain m1 where m1: "fixed_part msg b l = Returns m1" "frame m1 = frame msg"
    using fixed_part_Returns [OF l, of b msg] by auto
  let ?ptr = "1 + l_fixed l + length (l_vars l)"
  have "settles m1 (vars_loop m1 b (1 + l_fixed l) (l_vars l))"
    using False by (intro vars_loop_settles) (simp add: layout_need_def)
  then obtain m2 e2 where m2: "vars_loop m1 b (1 + l_fixed l) (l_vars l) = Returns (m2, e2)"
      "frame m2 = frame msg" "e2 \<in> {None, Some truncated}"
    using m1(2) by (auto simp: settles_def)
  have rest: "settles m2 (parseOptional m2 r)" for r by (rule parseOptional_settles)
  have "Suc (l_fixed l + length (l_vars l)) < length b" if "l_opt l"
    using False that by (simp add: layout_need_def)
  then show ?thesis
    using False m1 m2 rest by (auto simp: applyLayout_def settles_def Let_def go_index_def go_slice_def)
qed

lemma isup_Decode_Returns:
  assumes "b \<noteq> []" and "msgLayouts (byte_val (hd b)) = Some l"
    and "applyLayout (zero_message\<lparr>i_Hex := hex_EncodeToString b, i_Type := byte_val (hd b),
                                  i_Acronym := l_acronym l, i_Name := l_name l\<rparr>) b l = Returns (m, e)"
    and "m' = m\<lparr>i_Error := (case e of None \<Rightarrow> i_Error m | Some x \<Rightarrow> x)\<rparr>"
  shows "isup_Decode b = Returns (m'\<lparr>i_Summary := summary m'\<rparr>)"
proof -
  have "go_index b 0 = (Returns (hd b) :: (string, char) go_result)"
    using assms(1) by (simp add: go_index_def hd_conv_nth)
  then show ?thesis
    using assms by (cases e) (simp_all add: isup_Decode_def Let_def)
qed

lemma isup_Decode_returns: "\<exists>m. isup_Decode b = Returns m"
proof (cases "b = [] \<or> msgLayouts (byte_val (hd b)) = None")
  case True
  then show ?thesis by (auto simp: isup_Decode_def Let_def go_index_def hd_conv_nth)
next
  case False
  then obtain l where l: "msgLayouts (byte_val (hd b)) = Some l" by auto
  with False show ?thesis
    using isup_Decode_Returns [OF _ l _ refl] applyLayout_settles [OF l] by (fastforce simp: settles_def)
qed

text \<open>
  The ISUP decoder is total: for every byte string it returns a message without reading outside
  the body. The message keeps the whole body in hexadecimal (it can be read back), and its error is
  empty or one of three texts, the first two exactly for an empty body and an unknown message type.
\<close>

theorem isup_decode_total:
  "\<exists>m. isup_Decode b = Returns m \<and> hex_DecodeString (i_Hex m) = Some b
     \<and> i_Error m \<in> {[], ''Empty ISUP body'', ''Unsupported ISUP message type'', truncated}
     \<and> (i_Error m = ''Empty ISUP body'' \<longleftrightarrow> b = [])
     \<and> (i_Error m = ''Unsupported ISUP message type'' \<longleftrightarrow> b \<noteq> [] \<and> msgLayouts (byte_val (hd b)) = None)"
proof (cases "b = []")
  case True
  then show ?thesis by (simp add: isup_Decode_def Let_def)
next
  case False
  show ?thesis
  proof (cases "msgLayouts (byte_val (hd b))")
    case None
    then show ?thesis
      using False
      by (simp add: isup_Decode_def Let_def go_index_def hd_conv_nth hex_Decode_Encode)
  next
    case (Some l)
    let ?msg = "zero_message\<lparr>i_Hex := hex_EncodeToString b, i_Type := byte_val (hd b),
                              i_Acronym := l_acronym l, i_Name := l_name l\<rparr>"
    obtain m e where me: "applyLayout ?msg b l = Returns (m, e)" "frame m = frame ?msg" "e \<in> {None, Some truncated}"
      using applyLayout_settles [OF Some, of ?msg b] by (auto simp: settles_def)
    let ?m = "m\<lparr>i_Error := (case e of None \<Rightarrow> i_Error m | Some x \<Rightarrow> x)\<rparr>"
    have "isup_Decode b = Returns (?m\<lparr>i_Summary := summary ?m\<rparr>)"
      by (rule isup_Decode_Returns [OF False Some me(1) refl])
    moreover have "i_Hex m = hex_EncodeToString b" "i_Error m = []"
      using me(2) by (simp_all add: frame_def zero_message_def)
    ultimately show ?thesis
      using me(3) False Some by (auto simp: hex_Decode_Encode truncated_def)
  qed
qed

subsection \<open>Digits\<close>

text \<open>The reference encoding of a digit string: two nibbles to an octet, low first, filler 0 at the end.\<close>

fun encodeDigits :: "nat list \<Rightarrow> bytes" where
  "encodeDigits [] = []"
| "encodeDigits [d] = [byte_of d]"
| "encodeDigits (d # e # ds) = byte_of (d + 16 * e) # encodeDigits ds"

lemma nibbles:
  fixes d e :: nat
  assumes "d < 16" and "e < 16"
  shows "(d + 16 * e) AND 0x0f = d" and "drop_bit 4 (d + 16 * e) = e"
proof -
  have "n AND 0x0f = n mod 16" for n :: nat
    using take_bit_eq_mask [of 4 n] by (simp add: take_bit_eq_mod mask_eq_exp_minus_1)
  then show "(d + 16 * e) AND 0x0f = d" using assms by simp
  show "drop_bit 4 (d + 16 * e) = e" using assms by (simp add: drop_bit_eq_div)
qed

lemma encodeDigits_eq_Nil: "encodeDigits ds = [] \<longleftrightarrow> ds = []"
  by (cases ds rule: encodeDigits.cases) auto

lemma isupDigit_nth: "n < 16 \<Longrightarrow> isupDigit n = ''0123456789ABC*#F'' ! n"
proof -
  assume "n < 16"
  then have "n \<in> {0, 1, 2, 3, 4, 5, 6, 7, 8, 9, 10, 11, 12, 13, 14, 15}"
    by (simp only: insert_iff empty_iff) presburger
  then show ?thesis by (elim insertE) (simp_all add: isupDigit_def char_of_def bit_0)
qed

lemma isupDigit_inj: "inj_on isupDigit {..<16}"
  by (auto intro!: inj_onI simp: isupDigit_nth nth_eq_iff_index_eq)

lemma decodeDigits_encodeDigits:
  "\<forall>d\<in>set ds. d < 15 \<Longrightarrow> decodeDigits (encodeDigits ds) (odd (length ds)) = map isupDigit ds"
proof (induction ds rule: encodeDigits.induct)
  case (2 d)
  then show ?case using nibbles(1) [of d 0] by simp
next
  case (3 d e ds)
  then have "d < 16" "e < 16" "e \<noteq> 15" by auto
  moreover have "\<not> (encodeDigits ds = [] \<and> odd (length ds))" by (auto simp: encodeDigits_eq_Nil)
  ultimately show ?case using 3 by (simp add: nibbles Let_def)
qed simp

lemma and_80: "n < 256 \<Longrightarrow> n AND 0x80 \<noteq> 0 \<longleftrightarrow> 128 \<le> n" for n :: nat
proof -
  assume "n < 256"
  then have "n div 128 = (if 128 \<le> n then 1 else 0)" by (auto intro: div_nat_eqI)
  then show ?thesis using and_exp_eq_0_iff_not_bit [of n 7] by (simp add: bit_iff_odd)
qed

subsection \<open>Well-formed messages\<close>

text \<open>
  The reference encoding of Q.763: type octet, fixed octets, one pointer per mandatory variable
  parameter and one to the optional part (each counted from its own position), the variable
  parameters with their lengths, the optional parameters with code and length, and a zero octet.
\<close>

definition encode_param :: "nat \<times> bytes \<Rightarrow> bytes" where
  "encode_param p = byte_of (fst p) # byte_of (length (snd p)) # snd p"

definition encode_params :: "(nat \<times> bytes) list \<Rightarrow> bytes" where
  "encode_params ps = concat (map encode_param ps) @ [byte_of 0]"

fun var_pointers :: "nat \<Rightarrow> bytes list \<Rightarrow> bytes" where
  "var_pointers off [] = []"
| "var_pointers off (v # vs) = byte_of off # var_pointers (off + length v) vs"

definition var_area :: "bytes list \<Rightarrow> bytes" where
  "var_area vs = concat (map (\<lambda>v. byte_of (length v) # v) vs)"

definition encode_message :: "nat \<Rightarrow> msgLayout \<Rightarrow> bytes \<Rightarrow> bytes list \<Rightarrow> (nat \<times> bytes) list \<Rightarrow> bytes" where
  "encode_message c l fx vs ps =
     byte_of c # fx @ var_pointers (length vs + (if l_opt l then 1 else 0)) vs
       @ (if l_opt l then [byte_of (if ps = [] then 0 else 1 + length (var_area vs))] else [])
       @ var_area vs @ (if ps = [] then [] else encode_params ps)"

definition fixed_fields :: "msgLayout \<Rightarrow> bytes \<Rightarrow> isup_message \<Rightarrow> isup_message" where
  "fixed_fields l fx msg =
     (if l_acronym l = ''IAM''
      then msg\<lparr>i_CallingPartyCategory := cpcName (byte_val (fx ! 3)), i_TransmissionMedium := tmrName (byte_val (fx ! 4))\<rparr>
      else if l_acronym l = ''CPG'' then msg\<lparr>i_Event := cpgEvent (byte_val (fx ! 0) AND 0x7f)\<rparr>
      else msg)"

lemma var_area_simps [simp]: "var_area [] = []" "var_area (v # vs) = byte_of (length v) # v @ var_area vs"
  by (simp_all add: var_area_def)

lemma length_var_pointers [simp]: "length (var_pointers off vs) = length vs"
  by (induction vs arbitrary: off) auto

lemma byte_val_of_small: "n < 256 \<Longrightarrow> byte_val (byte_of n) = n"
  by (simp add: of_char_of)

lemma parseOptional_step:
  assumes "0 < c" and "c < 256" and "length v < 256"
  shows "parseOptional msg (encode_param (c, v) @ r) = parseOptional (addOptional c v msg) r"
  using assms
  by (subst parseOptional.simps) (simp add: encode_param_def go_index_def go_slice_def Let_def byte_val_of_small)

lemma parseOptional_end: "parseOptional msg (byte_of 0 # r) = Returns (msg, None)"
  by (subst parseOptional.simps) (simp add: go_index_def)

lemma parseOptional_encode:
  "\<forall>(c, v) \<in> set ps. 0 < c \<and> c < 256 \<and> length v < 256 \<Longrightarrow>
   parseOptional msg (encode_params ps @ r) = Returns (fold (\<lambda>(c, v). addOptional c v) ps msg, None)"
proof (induction ps arbitrary: msg)
  case Nil
  show ?case by (simp add: encode_params_def parseOptional_end [simplified])
next
  case (Cons p ps)
  obtain c v where p: "p = (c, v)" by fastforce
  have "parseOptional msg (encode_params (p # ps) @ r) = parseOptional msg (encode_param (c, v) @ encode_params ps @ r)"
    by (simp add: encode_params_def p)
  also have "\<dots> = parseOptional (addOptional c v msg) (encode_params ps @ r)"
    using Cons.prems by (intro parseOptional_step) (auto simp: p)
  finally show ?case using Cons by (simp add: p)
qed

lemma vars_loop_encode:
  assumes "length kinds = length vs" and "off = length vs + length gap"
    and "off + length (var_area vs) < 256"
    and "b = pre @ var_pointers off vs @ gap @ var_area vs @ post"
  shows "vars_loop msg b (length pre) kinds =
           Returns (fold (\<lambda>(k, v). set_var k v) (zip kinds vs) msg, None)"
  using assms
proof (induction vs arbitrary: kinds off gap pre msg)
  case Nil
  then show ?case by simp
next
  case (Cons v vs)
  then obtain k ks where k: "kinds = k # ks" "length ks = length vs" by (cases kinds) auto
  let ?pre = "pre @ [byte_of off]" and ?gap = "gap @ byte_of (length v) # v"
  have b: "b = ?pre @ var_pointers (off + length v) vs @ ?gap @ var_area vs @ post"
    using Cons.prems(4) by simp
  have off: "off = length vs + length gap + 1" and small: "off < 256" "length v < 256"
    using Cons.prems by auto
  have ptr: "length pre < length b" "b ! length pre = byte_of off" using Cons.prems(4) by auto
  have bval: "b = (?pre @ var_pointers (off + length v) vs @ gap) @ byte_of (length v) # v @ var_area vs @ post"
    using b by simp
  have len: "length (?pre @ var_pointers (off + length v) vs @ gap) = length pre + off" using off by simp
  have "varValue b (length pre + off) = Returns v"
    using small unfolding bval len [symmetric] varValue_def go_index_def go_slice_def
    by (simp add: byte_val_of_small nth_append Let_def)
  then have "vars_loop msg b (length pre) kinds = vars_loop (set_var k v msg) b (length ?pre) ks"
    using k ptr small by (simp add: go_index_def byte_val_of_small)
  also have "\<dots> = Returns (fold (\<lambda>(k, v). set_var k v) (zip ks vs) (set_var k v msg), None)"
    by (rule Cons.IH [OF k(2) _ _ b]) (use Cons.prems off in auto)
  finally show ?case by (simp add: k)
qed

text \<open>What the decoder reads from a well-formed message.\<close>

definition message_of :: "nat \<Rightarrow> msgLayout \<Rightarrow> bytes \<Rightarrow> bytes list \<Rightarrow> (nat \<times> bytes) list \<Rightarrow> bytes \<Rightarrow> isup_message" where
  "message_of c l fx vs ps b =
     fold (\<lambda>(c, v). addOptional c v) ps
       (fold (\<lambda>(k, v). set_var k v) (zip (l_vars l) vs)
         (fixed_fields l fx
           (zero_message\<lparr>i_Hex := hex_EncodeToString b, i_Type := c, i_Acronym := l_acronym l, i_Name := l_name l\<rparr>)))"

definition well_formed :: "msgLayout \<Rightarrow> bytes \<Rightarrow> bytes list \<Rightarrow> (nat \<times> bytes) list \<Rightarrow> bool" where
  "well_formed l fx vs ps \<longleftrightarrow>
     length fx = l_fixed l \<and> length vs = length (l_vars l) \<and> length vs + 1 + length (var_area vs) < 256
     \<and> (ps \<noteq> [] \<longrightarrow> l_opt l) \<and> list_all (\<lambda>(c, v). 0 < c \<and> c < 256 \<and> length v < 256) ps"

lemma fixed_part_encode:
  assumes "msgLayouts c = Some l" and "length fx = l_fixed l"
  shows "fixed_part msg (x # fx @ r) l = Returns (fixed_fields l fx msg)"
proof -
  have nth: "fx ! k = (x # fx @ r) ! Suc k" if "k < l_fixed l" for k
    using that assms(2) by (simp add: nth_append)
  show ?thesis
    using msgLayouts_fixed [OF assms(1)] assms(2) nth [of 3] nth [of 4] nth [of 0]
    by (auto simp: fixed_part_def fixed_fields_def go_index_def eval_nat_numeral)
qed

lemma applyLayout_encode:
  assumes l: "msgLayouts c = Some l" and wf: "well_formed l fx vs ps"
  shows "applyLayout msg (encode_message c l fx vs ps) l =
           Returns (fold (\<lambda>(c, v). addOptional c v) ps
                      (fold (\<lambda>(k, v). set_var k v) (zip (l_vars l) vs) (fixed_fields l fx msg)), None)"
proof -
  let ?b = "encode_message c l fx vs ps"
  let ?gap = "if l_opt l then [byte_of (if ps = [] then 0 else 1 + length (var_area vs))] else []"
  let ?opt = "if ps = [] then [] else encode_params ps"
  let ?pre = "byte_of c # fx"
  let ?off = "length vs + (if l_opt l then 1 else 0)"
  have b: "?b = ?pre @ var_pointers ?off vs @ ?gap @ var_area vs @ ?opt" by (simp add: encode_message_def)
  have len: "length fx = l_fixed l" "length (l_vars l) = length vs" using wf by (simp_all add: well_formed_def)
  have need: "\<not> length ?b < layout_need l" unfolding b using len by (auto simp: layout_need_def)
  have fixed: "fixed_part msg ?b l = Returns (fixed_fields l fx msg)"
    unfolding encode_message_def by (rule fixed_part_encode [OF l len(1)])
  have vars: "vars_loop m ?b (1 + l_fixed l) (l_vars l) =
      Returns (fold (\<lambda>(k, v). set_var k v) (zip (l_vars l) vs) m, None)" for m
    using vars_loop_encode [OF len(2) _ _ b, of m] wf len by (simp add: well_formed_def)
  have opt: "parseOptional m (drop (2 + l_fixed l + length vs + length (var_area vs)) ?b) =
      Returns (fold (\<lambda>(c, v). addOptional c v) ps m, None)" if "ps \<noteq> []" for m
  proof -
    have "?b = (?pre @ var_pointers ?off vs @ ?gap @ var_area vs) @ encode_params ps" using b that by simp
    moreover have "length (?pre @ var_pointers ?off vs @ ?gap @ var_area vs) = 2 + l_fixed l + length vs + length (var_area vs)"
      using len wf that by (simp add: well_formed_def)
    ultimately have "drop (2 + l_fixed l + length vs + length (var_area vs)) ?b = encode_params ps"
      by (metis append_eq_conv_conj)
    then show ?thesis
      using parseOptional_encode [of ps m "[]"] wf by (simp add: well_formed_def list_all_iff)
  qed
  have ptr: "?b ! (1 + l_fixed l + length vs) = byte_of (if ps = [] then 0 else 1 + length (var_area vs))" if "l_opt l"
    unfolding b using that len by (simp add: nth_append)
  have long: "2 + l_fixed l + length vs + length (var_area vs) \<le> length ?b" if "l_opt l"
    unfolding b using that len by simp
  have "byte_val (byte_of (if ps = [] then 0 else 1 + length (var_area vs))) = (if ps = [] then 0 else 1 + length (var_area vs))"
    using wf by (intro byte_val_of_small) (auto simp: well_formed_def)
  then show ?thesis
    using need fixed vars opt ptr long wf
    by (auto simp: applyLayout_def Let_def len go_index_def go_slice_def well_formed_def)
qed

text \<open>
  C37. Every well-formed ISUP message is decoded without error: for each message type of the table,
  the fixed octets, the mandatory variable parameters behind their pointers and the optional
  parameters are all found and applied in order, whatever the values are, and the summary is that of
  the decoded message.
\<close>

theorem isup_message_decodes:
  assumes "msgLayouts c = Some l" and "well_formed l fx vs ps" and "c < 256"
    and "b = encode_message c l fx vs ps" and "m = message_of c l fx vs ps b"
  shows "isup_Decode b = Returns (m\<lparr>i_Summary := summary m\<rparr>)"
proof -
  have hd: "b \<noteq> []" "byte_val (hd b) = c" using assms(3,4) by (simp_all add: encode_message_def of_char_of)
  have "applyLayout (zero_message\<lparr>i_Hex := hex_EncodeToString b, i_Type := byte_val (hd b),
                       i_Acronym := l_acronym l, i_Name := l_name l\<rparr>) b l = Returns (m, None)"
    unfolding hd(2) using assms(4,5) applyLayout_encode [OF assms(1,2)] by (simp add: message_of_def)
  then show ?thesis
    using isup_Decode_Returns [of b l m None m] hd assms(1) by simp
qed

definition rel_layout :: msgLayout where
  "rel_layout = \<lparr>l_acronym = ''REL'', l_name = ''Release'', l_fixed = 0, l_vars = [varCause], l_opt = True\<rparr>"

theorem isup_message_decodes_witness:
  "\<exists>m. isup_Decode (encode_message 12 rel_layout [] [[CHR 0x80, CHR 0x90]] [(61, ''a'')]) = Returns m
     \<and> i_Error m = [] \<and> map_option c_Text (i_Cause m) = Some ''Normal call clearing''
     \<and> map pa_Name (i_Parameters m) = [''Hop counter'']"
proof -
  let ?b = "encode_message 12 rel_layout [] [[CHR 0x80, CHR 0x90]] [(61, ''a'')]"
  let ?m = "message_of 12 rel_layout [] [[CHR 0x80, CHR 0x90]] [(61, ''a'')] ?b"
  have "msgLayouts 12 = Some rel_layout" by (simp add: msgLayouts_def rel_layout_def)
  moreover have "well_formed rel_layout [] [[CHR 0x80, CHR 0x90]] [(61, ''a'')]"
    by (simp add: well_formed_def rel_layout_def)
  ultimately have "isup_Decode ?b = Returns (?m\<lparr>i_Summary := summary ?m\<rparr>)"
    by (rule isup_message_decodes) simp_all
  then show ?thesis
    by (simp add: message_of_def rel_layout_def fixed_fields_def zero_message_def set_var_def decodeCause_def
        addOptional_def add_parameter_def causeText_def paramName_def paramNames_def)
qed

subsection \<open>Party numbers\<close>

text \<open>The reference encoding of a called or calling party number.\<close>

definition noa_octet :: "bool \<Rightarrow> nat \<Rightarrow> nat" where
  "noa_octet isOdd noa = (if isOdd then 128 else 0) + noa"

definition encode_number :: "nat \<Rightarrow> nat \<Rightarrow> nat list \<Rightarrow> bytes" where
  "encode_number noa flags ds = byte_of (noa_octet (odd (length ds)) noa) # byte_of flags # encodeDigits ds"

lemma noa_octet_fields:
  assumes "noa < 128"
  shows "byte_val (byte_of (noa_octet p noa)) = noa_octet p noa"
    and "noa_octet p noa AND 0x7f = noa" and "(noa_octet p noa AND 0x80 = 0) = (\<not> p)"
proof -
  have "n AND 0x7f = n mod 128" for n :: nat
    using take_bit_eq_mask [of 7 n] by (simp add: take_bit_eq_mod mask_eq_exp_minus_1)
  then show "noa_octet p noa AND 0x7f = noa" using assms by (simp add: noa_octet_def)
  show "byte_val (byte_of (noa_octet p noa)) = noa_octet p noa"
    using assms by (intro byte_val_of_small) (simp add: noa_octet_def)
  show "(noa_octet p noa AND 0x80 = 0) = (\<not> p)"
    using and_80 [of "noa_octet p noa"] assms by (auto simp: noa_octet_def)
qed

lemma decodeDigits_number:
  assumes "noa < 128" and "\<forall>d\<in>set ds. d < 15"
  shows "decodeDigits (encodeDigits ds) (noa_octet (odd (length ds)) noa AND 0x80 \<noteq> 0) = map isupDigit ds"
  unfolding noa_octet_fields(3) [OF assms(1)] using decodeDigits_encodeDigits [OF assms(2)] by simp

text \<open>
  Telephone numbers survive: the digits 0-9, the codes 11, 12 and the overdecadic digits of a
  called or calling party number of any length, odd or even, are read back in order and can be told
  apart, together with the nature of address.
\<close>

theorem isup_number_roundtrip:
  assumes "noa < 128" and "\<forall>d\<in>set ds. d < 15"
  shows "map_option (\<lambda>n. (p_Digits n, p_NatureOfAddress n)) (decodeCalled (encode_number noa flags ds)) =
           Some (map isupDigit ds, noaName noa)
       \<and> map_option (\<lambda>n. (p_Digits n, p_NatureOfAddress n)) (decodeCalling (encode_number noa flags ds)) =
           Some (map isupDigit ds, noaName noa)
       \<and> inj_on (map isupDigit) {ds. set ds \<subseteq> {..<15}}"
proof -
  have len: "\<not> length (encode_number noa flags ds) < 2" by (simp add: encode_number_def)
  have "inj_on (map isupDigit) {ds. set ds \<subseteq> {..<15}}"
  proof (rule inj_onI)
    fix xs ys :: "nat list"
    assume *: "xs \<in> {ds. set ds \<subseteq> {..<15}}" "ys \<in> {ds. set ds \<subseteq> {..<15}}" "map isupDigit xs = map isupDigit ys"
    then have "set xs \<union> set ys \<subseteq> {..<16}" by force
    then show "xs = ys" using inj_on_subset [OF isupDigit_inj] *(3) by (metis map_inj_on)
  qed
  moreover have "byte_val (encode_number noa flags ds ! 0) = noa_octet (odd (length ds)) noa"
    "drop 2 (encode_number noa flags ds) = encodeDigits ds"
    using noa_octet_fields(1) [OF assms(1)] by (simp_all only: encode_number_def nth_Cons_0) simp
  ultimately show ?thesis
    using len decodeDigits_number [OF assms] noa_octet_fields(2) [OF assms(1)]
    by (simp add: decodeCalled_def decodeCalling_def)
qed

theorem isup_number_roundtrip_witness:
  "map_option (\<lambda>n. (p_Digits n, p_NatureOfAddress n)) (decodeCalled (encode_number 3 16 [4, 9, 1])) =
     Some (map isupDigit [4, 9, 1], noaName 3)"
  using isup_number_roundtrip [of 3 "[4, 9, 1]" 16] by simp

end
