(* ===== verification/Isup_Storage.thy ===== *)
theory Isup_Storage
  imports Isup_Decode
begin

text \<open>
  What the functions of src/isup do together to a SIP-I message with CRLF line ends and a single
  ISUP body: the body goes into its own column (\<open>DetachISUPBody\<close>) or stays as hex in the message
  (\<open>PreserveBinarySIPPayload\<close>); \<open>MessageBytes\<close> puts the original bytes back together, and
  \<open>DecodeSIP\<close> reads the same ISUP message from the original and from the hex form.
\<close>

subsection \<open>Generic facts\<close>

lemma CRLF_facts: "border_free CRLF" "CRLF \<noteq> []" "CRLFCRLF = CRLF @ CRLF" "length CRLF = 2"
  by (simp_all add: CRLF_def CRLFCRLF_def border_free_pair CRc_def LFc_def)

lemma Index_header_line:
  assumes l: "\<not> sublist CRLF l"
  shows "Index (l @ CRLF @ r) CRLFCRLF =
           (if prefix CRLF r then Some (length l) else map_option ((+) (length l + 2)) (Index r CRLFCRLF))"
proof -
  have idx: "Index (l @ CRLF @ r) CRLF = Some (length l)"
    by (rule Index_line [OF CRLF_facts(1) l])
  have before: "\<not> prefix CRLFCRLF (drop j (l @ CRLF @ r))" if "j < length l" for j
    using Index_least [OF idx that] by (auto simp: CRLF_facts(3) prefix_def)
  show ?thesis
  proof (cases "prefix CRLF r")
    case True
    then show ?thesis
      using before by (auto intro!: Index_SomeI simp: CRLF_facts(3) prefix_def)
  next
    case False
    have "Index ((l @ CRLF) @ r) CRLFCRLF = map_option ((+) (length (l @ CRLF))) (Index r CRLFCRLF)"
    proof (rule Index_skip)
      fix j assume "j < length (l @ CRLF)"
      then consider "j < length l" | "j = length l" | "j = length l + 1" by (fastforce simp: CRLF_facts(4))
      then show "\<not> prefix CRLFCRLF (drop j ((l @ CRLF) @ r))"
      proof cases
        case 1
        then show ?thesis using before [of j] by simp
      next
        case 2
        then show ?thesis using False by (simp add: CRLF_facts(3))
      next
        case 3
        then show ?thesis by (simp add: CRLF_def CRLFCRLF_def CRc_def LFc_def)
      qed
    qed
    with False show ?thesis by (simp add: CRLF_facts(4))
  qed
qed

subsection \<open>Messages as lines\<close>

definition ok_lines :: "string list \<Rightarrow> bool" where
  "ok_lines ls \<longleftrightarrow> ls \<noteq> [] \<and> list_all (\<lambda>l. l \<noteq> [] \<and> \<not> Contains l CRLF) ls"

definition sip_text :: "string list \<Rightarrow> string \<Rightarrow> string" where
  "sip_text ls body = Join ls CRLF @ CRLF @ CRLF @ body"

lemma line_not_prefix: "l \<noteq> [] \<Longrightarrow> \<not> sublist CRLF l \<Longrightarrow> \<not> prefix CRLF (l @ CRLF @ r)"
  using Index_line [OF CRLF_facts(1), of l r] Index_least [of "l @ CRLF @ r" CRLF "length l" 0] by auto

lemma Index_sip_text: "ok_lines ls \<Longrightarrow> Index (sip_text ls body) CRLFCRLF = Some (length (Join ls CRLF))"
proof (induction ls)
  case Nil
  then show ?case by (simp add: ok_lines_def)
next
  case (Cons l ls)
  have l: "\<not> sublist CRLF l" using Cons.prems by (simp add: ok_lines_def)
  show ?case
  proof (cases ls)
    case Nil
    then show ?thesis using Index_header_line [OF l, of "CRLF @ body"] by (simp add: sip_text_def)
  next
    case (Cons l2 ls2)
    with Cons.prems have "ok_lines ls" "l2 \<noteq> []" "\<not> sublist CRLF l2" by (simp_all add: ok_lines_def)
    moreover have "sip_text ls body = l2 @ CRLF @ (if ls2 = [] then CRLF @ body else sip_text ls2 body)"
      using Cons by (cases ls2) (simp_all add: sip_text_def)
    ultimately have "\<not> prefix CRLF (sip_text ls body)" by (metis line_not_prefix)
    moreover have "sip_text (l # ls) body = l @ CRLF @ sip_text ls body" using Cons by (simp add: sip_text_def)
    ultimately show ?thesis
      using Index_header_line [OF l, of "sip_text ls body"] Cons.IH \<open>ok_lines ls\<close> Cons
      by (simp add: CRLF_facts(4))
  qed
qed

lemma splitSIP_sip_text: "ok_lines ls \<Longrightarrow> splitSIP (sip_text ls body) = Some (Join ls CRLF, CRLF, body)"
  by (simp add: splitSIP_def Index_sip_text) (simp add: sip_text_def CRLF_facts(4))

lemma Split_lines: "ok_lines ls \<Longrightarrow> Split (Join ls CRLF) CRLF = ls"
  by (rule Split_Join [OF CRLF_facts(1,2)]) (auto simp: ok_lines_def list_all_iff)

lemma headerValue_lines: "ok_lines ls \<Longrightarrow> headerValue (Join ls CRLF) CRLF name = headerValue_loop ls name"
  by (simp add: headerValue_def Split_lines)

subsection \<open>The Content-Length line\<close>

lemma printable_lower: "printable (lower_byte c) \<Longrightarrow> printable c"
  by (auto simp: lower_byte_def printable_def split: if_splits)

text \<open>A header name without blanks, colons and line ends.\<close>

definition name_ok :: "string \<Rightarrow> bool" where
  "name_ok h \<longleftrightarrow> h \<noteq> [] \<and> list_all (\<lambda>c. printable c \<and> c \<noteq> CHR '':'') h"

lemma name_ok_fold:
  assumes "name_ok (ToLower h)"
  shows "name_ok h"
proof -
  have "printable c \<and> c \<noteq> CHR '':''" if "c \<in> set h" for c
  proof -
    have "printable (lower_byte c)" "lower_byte c \<noteq> CHR '':''"
      using assms that by (auto simp: name_ok_def ToLower_def list_all_iff)
    moreover have "lower_byte (CHR '':'') = CHR '':''" by (simp add: lower_byte_def)
    ultimately show ?thesis using printable_lower by metis
  qed
  moreover have "h \<noteq> []" using assms by (auto simp: name_ok_def ToLower_def)
  ultimately show ?thesis by (simp add: name_ok_def list_all_iff)
qed

lemma splitHeaderLine_name:
  assumes "name_ok h" and "v \<noteq> []" and "printable (hd v)" and "printable (last v)"
  shows "splitHeaderLine (h @ '': '' @ v) = Some (h, v)"
proof -
  have h: "h \<noteq> []" "\<forall>c\<in>set h. printable c \<and> c \<noteq> CHR '':''" using assms(1) by (auto simp: name_ok_def list_all_iff)
  then have "printable (hd h)" "printable (last h)" by simp_all
  then have "TrimSpace h = h" by (intro TrimSpace_printable h)
  moreover have "TrimSpace ('' '' @ v) = v" using TrimSpace_blank assms by simp
  moreover have "IndexByte (h @ '': '' @ v) (CHR '':'') = Some (length h)"
    using h IndexByte_append [of "CHR '':''" h "'' '' @ v"] by auto
  moreover have "(h @ '': '' @ v) ! 0 = hd h" using h(1) by (cases h) simp_all
  moreover have "hd h \<noteq> CHR 0x20" "hd h \<noteq> CHR 0x09"
    using \<open>printable (hd h)\<close> by (auto simp: printable_def)
  ultimately show ?thesis using h by (simp add: splitHeaderLine_def)
qed

definition CL :: string where
  "CL = ''Content-Length''"

lemma ToLower_CL: "ToLower CL = ''content-length''"
  by (simp add: CL_def ToLower_def lower_byte_def char_of_def bit_0)

lemma CL_names: "headerNamesMatch h CL \<Longrightarrow> ToLower h = ''content-length'' \<or> ToLower h = ''l''"
  by (simp add: headerNamesMatch_def EqualFold_def ToLower_CL split: if_splits)
    (simp_all add: ToLower_def lower_byte_def char_of_def bit_0)

lemma CL_name_ok: "headerNamesMatch h CL \<Longrightarrow> name_ok h"
  by (rule name_ok_fold, drule CL_names) (elim disjE, simp_all add: name_ok_def printable_def)

lemma splitHeaderLine_CL: "headerNamesMatch h CL \<Longrightarrow> splitHeaderLine (h @ '': '' @ Itoa k) = Some (h, Itoa k)"
  using CL_name_ok printable_Itoa by (intro splitHeaderLine_name) auto

text \<open>A line that is not a Content-Length header, or one written as \<open>name: n\<close>.\<close>

definition length_line :: "nat \<Rightarrow> string \<Rightarrow> bool" where
  "length_line n l \<longleftrightarrow>
     (case splitHeaderLine l of None \<Rightarrow> True | Some (h, _) \<Rightarrow> headerNamesMatch h CL \<longrightarrow> l = h @ '': '' @ Itoa n)"

lemma length_line_cases:
  assumes "length_line n l"
  obtains (other) "\<not> line_matches CL l" | (len) h where "headerNamesMatch h CL" "l = h @ '': '' @ Itoa n"
  using assms by (auto simp: length_line_def line_matches_def split: option.splits)

lemma replace_other: "\<not> line_matches name l \<Longrightarrow> replace_line name v l = l"
  by (auto simp: line_matches_def replace_line_def split: option.splits)

lemma replace_CL: "headerNamesMatch h CL \<Longrightarrow> replace_line CL v (h @ '': '' @ Itoa n) = h @ '': '' @ v"
  using splitHeaderLine_CL [of h n] by (simp add: replace_line_def)



text \<open>The lines after the length has been rewritten.\<close>

definition with_length :: "nat \<Rightarrow> string list \<Rightarrow> string list" where
  "with_length k ls = map (replace_line CL (Itoa k)) ls"

definition length_lines :: "nat \<Rightarrow> string list \<Rightarrow> bool" where
  "length_lines n ls \<longleftrightarrow> list_all (length_line n) ls"



lemma no_line_end: "LFc \<notin> set l \<Longrightarrow> \<not> sublist CRLF l"
  by (auto simp: sublist_def CRLF_def)

lemma printable_chars: "\<not> printable LFc" "printable (CHR '':'')" "\<not> printable (CHR 0x20)"
  by (simp_all add: printable_def LFc_def)

lemma name_line_ok:
  assumes "name_ok h" and "list_all printable v"
  shows "h @ '': '' @ v \<noteq> [] \<and> \<not> sublist CRLF (h @ '': '' @ v)"
proof -
  have "LFc \<notin> set h" "LFc \<notin> set v" using assms printable_chars(1) by (auto simp: name_ok_def list_all_iff)
  moreover have "LFc \<notin> set '': ''" by (simp add: LFc_def)
  ultimately show ?thesis by (intro conjI no_line_end) simp_all
qed

lemma replace_line_ok:
  assumes "length_line n l" and "l \<noteq> [] \<and> \<not> sublist CRLF l"
  shows "replace_line CL (Itoa k) l \<noteq> [] \<and> \<not> sublist CRLF (replace_line CL (Itoa k) l)"
  using assms(1)
proof (cases rule: length_line_cases)
  case other
  then show ?thesis using assms(2) by (simp add: replace_other)
next
  case (len h)
  then show ?thesis using name_line_ok [OF CL_name_ok Itoa_printable] by (simp only: replace_CL) simp
qed

lemma ok_with_length: "length_lines n ls \<Longrightarrow> ok_lines ls \<Longrightarrow> ok_lines (with_length k ls)"
  using replace_line_ok by (auto simp: ok_lines_def with_length_def length_lines_def list_all_iff)

text \<open>Header names that a Content-Length line does not have.\<close>

definition other_name :: "string \<Rightarrow> bool" where
  "other_name name \<longleftrightarrow> (\<forall>h. headerNamesMatch h CL \<longrightarrow> \<not> headerNamesMatch h name)"

lemma ToLower_names:
  "ToLower ''Content-Type'' = ''content-type''" "ToLower binaryBodyHeader = ''x-homer-binary-body''"
  "ToLower ''c'' = ''c''"
  by (simp_all add: binaryBodyHeader_def ToLower_def lower_byte_def char_of_def bit_0)

lemma other_names: "other_name ''Content-Type''" "other_name binaryBodyHeader"
  unfolding other_name_def headerNamesMatch_def [of _ "''Content-Type''"] headerNamesMatch_def [of _ binaryBodyHeader]
    EqualFold_def ToLower_names
  by (intro allI impI, drule CL_names, elim disjE; simp)+

lemma replace_line_lookup:
  assumes "length_line n l" and "other_name name"
  shows "headerValue_loop (replace_line CL (Itoa k) l # ls) name = headerValue_loop (l # ls) name
       \<and> line_matches name (replace_line CL (Itoa k) l) = line_matches name l"
  using assms(1)
proof (cases rule: length_line_cases)
  case other
  then show ?thesis by (simp add: replace_other)
next
  case (len h)
  then have "\<not> headerNamesMatch h name" using assms(2) by (simp add: other_name_def)
  then show ?thesis
    unfolding len(2) replace_CL [OF len(1)] headerValue_loop.simps line_matches_def splitHeaderLine_CL [OF len(1)]
    by simp
qed

lemma with_length_lookup:
  assumes "length_lines n ls" and "other_name name"
  shows "headerValue_loop (with_length k ls @ r) name = headerValue_loop (ls @ r) name"
  using assms(1)
proof (induction ls)
  case (Cons l ls)
  then have "length_line n l" "headerValue_loop (with_length k ls @ r) name = headerValue_loop (ls @ r) name"
    by (simp_all add: length_lines_def)
  then show ?case
    using replace_line_lookup [OF _ assms(2), of n l k "with_length k ls @ r"]
    by (simp add: with_length_def split: option.splits)
qed (simp add: with_length_def)

lemma replaceHeaderValue_lines:
  "ok_lines ls \<Longrightarrow> fst (replaceHeaderValue (Join ls CRLF) CRLF ''Content-Length'' (Itoa k)) = Join (with_length k ls) CRLF"
  by (auto simp: replaceHeaderValue_def Split_lines with_length_def Let_def list_ex_iff replace_other map_idI
      simp flip: CL_def intro!: arg_cong [of _ _ "\<lambda>x. Join x CRLF"])

lemma Join_lines_not_Nil: "ok_lines ls \<Longrightarrow> Join ls CRLF \<noteq> []"
  by (cases ls rule: Join.cases [where x = "(_, CRLF)", simplified]) (auto simp: ok_lines_def)


subsection \<open>Storage and restoration\<close>

definition content_type :: "string list \<Rightarrow> string" where
  "content_type ls = (case headerValue_loop ls ''Content-Type'' of None \<Rightarrow> [] | Some v \<Rightarrow> v)"

text \<open>
  A SIP-I message: CRLF-terminated non-empty lines, an ISUP content type, no marker of the hex form,
  and every Content-Length line written as \<open>name: n\<close> with the length of the body.
\<close>

definition sip_i :: "media_parser \<Rightarrow> string list \<Rightarrow> bytes \<Rightarrow> bool" where
  "sip_i mp ls body \<longleftrightarrow>
     ok_lines ls \<and> length_lines (length body) ls \<and> headerValue_loop ls binaryBodyHeader = None
     \<and> multipartBoundary mp (content_type ls) = None \<and> isISUPType mp (content_type ls) \<noteq> None"


lemma headerValue_or_empty_lines:
  "ok_lines ls \<Longrightarrow> headerValue_or_empty (Join ls CRLF) CRLF ''Content-Type'' = content_type ls"
  by (simp add: headerValue_or_empty_def headerValue_lines content_type_def)

lemma unsafe_not_Nil: "unsafeUTF8 body \<Longrightarrow> body \<noteq> []"
  by (auto simp: unsafeUTF8_def)




definition hex_line :: string where
  "hex_line = binaryBodyHeader @ '': hex''"

lemma hex_line_split: "splitHeaderLine hex_line = Some (binaryBodyHeader, ''hex'')"
proof -
  have "splitHeaderLine (binaryBodyHeader @ '': '' @ ''hex'') = Some (binaryBodyHeader, ''hex'')"
    by (rule splitHeaderLine_name) (simp_all add: name_ok_def binaryBodyHeader_def printable_def)
  then show ?thesis by (simp add: hex_line_def)
qed

lemma hex_line_not_length: "length_line n hex_line" "replace_line CL v hex_line = hex_line"
proof -
  have "\<not> headerNamesMatch binaryBodyHeader CL"
    using CL_names [of binaryBodyHeader] by (auto simp: ToLower_names)
  then show "length_line n hex_line" "replace_line CL v hex_line = hex_line"
    by (simp_all add: length_line_def replace_line_def hex_line_split)
qed

lemma hex_line_ok: "ok_lines ls \<Longrightarrow> ok_lines (ls @ [hex_line])"
  using name_line_ok [of binaryBodyHeader "''hex''"]
  by (simp add: ok_lines_def hex_line_def name_ok_def binaryBodyHeader_def printable_def)

lemma Preserve_sip_i:
  assumes "sip_i mp ls body" and "unsafeUTF8 (sip_text ls body)" and "unsafeUTF8 body"
  defines "enc \<equiv> hex_EncodeToString body"
  shows "PreserveBinarySIPPayload mp (sip_text ls body) = sip_text (with_length (length enc) ls @ [hex_line]) enc"
proof -
  have ls: "ok_lines ls" using assms(1) by (simp add: sip_i_def)
  have join: "Join ls CRLF @ CRLF @ binaryBodyHeader @ '': hex'' = Join (ls @ [hex_line]) CRLF"
    using ls by (induction ls CRLF rule: Join.induct) (auto simp: ok_lines_def hex_line_def)
  have len: "with_length k (ls @ [hex_line]) = with_length k ls @ [hex_line]" for k
    by (simp add: with_length_def hex_line_not_length)
  have "preservePart (sip_text ls body) = (sip_text (with_length (length enc) ls @ [hex_line]) enc, True)"
    using assms ls replaceHeaderValue_lines [OF hex_line_ok [OF ls]] Join_lines_not_Nil [OF ls]
    by (simp add: preservePart_def splitSIP_sip_text headerValue_lines sip_i_def Let_def len join)
      (simp add: sip_text_def)
  then show ?thesis
    using assms ls
    by (simp add: PreserveBinarySIPPayload_def splitSIP_sip_text headerValue_lines headerValue_or_empty_lines sip_i_def Let_def)
qed

lemma headerValue_loop_append:
  "headerValue_loop (a @ b) name = (case headerValue_loop a name of Some v \<Rightarrow> Some v | None \<Rightarrow> headerValue_loop b name)"
  by (induction a) (auto split: option.splits)

lemma headerValue_loop_None: "headerValue_loop ls name = None \<longleftrightarrow> list_all (\<lambda>l. \<not> line_matches name l) ls"
  by (induction ls) (auto simp: line_matches_def split: option.splits)

lemma hex_line_lookup:
  "headerValue_loop [hex_line] binaryBodyHeader = Some ''hex''" "headerValue_loop [hex_line] ''Content-Type'' = None"
proof -
  show "headerValue_loop [hex_line] binaryBodyHeader = Some ''hex''"
    by (simp add: hex_line_split headerNamesMatch_def)
  show "headerValue_loop [hex_line] ''Content-Type'' = None"
    by (simp add: hex_line_split headerNamesMatch_def EqualFold_def ToLower_names)
qed

lemma hex_digit_printable: "n < 16 \<Longrightarrow> printable (hex_digit n)"
  by (simp add: hex_digit_def printable_def of_char_of)

lemma hex_printable: "list_all printable (hex_EncodeToString b)"
proof (induction b)
  case (Cons c b)
  have "byte_val c div 16 < 16" using byte_val_less [of c] by (intro less_mult_imp_div_less) simp
  then show ?case using Cons hex_digit_printable by simp
qed simp

lemma decodeEncodedBody_hex:
  assumes "b \<noteq> []"
  shows "decodeEncodedBody b64 ''hex'' (hex_EncodeToString b) = Some b"
proof -
  let ?e = "hex_EncodeToString b"
  have "?e \<noteq> []" using assms by (cases b) simp_all
  moreover from this have "printable (hd ?e)" "printable (last ?e)"
    using hex_printable [of b] by (simp_all add: list_all_iff)
  ultimately have "TrimSpace ?e = ?e" by (rule TrimSpace_printable)
  moreover have "TrimSpace ''hex'' = ''hex''" by (rule TrimSpace_printable) (simp_all add: printable_def)
  moreover have "ToLower ''hex'' = ''hex''" by (simp add: ToLower_def lower_byte_def)
  ultimately show ?thesis by (simp add: decodeEncodedBody_def hex_Decode_Encode)
qed

text \<open>What is known of the message with the hex form, whose lines end in \<open>hex_line\<close>.\<close>

lemma hex_form_facts:
  fixes k :: nat
  assumes "sip_i mp ls body"
  defines "hls \<equiv> with_length k ls @ [hex_line]"
  shows "ok_lines hls" and "headerValue_loop hls binaryBodyHeader = Some ''hex''"
    and "content_type hls = content_type ls"
    and "filter (\<lambda>l. \<not> line_matches binaryBodyHeader l) hls = with_length k ls"
proof -
  have ls: "ok_lines ls" "length_lines (length body) ls" "headerValue_loop ls binaryBodyHeader = None"
    using assms(1) by (simp_all add: sip_i_def)
  show "ok_lines hls" unfolding hls_def by (intro hex_line_ok ok_with_length [OF ls(2,1)])
  show "headerValue_loop hls binaryBodyHeader = Some ''hex''"
    using with_length_lookup [OF ls(2) other_names(2), of k "[hex_line]"] ls(3)
    by (simp add: hls_def headerValue_loop_append hex_line_lookup del: headerValue_loop.simps)
  show "content_type hls = content_type ls"
    using with_length_lookup [OF ls(2) other_names(1), of k "[hex_line]"]
    by (simp add: hls_def content_type_def headerValue_loop_append hex_line_lookup del: headerValue_loop.simps
        split: option.splits)
  have "headerValue_loop (with_length k ls) binaryBodyHeader = None"
    using with_length_lookup [OF ls(2) other_names(2), of k "[]"] ls(3) by simp
  moreover have "line_matches binaryBodyHeader hex_line"
    by (simp add: line_matches_def hex_line_split headerNamesMatch_def)
  ultimately show "filter (\<lambda>l. \<not> line_matches binaryBodyHeader l) hls = with_length k ls"
    by (simp add: hls_def headerValue_loop_None list_all_iff)
qed


lemma Preserve_safe:
  assumes "sip_i mp ls body" and False: "\<not> (unsafeUTF8 (sip_text ls body) \<and> unsafeUTF8 body)"
  shows "PreserveBinarySIPPayload mp (sip_text ls body) = sip_text ls body"
proof -
  have "preservePart (sip_text ls body) = (sip_text ls body, False) \<or> \<not> unsafeUTF8 (sip_text ls body)"
    using assms by (auto simp: preservePart_def splitSIP_sip_text sip_i_def)
  then show ?thesis
    using assms by (auto simp: PreserveBinarySIPPayload_def splitSIP_sip_text headerValue_lines headerValue_or_empty_lines sip_i_def Let_def)
qed




definition demo_media :: media_parser where
  "demo_media ct = (if ct = ''application/isup'' then Some (ct, Map.empty) else None)"

definition demo_lines :: "string list" where
  "demo_lines = [''INVITE'', ''Content-Type: application/isup'', ''Content-Length: 2'']"

lemma demo_lines_split:
  "map splitHeaderLine demo_lines = [None, Some (''Content-Type'', ''application/isup''), Some (CL, ''2'')]"
  using splitHeaderLine_name [of "''Content-Type''" "''application/isup''"] splitHeaderLine_name [of CL "''2''"]
  by (simp add: demo_lines_def name_ok_def printable_def CL_def) (simp add: splitHeaderLine_def)

lemma demo_sip_i: "sip_i demo_media demo_lines [CHR 0x01, CHR 0x00]"
proof -
  have split: "splitHeaderLine ''INVITE'' = None"
    "splitHeaderLine ''Content-Type: application/isup'' = Some (''Content-Type'', ''application/isup'')"
    "splitHeaderLine ''Content-Length: 2'' = Some (CL, ''2'')"
    using demo_lines_split by (simp_all add: demo_lines_def)
  have names: "headerNamesMatch CL CL" "\<not> headerNamesMatch ''Content-Type'' CL" "headerNamesMatch ''Content-Type'' ''Content-Type''"
    "\<not> headerNamesMatch ''Content-Type'' binaryBodyHeader" "\<not> headerNamesMatch CL binaryBodyHeader"
    using CL_names [of "''Content-Type''"] other_names(2)
    by (auto simp: headerNamesMatch_def EqualFold_def ToLower_names ToLower_CL)
  have ct: "content_type demo_lines = ''application/isup''"
    by (simp add: content_type_def demo_lines_def split names)
  have "length_lines 2 demo_lines"
    by (simp add: length_lines_def demo_lines_def length_line_def split names) (simp add: CL_def Itoa.simps digit_char_def char_of_def bit_0)
  moreover have "ok_lines demo_lines"
    by (auto simp: ok_lines_def demo_lines_def LFc_def intro!: no_line_end)
  moreover have "multipartBoundary demo_media ''application/isup'' = None" "isISUPType demo_media ''application/isup'' \<noteq> None"
    by (simp_all add: multipartBoundary_def isISUPType_def demo_media_def ToLower_def lower_byte_def)
  ultimately show ?thesis
    by (simp add: sip_i_def ct) (simp add: demo_lines_def split names numeral_2_eq_2)
qed


text \<open>
  The decoder does not depend on how the body was stored: from the hex form it decodes the same
  ISUP messages, with the same content type and version, as from the original message, and in both
  cases it returns without a panic.
\<close>

theorem isup_decode_hex_form:
  assumes "sip_i mp ls body"
  shows "DecodeSIP mp b64 (PreserveBinarySIPPayload mp (sip_text ls body)) = DecodeSIP mp b64 (sip_text ls body)
       \<and> DecodeSIP mp b64 (sip_text ls body) \<noteq> Panics"
proof -
  have ls: "ok_lines ls" using assms by (simp add: sip_i_def)
  have total: "\<exists>m. decodeOrReject v raw = Returns m" for v raw
  proof -
    obtain m where "isup_Decode raw = Returns m" using isup_Decode_returns by blast
    then show ?thesis by (simp add: decodeOrReject_def)
  qed
  obtain v where v: "isISUPType mp (content_type ls) = Some v" using assms by (auto simp: sip_i_def)
  obtain m where m: "decodeOrReject v body = Returns m" using total by blast
  let ?r = "Returns (Some \<lparr>r_ContentType = content_type ls, r_Version = v, r_Messages = [m], r_Error = []\<rparr>)"
  have orig: "DecodeSIP mp b64 (sip_text ls body) = ?r"
    using assms v m by (simp add: DecodeSIP_def splitSIP_sip_text ls headerValue_or_empty_lines headerValue_lines entityBody_def sip_i_def)
  have "DecodeSIP mp b64 (PreserveBinarySIPPayload mp (sip_text ls body)) = ?r"
  proof (cases "unsafeUTF8 (sip_text ls body) \<and> unsafeUTF8 body")
    case True
    then have body: "body \<noteq> []" using unsafe_not_Nil by blast
    note hex = hex_form_facts [OF assms, of "length (hex_EncodeToString body)"]
    from True show ?thesis
      using assms v m body Preserve_sip_i [OF assms] decodeEncodedBody_hex [OF body]
      by (simp add: DecodeSIP_def splitSIP_sip_text hex headerValue_or_empty_lines headerValue_lines entityBody_def sip_i_def)
  next
    case False
    then show ?thesis using Preserve_safe [OF assms] orig by simp
  qed
  with orig show ?thesis by simp
qed

theorem isup_decode_hex_form_witness:
  "DecodeSIP demo_media (\<lambda>_. None) (PreserveBinarySIPPayload demo_media (sip_text demo_lines [CHR 0x01, CHR 0x00]))
     = DecodeSIP demo_media (\<lambda>_. None) (sip_text demo_lines [CHR 0x01, CHR 0x00])"
  using isup_decode_hex_form [OF demo_sip_i, of "\<lambda>_. None"] by (rule conjunct1)

end
