(* ===== verification/Sql_Validator.thy ===== *)
theory Sql_Validator
  imports Homer_Prelude
begin

text \<open>
  src/coordinator/sqlvalidator: the gate in front of every SQL text that users can influence. A
  lexer (\<open>tokenize\<close>) splits the text into tokens so that keywords inside literals are not flagged;
  \<open>ValidateRawSQL\<close>, \<open>ValidateWriteSQL\<close> and \<open>ValidateExpression\<close> check the tokens; \<open>SafeString\<close>
  escapes values that are pasted into literals; \<open>EnsureLimit\<close> adds a row limit.

  The source converts the text to \<open>[]rune\<close> and works on code points, so a text is a list of code
  points here. The one place that mixes in bytes is \<open>closeDollarString\<close>: there \<open>strings.Index\<close> counts
  bytes, and \<open>byte_len\<close> gives the length of the UTF-8 encoding. The Unicode tables of the Go library
  beyond ASCII (letters, digits, upper case) are the argument \<open>rt\<close>, together with the spare capacity
  that the run-time system gives a converted slice: \<open>runes[i:end]\<close> may read up to the capacity
  (zero runes behind the length) and panics beyond it. Every theorem holds for all such arguments.
\<close>

type_synonym runes = "nat list"

record go_rt =
  rt_letter :: "nat \<Rightarrow> bool"
  rt_digit :: "nat \<Rightarrow> bool"
  rt_upper :: "nat \<Rightarrow> nat"
  rt_spare :: "nat \<Rightarrow> nat"

definition asc :: "string \<Rightarrow> runes" where
  "asc s = map byte_val s"

definition words :: "string list \<Rightarrow> runes set" where
  "words ws = set (map asc ws)"

subsection \<open>Runes\<close>

definition utf8_len :: "nat \<Rightarrow> nat" where
  "utf8_len r = (if r < 0x80 then 1 else if r < 0x800 then 2 else if r < 0x10000 then 3 else 4)"

definition byte_len :: "runes \<Rightarrow> nat" where
  "byte_len s = sum_list (map utf8_len s)"

definition IsSpace :: "nat \<Rightarrow> bool" where
  "IsSpace r \<longleftrightarrow>
     r \<in> {9, 10, 11, 12, 13, 32, 0x85, 0xA0, 0x1680, 0x2028, 0x2029, 0x202f, 0x205f, 0x3000}
     \<or> 0x2000 \<le> r \<and> r \<le> 0x200a"

definition IsDigit :: "go_rt \<Rightarrow> nat \<Rightarrow> bool" where
  "IsDigit rt r = (if r < 0x80 then 48 \<le> r \<and> r \<le> 57 else rt_digit rt r)"

definition IsLetter :: "go_rt \<Rightarrow> nat \<Rightarrow> bool" where
  "IsLetter rt r = (if r < 0x80 then 65 \<le> r \<and> r \<le> 90 \<or> 97 \<le> r \<and> r \<le> 122 else rt_letter rt r)"

definition ToUpper :: "go_rt \<Rightarrow> runes \<Rightarrow> runes" where
  "ToUpper rt = map (\<lambda>r. if 97 \<le> r \<and> r \<le> 122 then r - 32 else if r < 0x80 then r else rt_upper rt r)"

definition text_trim :: "runes \<Rightarrow> runes" where
  "text_trim s = rev (dropWhile IsSpace (rev (dropWhile IsSpace s)))"

definition starts_with :: "nat \<Rightarrow> runes \<Rightarrow> bool" where
  "starts_with c s \<longleftrightarrow> (case s of [] \<Rightarrow> False | x # _ \<Rightarrow> x = c)"

subsection \<open>Tokens\<close>

datatype tokenKind = tkIdent | tkString | tkNumber | tkOp | tkSemi | tkLParen | tkRParen | tkComma | tkDot | tkStar

record token =
  tk_kind :: tokenKind
  tk_value :: runes
  tk_upper :: runes

definition plain_token :: "tokenKind \<Rightarrow> runes \<Rightarrow> token" where
  "plain_token k v = \<lparr>tk_kind = k, tk_value = v, tk_upper = []\<rparr>"

text \<open>Behind \<open>/*\<close>: the loop runs while two runes are left, so an unclosed comment leaves the last one.\<close>

fun block_end :: "runes \<Rightarrow> runes" where
  "block_end (a # b # s) = (if a = 42 \<and> b = 47 then s else block_end (b # s))"
| "block_end s = s"

text \<open>Behind an opening quote \<open>q\<close>: the inner text, in which \<open>q\<close> is doubled, and what follows it.\<close>

fun scan_quoted :: "nat \<Rightarrow> runes \<Rightarrow> runes \<times> runes" where
  "scan_quoted q [] = ([], [])"
| "scan_quoted q [c] = (if c = q then ([], [c]) else ([c], []))"
| "scan_quoted q (c # d # s) =
     (if c = q then
        (if d = q then (let (inner, rest) = scan_quoted q s in (c # d # inner, rest)) else ([], c # d # s))
      else (let (inner, rest) = scan_quoted q (d # s) in (c # inner, rest)))"

fun scan_number :: "go_rt \<Rightarrow> nat option \<Rightarrow> runes \<Rightarrow> runes \<times> runes" where
  "scan_number rt prev [] = ([], [])"
| "scan_number rt prev (c # s) =
     (let more = (let (num, rest) = scan_number rt (Some c) s in (c # num, rest));
          digit_before = (case prev of None \<Rightarrow> False | Some p \<Rightarrow> IsDigit rt p);
          e_before = (prev = Some 101 \<or> prev = Some 69)
      in if (c = 101 \<or> c = 69) \<and> digit_before then more
         else if (c = 43 \<or> c = 45) \<and> e_before then more
         else if IsDigit rt c \<or> c = 46 then more
         else ([], c # s))"

definition ident_rune :: "go_rt \<Rightarrow> nat \<Rightarrow> bool" where
  "ident_rune rt c \<longleftrightarrow> IsLetter rt c \<or> IsDigit rt c \<or> c = 95"

text \<open>
  \<open>closeDollarString\<close>, with the body as a list: how far behind its start the literal ends. \<open>strings.Index\<close>
  returns a number of bytes and \<open>len(closer)\<close> is one too, but the sum is used as a number of runes.
\<close>

definition closeDollarString :: "runes \<Rightarrow> runes \<Rightarrow> nat" where
  "closeDollarString rest closer =
     (case Index rest closer of
        None \<Rightarrow> length rest
      | Some i \<Rightarrow> byte_len (take i rest) + byte_len closer)"

text \<open>What the comment of the function asks for: the index just after the closing delimiter.\<close>

definition closeDollar_ref :: "runes \<Rightarrow> runes \<Rightarrow> nat" where
  "closeDollar_ref rest closer =
     (case Index rest closer of None \<Rightarrow> length rest | Some i \<Rightarrow> i + length closer)"

text \<open>\<open>tryDollarString\<close> at a text: the end of the literal that opens there, relative to its start.\<close>

definition tryDollarString :: "(runes \<Rightarrow> runes \<Rightarrow> nat) \<Rightarrow> go_rt \<Rightarrow> runes \<Rightarrow> nat option" where
  "tryDollarString close rt s =
     (case s of
        [] \<Rightarrow> None
      | c # s1 \<Rightarrow>
          if c \<noteq> 36 then None
          else if starts_with 36 s1 then Some (2 + close (drop 1 s1) [36, 36])
          else case s1 of
            [] \<Rightarrow> None
          | d # _ \<Rightarrow>
              if \<not> IsLetter rt d \<and> d \<noteq> 95 then None
              else let tag = takeWhile (ident_rune rt) s1; s2 = dropWhile (ident_rune rt) s1
                   in if \<not> starts_with 36 s2 then None
                      else Some (length tag + 2 + close (drop 1 s2) (36 # tag @ [36])))"

definition two_char_ops :: "runes list" where
  "two_char_ops = map asc [''::'', ''<='', ''>='', ''!='', ''<>'', ''||'']"

text \<open>
  One round of the loop of \<open>tokenize\<close> at a non-empty text: the token it appends, if any, and the text
  it goes on with; \<open>None\<close> is the panic of the slice \<open>runes[i:end]\<close>. \<open>slack\<close> is the spare capacity.
\<close>

definition lex_one :: "(runes \<Rightarrow> runes \<Rightarrow> nat) \<Rightarrow> go_rt \<Rightarrow> nat \<Rightarrow> nat \<Rightarrow> runes \<Rightarrow> (token option \<times> runes) option" where
  "lex_one close rt slack ch s =
     (if IsSpace ch then Some (None, s)
      else if ch = 45 \<and> starts_with 45 s then Some (None, dropWhile (\<lambda>c. c \<noteq> 10) s)
      else if ch = 47 \<and> starts_with 42 s then Some (None, block_end (drop 1 s))
      else if ch = 39 then
        (let (inner, rest) = scan_quoted 39 s
         in Some (Some (plain_token tkString (ch # inner @ take 1 rest)), drop 1 rest))
      else if ch = 34 then
        (let (inner, rest) = scan_quoted 34 s
         in Some (Some \<lparr>tk_kind = tkIdent, tk_value = ch # inner @ take 1 rest, tk_upper = ToUpper rt inner\<rparr>, drop 1 rest))
      else if IsDigit rt ch \<or> ch = 46 \<and> s \<noteq> [] \<and> IsDigit rt (hd s) then
        (let (num, rest) = scan_number rt (Some ch) s in Some (Some (plain_token tkNumber (ch # num)), rest))
      else case tryDollarString close rt (ch # s) of
        Some e \<Rightarrow>
          if e \<le> length (ch # s) + slack
          then Some (Some (plain_token tkString (take e ((ch # s) @ replicate slack 0))), drop e (ch # s))
          else None
      | None \<Rightarrow>
          if IsLetter rt ch \<or> ch = 95 then
            (let val = ch # takeWhile (ident_rune rt) s
             in Some (Some \<lparr>tk_kind = tkIdent, tk_value = val, tk_upper = ToUpper rt val\<rparr>, dropWhile (ident_rune rt) s))
          else if ch = 59 then Some (Some (plain_token tkSemi [ch]), s)
          else if ch = 40 then Some (Some (plain_token tkLParen [ch]), s)
          else if ch = 41 then Some (Some (plain_token tkRParen [ch]), s)
          else if ch = 44 then Some (Some (plain_token tkComma [ch]), s)
          else if ch = 46 then Some (Some (plain_token tkDot [ch]), s)
          else if ch = 42 then Some (Some (plain_token tkStar [ch]), s)
          else if s \<noteq> [] \<and> ch # take 1 s \<in> set two_char_ops
          then Some (Some (plain_token tkOp (ch # take 1 s)), drop 1 s)
          else Some (Some (plain_token tkOp [ch]), s))"

lemma block_end_le: "length (block_end s) \<le> length s"
  by (induction s rule: block_end.induct) auto

lemma scan_quoted_append: "scan_quoted q s = (a, b) \<Longrightarrow> s = a @ b"
  by (induction q s arbitrary: a rule: scan_quoted.induct) (auto split: if_splits prod.splits)

lemma scan_number_append: "scan_number rt p s = (a, b) \<Longrightarrow> s = a @ b"
  by (induction rt p s arbitrary: a rule: scan_number.induct) (auto simp: Let_def split: if_splits prod.splits)

lemma tryDollarString_pos: "tryDollarString close rt s = Some e \<Longrightarrow> 0 < e"
  by (auto simp: tryDollarString_def Let_def split: list.splits if_splits)

lemma length_dropWhile_Cons: "length (dropWhile P s) < Suc (length s)"
  by (simp add: length_dropWhile_le less_Suc_eq_le)

lemma lex_one_shorter: "lex_one close rt slack ch s = Some (t, s') \<Longrightarrow> length s' < length (ch # s)"
  using block_end_le [of "drop 1 s"] diff_le_self [of "length s" 1, THEN le_imp_less_Suc]
  by (auto simp: lex_one_def Let_def length_dropWhile_Cons split: if_splits option.splits prod.splits
      dest!: scan_quoted_append scan_number_append tryDollarString_pos)

function tok_loop :: "(runes \<Rightarrow> runes \<Rightarrow> nat) \<Rightarrow> go_rt \<Rightarrow> nat \<Rightarrow> runes \<Rightarrow> token list option" where
  "tok_loop close rt slack [] = Some []"
| "tok_loop close rt slack (ch # s) =
     (case lex_one close rt slack ch s of
        None \<Rightarrow> None
      | Some (t, s') \<Rightarrow>
          map_option (\<lambda>ts. case t of None \<Rightarrow> ts | Some tok \<Rightarrow> tok # ts) (tok_loop close rt slack s'))"
  by pat_completeness auto
termination
  by (relation "measure (\<lambda>(close, rt, slack, s). length s)") (auto dest: lex_one_shorter)

declare tok_loop.simps(2) [simp del]

definition tokenize :: "go_rt \<Rightarrow> runes \<Rightarrow> token list option" where
  "tokenize rt sql = tok_loop closeDollarString rt (rt_spare rt (length sql)) sql"

definition tokenize_ref :: "go_rt \<Rightarrow> runes \<Rightarrow> token list option" where
  "tokenize_ref rt sql = tok_loop closeDollar_ref rt 0 sql"

subsection \<open>Word lists\<close>

definition blockedDML :: "string list" where
  "blockedDML =
     [''INSERT'', ''UPDATE'', ''DELETE'', ''DROP'', ''ALTER'', ''CREATE'', ''TRUNCATE'',
      ''GRANT'', ''REVOKE'', ''EXEC'', ''EXECUTE'', ''COPY'', ''EXPORT'', ''IMPORT'', ''ATTACH'',
      ''DETACH'', ''LOAD'', ''INSTALL'', ''SET'']"

definition blockedFunctions :: "string list" where
  "blockedFunctions =
     [''READ_CSV'', ''READ_CSV_AUTO'', ''READ_PARQUET'', ''READ_JSON'', ''READ_JSON_AUTO'',
      ''READ_BLOB'', ''READ_TEXT'', ''READ_NDJSON'', ''READ_NDJSON_AUTO'', ''WRITE_CSV'',
      ''WRITE_PARQUET'', ''HTTPFS'', ''HTTP_GET'', ''HTTP_POST'', ''GLOB'', ''COPY'',
      ''PG_TYPEOF'', ''SYSTEM'', ''SHELL'', ''READ_PARQUET_FUNC'', ''SQLITE_SCAN'',
      ''POSTGRES_SCAN'', ''MYSQL_SCAN'', ''ICEBERG_SCAN'', ''DELTA_SCAN'', ''SPATIAL_SCAN'',
      ''POSTGRES_QUERY'', ''MYSQL_QUERY'', ''GETENV'', ''DUCKDB_SECRETS'']"

definition allowedStatementStarts :: "string list" where
  "allowedStatementStarts =
     [''SELECT'', ''WITH'', ''SHOW'', ''DESCRIBE'', ''EXPLAIN'', ''PRAGMA'']"

definition blockedWriteCatalogs :: "string list" where
  "blockedWriteCatalogs =
     [''MEMORY'', ''TEMP'', ''SYSTEM'', ''INFORMATION_SCHEMA'', ''PG_CATALOG'']"

definition blockedExprKeywords :: "string list" where
  "blockedExprKeywords =
     [''INSERT'', ''UPDATE'', ''DELETE'', ''DROP'', ''ALTER'', ''CREATE'', ''TRUNCATE'',
      ''GRANT'', ''REVOKE'', ''EXEC'', ''EXECUTE'', ''COPY'', ''EXPORT'', ''IMPORT'', ''ATTACH'',
      ''DETACH'', ''LOAD'', ''INSTALL'', ''SET'', ''INTO'', ''CALL'', ''UNION'', ''EXCEPT'',
      ''INTERSECT'', ''WHERE'', ''LIMIT'', ''OFFSET'', ''HAVING'']"

definition ForbiddenReadOnlyKeywords :: "string list" where
  "ForbiddenReadOnlyKeywords =
     [''ATTACH'', ''DETACH'', ''COPY'', ''PRAGMA'', ''INSTALL'', ''LOAD'', ''CALL'', ''CREATE'',
      ''ALTER'', ''DROP'', ''TRUNCATE'', ''INSERT'', ''UPDATE'', ''DELETE'', ''MERGE'',
      ''REPLACE'', ''GRANT'', ''REVOKE'', ''VACUUM'', ''ANALYZE'', ''EXPORT'', ''IMPORT'']"

definition isRelationNoise :: "runes \<Rightarrow> bool" where
  "isRelationNoise upper \<longleftrightarrow> upper \<in> words
     [''AS'', ''LATERAL'', ''ONLY'', ''NATURAL'', ''INNER'', ''OUTER'', ''LEFT'', ''RIGHT'',
      ''FULL'', ''CROSS'', ''SEMI'', ''ANTI'', ''POSITIONAL'']"

definition isFromListEnd :: "runes \<Rightarrow> bool" where
  "isFromListEnd upper \<longleftrightarrow> upper \<in> words
     [''WHERE'', ''GROUP'', ''ORDER'', ''LIMIT'', ''OFFSET'', ''HAVING'', ''QUALIFY'',
      ''WINDOW'', ''UNION'', ''EXCEPT'', ''INTERSECT'', ''FETCH'']"

definition startsSubquery :: "runes \<Rightarrow> bool" where
  "startsSubquery upper \<longleftrightarrow> upper \<in> words
     [''SELECT'', ''WITH'', ''VALUES'']"

definition isEscapeStringPrefix :: "runes \<Rightarrow> bool" where
  "isEscapeStringPrefix upper \<longleftrightarrow> upper \<in> words
     [''E'', ''X'', ''B'', ''N'']"

definition isTypedLiteralPrefix :: "runes \<Rightarrow> bool" where
  "isTypedLiteralPrefix upper \<longleftrightarrow> upper \<in> words
     [''TIMESTAMP'', ''TIMESTAMPTZ'', ''DATE'', ''TIME'', ''INTERVAL'', ''VARCHAR'',
      ''CHAR'', ''CHARACTER'', ''BOOLEAN'', ''BOOL'', ''BLOB'', ''JSON'', ''UUID'',
      ''TINYINT'', ''SMALLINT'', ''INTEGER'', ''INT'', ''BIGINT'', ''HUGEINT'', ''FLOAT'',
      ''DOUBLE'', ''DECIMAL'', ''NUMERIC'', ''REAL'']"

definition isBlockedRoutine :: "runes \<Rightarrow> bool" where
  "isBlockedRoutine upper \<longleftrightarrow>
     upper \<in> words blockedFunctions
     \<or> list_ex (\<lambda>p. prefix (asc p) upper) [''READ_'', ''SNIFF_'', ''PARQUET_'', ''HTTP_'', ''ICEBERG_'', ''DELTA_'', ''ST_READ'']
     \<or> suffix (asc ''_SCAN'') upper \<or> suffix (asc ''_ATTACH'') upper"

subsection \<open>Checks on tokens\<close>

datatype ExprType = ExprSelect | ExprGroupBy | ExprOrderBy

datatype sql_error =
    EmptySQL | EmptyAfterParsing | BadStart runes | Semicolons | QuotedIdentifier | WriteForm
  | NotInsertInto runes | CatalogNotIdent | SystemCatalog runes | BadTarget | BadTable runes
  | UnclosedColumns | NotValues | BlockedInWrite runes | BlockedKeyword runes | BlockedFunction runes
  | FilePath | SelectInto | CallStatement
  | ExprComment ExprType | ExprSemicolons ExprType | ExprSubquery ExprType | ExprKeyword ExprType runes
  | ExprFunction ExprType runes | ExprUnbalanced ExprType

type_synonym verdict = "(sql_error, unit) go_result"

text \<open>Checks in sequence: the first error is returned.\<close>

definition or_else :: "sql_error option \<Rightarrow> sql_error option \<Rightarrow> sql_error option" where
  "or_else a b = (case a of Some e \<Rightarrow> Some e | None \<Rightarrow> b)"

definition verdict_of :: "sql_error option \<Rightarrow> verdict" where
  "verdict_of e = (case e of None \<Rightarrow> Returns () | Some x \<Rightarrow> Fails x)"

definition is_kw :: "string \<Rightarrow> token \<Rightarrow> bool" where
  "is_kw w t \<longleftrightarrow> tk_kind t = tkIdent \<and> tk_upper t = asc w"

definition semi_error :: "sql_error \<Rightarrow> token list \<Rightarrow> sql_error option" where
  "semi_error e ts = (if list_ex (\<lambda>t. tk_kind t = tkSemi) ts then Some e else None)"

definition keyword_error :: "(runes \<Rightarrow> sql_error) \<Rightarrow> (runes \<Rightarrow> bool) \<Rightarrow> token list \<Rightarrow> sql_error option" where
  "keyword_error e bad ts = map_option (\<lambda>t. e (tk_value t)) (find (\<lambda>t. tk_kind t = tkIdent \<and> bad (tk_upper t)) ts)"

fun routine_error :: "(runes \<Rightarrow> sql_error) \<Rightarrow> token list \<Rightarrow> sql_error option" where
  "routine_error e (t # u # ts) =
     (if tk_kind t = tkIdent \<and> isBlockedRoutine (tk_upper t) \<and> tk_kind u = tkLParen then Some (e (tk_value t))
      else routine_error e (u # ts))"
| "routine_error e _ = None"

text \<open>The maps \<open>expecting\<close> and \<open>relationList\<close>, as the sets of depths at which they hold.\<close>

fun rejectFilePathRelations_loop :: "nat \<Rightarrow> nat set \<Rightarrow> nat set \<Rightarrow> token list \<Rightarrow> sql_error option" where
  "rejectFilePathRelations_loop depth expecting relationList [] = None"
| "rejectFilePathRelations_loop depth expecting relationList (t # ts) =
     (let upper = tk_upper t;
          next_string = (case ts of [] \<Rightarrow> False | u # _ \<Rightarrow> tk_kind u = tkString)
      in case tk_kind t of
        tkLParen \<Rightarrow>
          rejectFilePathRelations_loop (depth + 1) (if depth \<in> expecting then insert (depth + 1) expecting else expecting) relationList ts
      | tkRParen \<Rightarrow> rejectFilePathRelations_loop (depth - 1) (expecting - {depth}) (relationList - {depth}) ts
      | tkComma \<Rightarrow> rejectFilePathRelations_loop depth (if depth \<in> relationList then insert depth expecting else expecting) relationList ts
      | tkString \<Rightarrow> if depth \<in> expecting then Some FilePath else rejectFilePathRelations_loop depth expecting relationList ts
      | tkIdent \<Rightarrow>
          if upper = asc ''FROM'' \<or> upper = asc ''JOIN'' then
            rejectFilePathRelations_loop depth (insert depth expecting) (insert depth relationList) ts
          else if isRelationNoise upper then rejectFilePathRelations_loop depth expecting relationList ts
          else if depth \<in> relationList \<and> isFromListEnd upper then
            rejectFilePathRelations_loop depth (expecting - {depth}) (relationList - {depth}) ts
          else if upper = asc ''ON'' \<or> upper = asc ''USING'' then
            rejectFilePathRelations_loop depth (expecting - {depth}) relationList ts
          else if depth \<notin> expecting then rejectFilePathRelations_loop depth expecting relationList ts
          else if isTypedLiteralPrefix upper \<and> next_string then
            rejectFilePathRelations_loop depth (expecting - {depth}) relationList ts
          else if isEscapeStringPrefix upper \<and> next_string then Some FilePath
          else if upper = asc ''U'' \<and> (case ts of u # v # _ \<Rightarrow> tk_kind u = tkOp \<and> tk_value u = asc ''&'' \<and> tk_kind v = tkString | _ \<Rightarrow> False)
          then Some FilePath
          else rejectFilePathRelations_loop depth (expecting - {depth})
                 (if startsSubquery upper then relationList else insert depth relationList) ts
      | _ \<Rightarrow> rejectFilePathRelations_loop depth expecting relationList ts)"

definition rejectFilePathRelations :: "token list \<Rightarrow> sql_error option" where
  "rejectFilePathRelations ts = rejectFilePathRelations_loop 0 {} {} ts"

fun select_into :: "bool \<Rightarrow> bool \<Rightarrow> token list \<Rightarrow> sql_error option" where
  "select_into selectSeen fromSeen [] = None"
| "select_into selectSeen fromSeen (t # ts) =
     (if tk_kind t \<noteq> tkIdent then select_into selectSeen fromSeen ts
      else let selectSeen' = (selectSeen \<or> tk_upper t = asc ''SELECT'');
               fromSeen' = (if tk_upper t = asc ''SELECT'' then False else if tk_upper t = asc ''FROM'' then True else fromSeen)
           in if tk_upper t = asc ''INTO'' \<and> selectSeen' \<and> \<not> fromSeen' then Some SelectInto
              else select_into selectSeen' fromSeen' ts)"

definition rejectSQLHazards :: "token list \<Rightarrow> string list \<Rightarrow> sql_error option" where
  "rejectSQLHazards ts skipDML =
     or_else (semi_error Semicolons ts)
       (or_else (keyword_error BlockedKeyword (\<lambda>u. u \<notin> words skipDML \<and> u \<in> words blockedDML) ts)
         (or_else (routine_error BlockedFunction ts)
           (or_else (rejectFilePathRelations ts)
             (or_else (select_into False False ts)
               (if list_ex (is_kw ''CALL'') ts then Some CallStatement else None)))))"

definition tokensForValidation :: "go_rt \<Rightarrow> runes \<Rightarrow> (sql_error, token list) go_result" where
  "tokensForValidation rt sql =
     (let trimmed = text_trim sql
      in if trimmed = [] then Fails EmptySQL
         else case tokenize rt trimmed of
           None \<Rightarrow> Panics
         | Some ts \<Rightarrow> if length ts = 0 then Fails EmptyAfterParsing else Returns ts)"

definition ValidateRawSQL :: "go_rt \<Rightarrow> runes \<Rightarrow> verdict" where
  "ValidateRawSQL rt sql =
     go_bind (tokensForValidation rt sql) (\<lambda>ts.
       let first = hd ts
       in if tk_kind first \<noteq> tkIdent \<or> tk_upper first \<notin> words allowedStatementStarts then Fails (BadStart (tk_value first))
          else verdict_of (rejectSQLHazards ts []))"

subsection \<open>Writes\<close>

definition az_fold :: "nat \<Rightarrow> bool" where
  "az_fold r \<longleftrightarrow> 97 \<le> r \<and> r \<le> 122 \<or> 65 \<le> r \<and> r \<le> 90 \<or> r = 0x17F \<or> r = 0x212A"

definition ascii_lower :: "nat \<Rightarrow> nat" where
  "ascii_lower r = (if 65 \<le> r \<and> r \<le> 90 then r + 32 else r)"

text \<open>The regular expression \<open>(?i)^hep_proto_[0-9]+_[a-z][a-z0-9_]*$\<close>; \<open>(?i)\<close> adds U+017F and U+212A to \<open>[a-z]\<close>.\<close>

definition hepProtoTableName :: "runes \<Rightarrow> bool" where
  "hepProtoTableName s \<longleftrightarrow>
     map ascii_lower (take 10 s) = asc ''hep_proto_'' \<and>
     (let r = drop 10 s; digit = (\<lambda>c. 48 \<le> c \<and> c \<le> 57)
      in takeWhile digit r \<noteq> [] \<and>
         (case dropWhile digit r of
            u # c # rest \<Rightarrow> u = 95 \<and> az_fold c \<and> list_all (\<lambda>x. az_fold x \<or> digit x \<or> x = 95) rest
          | _ \<Rightarrow> False))"

definition write_token_error :: "token \<Rightarrow> sql_error option" where
  "write_token_error t =
     (if tk_kind t = tkSemi then Some Semicolons
      else if tk_kind t = tkIdent \<and> starts_with 34 (tk_value t) then Some QuotedIdentifier
      else if tk_kind t = tkOp \<and> (tk_value t = asc ''['' \<or> tk_value t = [96]) then Some QuotedIdentifier
      else None)"

fun skip_columns :: "int \<Rightarrow> token list \<Rightarrow> token list option" where
  "skip_columns depth [] = None"
| "skip_columns depth (t # ts) =
     (if tk_kind t = tkLParen then skip_columns (depth + 1) ts
      else if tk_kind t = tkRParen then (if depth - 1 = 0 then Some ts else skip_columns (depth - 1) ts)
      else skip_columns depth ts)"

definition write_keywords :: "string list" where
  "write_keywords =
     [''SELECT'', ''FROM'', ''JOIN'', ''UNION'', ''EXCEPT'', ''INTERSECT'',
      ''TABLE'', ''PIVOT'', ''UNPIVOT'', ''REPLACE'', ''OVERWRITE'', ''RETURNING'']"

definition requireInsertIntoHepProtoValues :: "token list \<Rightarrow> sql_error option" where
  "requireInsertIntoHepProtoValues ts =
     (case List.map_filter write_token_error ts of
        e # _ \<Rightarrow> Some e
      | [] \<Rightarrow>
          if length ts < 8 then Some WriteForm
          else if \<not> is_kw ''INSERT'' (ts ! 0) \<or> \<not> is_kw ''INTO'' (ts ! 1) then Some (NotInsertInto (tk_value (ts ! 0)))
          else if tk_kind (ts ! 2) \<noteq> tkIdent then Some CatalogNotIdent
          else if tk_upper (ts ! 2) \<in> words blockedWriteCatalogs then Some (SystemCatalog (tk_value (ts ! 2)))
          else if tk_kind (ts ! 3) \<noteq> tkDot \<or> \<not> is_kw ''MAIN'' (ts ! 4) \<or> tk_kind (ts ! 5) \<noteq> tkDot \<or> tk_kind (ts ! 6) \<noteq> tkIdent
          then Some BadTarget
          else if \<not> hepProtoTableName (tk_value (ts ! 6)) then Some (BadTable (tk_value (ts ! 6)))
          else
            (case (if tk_kind (ts ! 7) = tkLParen then skip_columns 0 (drop 7 ts) else Some (drop 7 ts)) of
               None \<Rightarrow> Some UnclosedColumns
             | Some rest \<Rightarrow>
                 if rest = [] \<or> \<not> is_kw ''VALUES'' (hd rest) then Some NotValues
                 else keyword_error BlockedInWrite (\<lambda>u. u \<in> words write_keywords) ts))"

definition ValidateWriteSQL :: "go_rt \<Rightarrow> runes \<Rightarrow> verdict" where
  "ValidateWriteSQL rt sql =
     go_bind (tokensForValidation rt sql) (\<lambda>ts.
       verdict_of (or_else (requireInsertIntoHepProtoValues ts) (rejectSQLHazards ts [''INSERT''])))"

subsection \<open>Comments and expressions\<close>

text \<open>One round of the loop of \<open>ContainsUnsafeComment\<close>: \<open>None\<close> when it finds a marker.\<close>

definition comment_step :: "go_rt \<Rightarrow> nat \<Rightarrow> runes \<Rightarrow> runes option" where
  "comment_step rt ch s =
     (if ch = 39 then Some (drop 1 (snd (scan_quoted 39 s)))
      else case tryDollarString closeDollarString rt (ch # s) of
        Some e \<Rightarrow> Some (drop e (ch # s))
      | None \<Rightarrow>
          if ch = 34 then Some (drop 1 (snd (scan_quoted 34 s)))
          else if ch = 45 \<and> starts_with 45 s then None
          else if ch = 47 \<and> starts_with 42 s then None
          else if ch = 42 \<and> starts_with 47 s then None
          else Some s)"

lemma scan_quoted_snd_le: "length (drop 1 (snd (scan_quoted q s))) \<le> length s"
proof -
  obtain a b where ab: "scan_quoted q s = (a, b)" by fastforce
  then have "length s = length a + length b" by (auto dest: scan_quoted_append)
  then show ?thesis by (simp add: ab)
qed

lemma comment_step_shorter: "comment_step rt ch s = Some s' \<Longrightarrow> length s' < length (ch # s)"
  using scan_quoted_snd_le [of 39 s] scan_quoted_snd_le [of 34 s]
  by (auto simp: comment_step_def split: if_splits option.splits dest: tryDollarString_pos)

function ContainsUnsafeComment :: "go_rt \<Rightarrow> runes \<Rightarrow> bool" where
  "ContainsUnsafeComment rt [] = False"
| "ContainsUnsafeComment rt (ch # s) =
     (case comment_step rt ch s of None \<Rightarrow> True | Some s' \<Rightarrow> ContainsUnsafeComment rt s')"
  by pat_completeness auto
termination
  by (relation "measure (\<lambda>(rt, s). length s)") (auto dest: comment_step_shorter)

declare ContainsUnsafeComment.simps(2) [simp del]

fun paren_error :: "sql_error \<Rightarrow> int \<Rightarrow> token list \<Rightarrow> sql_error option" where
  "paren_error e depth [] = (if depth \<noteq> 0 then Some e else None)"
| "paren_error e depth (t # ts) =
     (let d = depth + (if tk_kind t = tkLParen then 1 else 0) - (if tk_kind t = tkRParen then 1 else 0)
      in if d < 0 then Some e else paren_error e d ts)"

definition ValidateExpression :: "go_rt \<Rightarrow> runes \<Rightarrow> ExprType \<Rightarrow> verdict" where
  "ValidateExpression rt expr ty =
     (let trimmed = text_trim expr
      in if trimmed = [] then Returns ()
         else if ContainsUnsafeComment rt trimmed then Fails (ExprComment ty)
         else case tokenize rt trimmed of
           None \<Rightarrow> Panics
         | Some ts \<Rightarrow>
             if length ts = 0 then Returns ()
             else verdict_of
               (or_else (semi_error (ExprSemicolons ty) ts)
                 (or_else (if list_ex (is_kw ''SELECT'') ts then Some (ExprSubquery ty) else None)
                   (or_else (keyword_error (ExprKeyword ty) (\<lambda>u. u \<in> words blockedExprKeywords) ts)
                     (or_else (routine_error (ExprFunction ty) ts)
                       (paren_error (ExprUnbalanced ty) 0 ts))))))"

definition exprTypeName :: "ExprType \<Rightarrow> string" where
  "exprTypeName t = (case t of ExprSelect \<Rightarrow> ''SELECT'' | ExprGroupBy \<Rightarrow> ''GROUP BY'' | ExprOrderBy \<Rightarrow> ''ORDER BY'')"

subsection \<open>Row limits\<close>

definition IsLimitableQuery :: "go_rt \<Rightarrow> runes \<Rightarrow> bool option" where
  "IsLimitableQuery rt sql =
     map_option (\<lambda>ts. ts \<noteq> [] \<and> (is_kw ''SELECT'' (hd ts) \<or> is_kw ''WITH'' (hd ts))) (tokenize rt (text_trim sql))"

fun limit_clause :: "token list \<Rightarrow> bool" where
  "limit_clause (t # u # ts) \<longleftrightarrow>
     is_kw ''LIMIT'' t \<and> (tk_kind u = tkNumber \<or> is_kw ''ALL'' u) \<or> limit_clause (u # ts)"
| "limit_clause _ = False"

definition HasLimitToken :: "go_rt \<Rightarrow> runes \<Rightarrow> bool option" where
  "HasLimitToken rt sql = map_option limit_clause (tokenize rt sql)"

definition EnsureLimit :: "go_rt \<Rightarrow> runes \<Rightarrow> int \<Rightarrow> runes option" where
  "EnsureLimit rt sql maxRows =
     (if maxRows \<le> 0 then Some sql
      else case IsLimitableQuery rt sql of
        None \<Rightarrow> None
      | Some False \<Rightarrow> Some sql
      | Some True \<Rightarrow>
          (case HasLimitToken rt sql of
             None \<Rightarrow> None
           | Some True \<Rightarrow> Some sql
           | Some False \<Rightarrow> Some (text_trim sql @ asc ('' LIMIT '' @ Itoa (nat maxRows)))))"

definition ContainsForbiddenIdentifier :: "go_rt \<Rightarrow> runes \<Rightarrow> string list \<Rightarrow> bool option" where
  "ContainsForbiddenIdentifier rt sql forbidden =
     (if length forbidden = 0 then Some False
      else map_option (list_ex (\<lambda>t. tk_kind t = tkIdent \<and> tk_upper t \<in> words forbidden)) (tokenize rt sql))"

subsection \<open>Escaping\<close>

definition maxSafeStringLen :: nat where
  "maxSafeStringLen = 1000"

definition safe_rune :: "nat \<Rightarrow> runes" where
  "safe_rune r =
     (if r = 0 then []
      else if r < 0x20 \<and> r \<noteq> 9 \<and> r \<noteq> 10 \<and> r \<noteq> 13 then []
      else if r = 39 then [39, 39]
      else if r = 92 then [92, 92]
      else [r])"

definition SafeString :: "runes \<Rightarrow> runes" where
  "SafeString s =
     (let s1 = (if maxSafeStringLen < byte_len s
                then (if maxSafeStringLen < length s then take maxSafeStringLen s else s)
                else s)
      in concat (map safe_rune s1))"

subsection \<open>The read-only check of the node\<close>

text \<open>\<open>validateUserSQL\<close> and \<open>ensureReadOnlySingleStatement\<close> of src/node/node.go.\<close>

datatype node_sql_error = NodeEmpty | NodeNotSelect | NodeForbiddenText | NodeForbiddenKeyword | NodeMultiple

definition validateUserSQL :: "go_rt \<Rightarrow> runes \<Rightarrow> (node_sql_error, unit) go_result" where
  "validateUserSQL rt query =
     (let trimmed = text_trim query
      in if trimmed = [] then Fails NodeEmpty
         else let upper = ToUpper rt trimmed
              in if \<not> prefix (asc ''SELECT'') upper \<and> \<not> prefix (asc ''WITH'') upper then Fails NodeNotSelect
                 else if 59 \<in> set trimmed then Fails NodeForbiddenText
                 else if ContainsUnsafeComment rt trimmed then Fails NodeForbiddenText
                 else case ContainsForbiddenIdentifier rt trimmed ForbiddenReadOnlyKeywords of
                   None \<Rightarrow> Panics
                 | Some True \<Rightarrow> Fails NodeForbiddenKeyword
                 | Some False \<Rightarrow> Returns ())"

definition ensureReadOnlySingleStatement :: "go_rt \<Rightarrow> runes \<Rightarrow> (node_sql_error, unit) go_result" where
  "ensureReadOnlySingleStatement rt query =
     (let trimmed = text_trim query
      in if trimmed = [] then Fails NodeEmpty
         else if 59 \<in> set trimmed \<and> text_trim (drop 1 (dropWhile (\<lambda>c. c \<noteq> 59) trimmed)) \<noteq> [] then Fails NodeMultiple
         else let head = ToUpper rt trimmed
              in if \<not> prefix (asc ''SELECT'') head \<and> \<not> prefix (asc ''WITH'') head then Fails NodeNotSelect
                 else Returns ())"

end
