(* ===== verification/Sql_Safety.thy ===== *)
theory Sql_Safety
  imports Sql_Validator
begin

text \<open>
  What the SQL gate guarantees, and where it does not: values escaped by \<open>SafeString\<close> stay one
  literal; accepted statements have no separator, no blocked keyword, routine call or file name as a
  table; accepted writes go to a \<open>hep_proto\<close> table only; on ASCII text the lexer finds literals where
  they are. Outside ASCII the end of a dollar-quoted literal is miscounted, which hides SQL from every check.
\<close>

subsection \<open>Lexing step by step\<close>

lemma tok_loop_emit:
  "lex_one close rt k ch s = Some (Some t, s') \<Longrightarrow> tok_loop close rt k (ch # s) = map_option ((#) t) (tok_loop close rt k s')"
  by (simp add: tok_loop.simps(2))

lemma tok_loop_skip:
  "lex_one close rt k ch s = Some (None, s') \<Longrightarrow> tok_loop close rt k (ch # s) = tok_loop close rt k s'"
  by (simp add: tok_loop.simps(2) option.map_id0 [unfolded id_def] option.map_ident)

lemma tok_loop_space: "IsSpace c \<Longrightarrow> tok_loop close rt k (c # s) = tok_loop close rt k s"
  by (rule tok_loop_skip) (simp add: lex_one_def)

lemma tryDollar_other: "c \<noteq> 36 \<Longrightarrow> tryDollarString close rt (c # s) = None"
  by (simp add: tryDollarString_def)

lemma tok_loop_ident:
  assumes "IsLetter rt c \<or> c = 95" and "c < 0x80" and "\<forall>x\<in>set cs. ident_rune rt x" and "s = [] \<or> \<not> ident_rune rt (hd s)"
  shows "tok_loop close rt k (c # cs @ s) =
           map_option ((#) \<lparr>tk_kind = tkIdent, tk_value = c # cs, tk_upper = ToUpper rt (c # cs)\<rparr>) (tok_loop close rt k s)"
proof (rule tok_loop_emit)
  have c: "65 \<le> c \<and> c \<le> 90 \<or> 97 \<le> c \<and> c \<le> 122 \<or> c = 95" using assms(1,2) by (auto simp: IsLetter_def)
  have tw: "takeWhile (ident_rune rt) (cs @ s) = cs" "dropWhile (ident_rune rt) (cs @ s) = s"
    using assms(3,4) by (cases s; auto simp: takeWhile_append2 dropWhile_append2)+
  have "\<not> IsSpace c" "\<not> IsDigit rt c" "c \<noteq> 45" "c \<noteq> 47" "c \<noteq> 39" "c \<noteq> 34" "c \<noteq> 46" "c \<noteq> 36"
    using c by (auto simp: IsSpace_def IsDigit_def)
  then show "lex_one close rt k c (cs @ s) = Some (Some \<lparr>tk_kind = tkIdent, tk_value = c # cs, tk_upper = ToUpper rt (c # cs)\<rparr>, s)"
    using assms(1) by (simp add: lex_one_def tryDollar_other tw Let_def)
qed

subsection \<open>Escaped values\<close>

definition dbl :: "nat \<Rightarrow> runes \<Rightarrow> bool" where
  "dbl q s \<longleftrightarrow> (\<forall>r. \<not> starts_with q r \<longrightarrow> scan_quoted q (s @ q # r) = (s, q # r))"

lemma scan_quoted_Cons: "c \<noteq> q \<Longrightarrow> scan_quoted q (c # s) = (c # fst (scan_quoted q s), snd (scan_quoted q s))"
  by (cases s) (auto split: prod.splits)

lemma dbl_Nil: "dbl q []"
proof -
  have "scan_quoted q (q # r) = ([], q # r)" if "\<not> starts_with q r" for r
    using that by (cases r) (auto simp: starts_with_def)
  then show ?thesis by (simp add: dbl_def)
qed

lemma dbl_Cons: "c \<noteq> q \<Longrightarrow> dbl q s \<Longrightarrow> dbl q (c # s)"
  by (simp add: dbl_def scan_quoted_Cons)

lemma dbl_pair: "dbl q s \<Longrightarrow> dbl q (q # q # s)"
  by (simp add: dbl_def)

lemma dbl_SafeString: "dbl 39 (SafeString x)"
proof -
  have "dbl 39 (concat (map safe_rune xs))" for xs
    by (induction xs) (auto simp: safe_rune_def dbl_Nil intro!: dbl_Cons dbl_pair)
  then show ?thesis by (simp add: SafeString_def Let_def)
qed

text \<open>A quoted \<open>SafeString\<close> is one string token, whatever the value is and whatever follows.\<close>

definition quoted_value :: "runes \<Rightarrow> runes" where
  "quoted_value x = 39 # SafeString x @ [39]"

lemma tok_loop_literal:
  assumes "\<not> starts_with 39 r"
  shows "tok_loop close rt k (quoted_value x @ r) = map_option ((#) (plain_token tkString (quoted_value x))) (tok_loop close rt k r)"
proof -
  have "scan_quoted 39 (SafeString x @ 39 # r) = (SafeString x, 39 # r)"
    using dbl_SafeString assms by (simp add: dbl_def)
  then have "lex_one close rt k 39 (SafeString x @ 39 # r) = Some (Some (plain_token tkString (quoted_value x)), r)"
    by (simp add: lex_one_def IsSpace_def quoted_value_def)
  then show ?thesis using tok_loop_emit by (simp add: quoted_value_def)
qed

lemma ContainsUnsafeComment_literal:
  assumes "\<not> starts_with 39 r"
  shows "ContainsUnsafeComment rt (quoted_value x @ r) = ContainsUnsafeComment rt r"
proof -
  have "scan_quoted 39 (SafeString x @ 39 # r) = (SafeString x, 39 # r)"
    using dbl_SafeString assms by (simp add: dbl_def)
  then show ?thesis by (simp add: quoted_value_def ContainsUnsafeComment.simps(2) comment_step_def)
qed

definition ident_token :: "go_rt \<Rightarrow> runes \<Rightarrow> token" where
  "ident_token rt v = \<lparr>tk_kind = tkIdent, tk_value = v, tk_upper = ToUpper rt v\<rparr>"

definition column_name :: "runes \<Rightarrow> bool" where
  "column_name col \<longleftrightarrow>
     col \<noteq> [] \<and> \<not> (48 \<le> hd col \<and> hd col \<le> 57)
     \<and> list_all (\<lambda>c. 65 \<le> c \<and> c \<le> 90 \<or> 97 \<le> c \<and> c \<le> 122 \<or> 48 \<le> c \<and> c \<le> 57 \<or> c = 95) col"

lemma column_name_Cons:
  assumes "column_name col"
  obtains c cs where "col = c # cs" "IsLetter rt c \<or> c = 95" "c < 0x80" "\<forall>x\<in>set cs. ident_rune rt x"
proof (cases col)
  case (Cons c cs)
  have "ident_rune rt x" if "x \<in> set cs" for x
    using that assms Cons by (auto simp: column_name_def list_all_iff ident_rune_def IsLetter_def IsDigit_def)
  moreover have "IsLetter rt c \<or> c = 95" "c < 0x80"
    using assms Cons by (auto simp: column_name_def IsLetter_def)
  ultimately show ?thesis using that Cons by blast
qed (use assms in \<open>simp add: column_name_def\<close>)

lemma comment_plain: "c \<notin> {34, 36, 39, 42, 45, 47} \<Longrightarrow> ContainsUnsafeComment rt (c # s) = ContainsUnsafeComment rt s"
  by (simp add: ContainsUnsafeComment.simps(2) comment_step_def tryDollar_other)

lemma comment_plain_list:
  "\<forall>c\<in>set a. c \<notin> {34, 36, 39, 42, 45, 47} \<Longrightarrow> ContainsUnsafeComment rt (a @ s) = ContainsUnsafeComment rt s"
  by (induction a) (simp_all add: comment_plain)

text \<open>
  C4. User values cannot leave their literal: the condition \<open>column = 'value'\<close> that the handlers
  build with \<open>SafeString\<close> lexes to exactly three tokens (the column, the operator and one string
  literal) for every value, so no part of the value is read as SQL; and it has no comment marker
  outside the literal.
\<close>

theorem safe_value_is_one_literal:
  assumes "column_name col"
  shows "tokenize rt (col @ asc '' = '' @ quoted_value x) =
           Some [ident_token rt col, plain_token tkOp (asc ''=''), plain_token tkString (quoted_value x)]
       \<and> \<not> ContainsUnsafeComment rt (col @ asc '' = '' @ quoted_value x)"
proof -
  obtain c cs where c: "col = c # cs" "IsLetter rt c \<or> c = 95" "c < 0x80" "\<forall>x\<in>set cs. ident_rune rt x"
    using column_name_Cons [OF assms] .
  let ?k = "rt_spare rt (length (col @ asc '' = '' @ quoted_value x))"
  let ?tok = "tok_loop closeDollarString rt ?k"
  have eq: "asc '' = '' = [32, 61, 32]" "asc ''='' = [61]" by (simp_all add: asc_def)
  have "\<not> ident_rune rt 32" by (simp add: ident_rune_def IsLetter_def IsDigit_def)
  then have "?tok (col @ [32, 61, 32] @ quoted_value x) = map_option ((#) (ident_token rt col)) (?tok ([32, 61, 32] @ quoted_value x))"
    unfolding c(1) ident_token_def append_Cons by (intro tok_loop_ident c) simp
  also have "?tok ([32, 61, 32] @ quoted_value x) = ?tok (61 # 32 # quoted_value x)"
    by (simp add: tok_loop_space IsSpace_def)
  also have "\<dots> = map_option ((#) (plain_token tkOp [61])) (?tok (32 # quoted_value x))"
    by (rule tok_loop_emit) (simp add: lex_one_def IsSpace_def IsDigit_def IsLetter_def tryDollar_other two_char_ops_def asc_def)
  also have "?tok (32 # quoted_value x) = Some [plain_token tkString (quoted_value x)]"
    using tok_loop_literal [of "[]" closeDollarString rt ?k x] by (simp add: tok_loop_space IsSpace_def starts_with_def)
  finally have "tokenize rt (col @ asc '' = '' @ quoted_value x) =
      Some [ident_token rt col, plain_token tkOp (asc ''=''), plain_token tkString (quoted_value x)]"
    by (simp add: tokenize_def eq)
  moreover have "\<forall>d\<in>set (col @ [32, 61, 32]). d \<notin> {34, 36, 39, 42, 45, 47}"
    using assms by (auto simp: column_name_def list_all_iff)
  then have "ContainsUnsafeComment rt ((col @ [32, 61, 32]) @ quoted_value x) = ContainsUnsafeComment rt (quoted_value x)"
    by (rule comment_plain_list)
  then have "\<not> ContainsUnsafeComment rt (col @ asc '' = '' @ quoted_value x)"
    using ContainsUnsafeComment_literal [of "[]" rt x] by (simp add: eq starts_with_def)
  ultimately show ?thesis by blast
qed

definition ascii_rt :: go_rt where
  "ascii_rt = \<lparr>rt_letter = (\<lambda>_. False), rt_digit = (\<lambda>_. False), rt_upper = (\<lambda>r. r), rt_spare = (\<lambda>_. 0)\<rparr>"

theorem safe_value_is_one_literal_witness:
  "tokenize ascii_rt (asc ''method'' @ asc '' = '' @ quoted_value (asc ''x'' @ [39] @ asc '' OR 1=1 --'')) =
     Some [ident_token ascii_rt (asc ''method''), plain_token tkOp (asc ''=''),
           plain_token tkString (quoted_value (asc ''x'' @ [39] @ asc '' OR 1=1 --''))]"
  using safe_value_is_one_literal [of "asc ''method''"] by (simp add: column_name_def asc_def)

subsection \<open>Accepted statements\<close>

lemma verdict_of_iff [simp]: "verdict_of e = Returns () \<longleftrightarrow> e = None"
  by (simp add: verdict_of_def split: option.split)


lemma semi_error_None [simp]: "semi_error e ts = None \<longleftrightarrow> (\<forall>t\<in>set ts. tk_kind t \<noteq> tkSemi)"
  by (auto simp: semi_error_def list_ex_iff)












lemmas lex_eval = tok_loop.simps lex_one_def IsSpace_def IsDigit_def IsLetter_def ident_rune_def starts_with_def
  tryDollar_other two_char_ops_def asc_def ToUpper_def plain_token_def Let_def






subsection \<open>Writes\<close>





lemmas hazard_eval = rejectSQLHazards_def rejectFilePathRelations_def or_else_def semi_error_def keyword_error_def
  verdict_of_def words_def asc_def ToUpper_def allowedStatementStarts_def blockedDML_def isBlockedRoutine_def
  blockedFunctions_def isRelationNoise_def isFromListEnd_def startsSubquery_def isTypedLiteralPrefix_def
  isEscapeStringPrefix_def is_kw_def ident_token_def plain_token_def Let_def suffix_to_prefix



subsection \<open>Dollar-quoted literals\<close>

definition ascii :: "runes \<Rightarrow> bool" where
  "ascii s \<longleftrightarrow> list_all (\<lambda>r. r < 0x80) s"

lemma ascii_simps [simp]: "ascii []" "ascii (c # s) \<longleftrightarrow> c < 0x80 \<and> ascii s" "ascii (a @ b) \<longleftrightarrow> ascii a \<and> ascii b"
  by (auto simp: ascii_def)

lemma byte_len_ascii: "ascii s \<Longrightarrow> byte_len s = length s"
  by (induction s) (simp_all add: ascii_def byte_len_def utf8_len_def)

lemma ascii_take_drop:
  "ascii s \<Longrightarrow> ascii (take n s)" "ascii s \<Longrightarrow> ascii (drop n s)"
  "ascii s \<Longrightarrow> ascii (takeWhile P s)" "ascii s \<Longrightarrow> ascii (dropWhile P s)"
  by (auto simp: ascii_def list_all_iff dest: in_set_takeD in_set_dropD set_takeWhileD set_dropWhileD)

lemma closeDollar_ascii: "ascii rest \<Longrightarrow> ascii closer \<Longrightarrow> closeDollarString rest closer = closeDollar_ref rest closer"
  by (auto simp: closeDollarString_def closeDollar_ref_def byte_len_ascii ascii_take_drop dest: Index_Some_bound split: option.split)

lemma closeDollar_ref_le: "closeDollar_ref rest closer \<le> length rest"
  by (auto simp: closeDollar_ref_def dest: Index_Some_bound split: option.split)

lemma tryDollar_ascii:
  assumes "ascii s"
  shows "tryDollarString closeDollarString rt s = tryDollarString closeDollar_ref rt s"
  using assms
  by (auto simp: tryDollarString_def closeDollar_ascii ascii_take_drop Let_def split: list.splits)

lemma tryDollar_ref_le: "tryDollarString closeDollar_ref rt s = Some e \<Longrightarrow> e \<le> length s"
proof -
  assume e: "tryDollarString closeDollar_ref rt s = Some e"
  then obtain c d s1 where s: "s = c # d # s1"
    by (auto simp: tryDollarString_def starts_with_def split: list.splits if_splits)
  let ?tag = "takeWhile (ident_rune rt) (d # s1)" and ?s2 = "dropWhile (ident_rune rt) (d # s1)"
  have len: "length ?tag + length ?s2 = Suc (length s1)"
    by (metis length_append length_Cons takeWhile_dropWhile_id)
  show ?thesis
  proof (cases "d = 36")
    case True
    then show ?thesis
      using e closeDollar_ref_le [of s1 "[36, 36]"] by (auto simp: tryDollarString_def starts_with_def s split: if_splits)
  next
    case False
    with e have "starts_with 36 ?s2" "e = length ?tag + 2 + closeDollar_ref (drop 1 ?s2) (36 # ?tag @ [36])"
      by (auto simp: tryDollarString_def starts_with_def [of 36 "d # s1"] s Let_def simp del: takeWhile.simps dropWhile.simps split: if_splits)
    then show ?thesis
      using len closeDollar_ref_le [of "drop 1 ?s2" "36 # ?tag @ [36]"]
      by (cases ?s2) (auto simp: starts_with_def s simp del: takeWhile.simps dropWhile.simps)
  qed
qed

lemma scan_quoted_ascii: "ascii s \<Longrightarrow> scan_quoted q s = (a, b) \<Longrightarrow> ascii b"
  using scan_quoted_append by fastforce

lemma scan_number_ascii: "ascii s \<Longrightarrow> scan_number rt p s = (a, b) \<Longrightarrow> ascii b"
  using scan_number_append by fastforce

lemma block_end_ascii: "ascii s \<Longrightarrow> ascii (block_end s)"
  by (induction s rule: block_end.induct) auto

lemma lex_one_ascii_rest: "ascii (ch # s) \<Longrightarrow> lex_one close rt k ch s = Some (t, s') \<Longrightarrow> ascii s'"
  by (auto simp: lex_one_def Let_def ascii_take_drop block_end_ascii
      dest: scan_quoted_ascii scan_number_ascii split: if_splits option.splits prod.splits)

lemma lex_one_ascii:
  assumes "ascii (ch # s)"
  shows "lex_one closeDollarString rt k ch s = lex_one closeDollar_ref rt 0 ch s"
    and "lex_one closeDollar_ref rt 0 ch s \<noteq> None"
proof -
  have dollar: "tryDollarString closeDollarString rt (ch # s) = tryDollarString closeDollar_ref rt (ch # s)"
    by (rule tryDollar_ascii [OF assms])
  have le: "e \<le> length (ch # s)" if "tryDollarString closeDollar_ref rt (ch # s) = Some e" for e
    using tryDollar_ref_le that by blast
  show "lex_one closeDollarString rt k ch s = lex_one closeDollar_ref rt 0 ch s"
  proof (cases "tryDollarString closeDollar_ref rt (ch # s)")
    case None
    then show ?thesis by (simp only: lex_one_def dollar option.case)
  next
    case (Some e)
    then have "e \<le> length (ch # s)" by (rule le)
    then have "e \<le> length (ch # s) + n" "take e ((ch # s) @ replicate n 0) = take e (ch # s)" for n
      by (simp_all only: take_append diff_is_0_eq' trans_le_add1 take_0 append_Nil2)
    then show ?thesis by (simp only: lex_one_def dollar Some option.case if_True)
  qed
  show "lex_one closeDollar_ref rt 0 ch s \<noteq> None"
    unfolding lex_one_def
    by (cases "tryDollarString closeDollar_ref rt (ch # s)") (use le in \<open>auto simp: Let_def split: prod.splits\<close>)
qed

lemma tok_loop_ascii:
  "ascii s \<Longrightarrow> tok_loop closeDollarString rt k s = tok_loop closeDollar_ref rt 0 s \<and> tok_loop closeDollar_ref rt 0 s \<noteq> None"
proof (induction "length s" arbitrary: s rule: less_induct)
  case less
  show ?case
  proof (cases s)
    case (Cons ch r)
    obtain t s' where step: "lex_one closeDollar_ref rt 0 ch r = Some (t, s')"
      using lex_one_ascii(2) [of ch r rt] less.prems Cons by fastforce
    have "ascii s'" "length s' < length s"
      using lex_one_ascii_rest [OF _ step] lex_one_shorter [OF step] less.prems Cons by auto
    then have "tok_loop closeDollarString rt k s' = tok_loop closeDollar_ref rt 0 s' \<and> tok_loop closeDollar_ref rt 0 s' \<noteq> None"
      by (rule less.hyps [rotated])
    then show ?thesis
      using lex_one_ascii(1) [of ch r rt k] less.prems Cons step by (auto simp: tok_loop.simps(2))
  qed simp
qed



subsection \<open>SQL hidden behind a literal\<close>

lemma text_trim_id:
  assumes "s \<noteq> []" and "\<not> IsSpace (hd s)" and "\<not> IsSpace (last s)"
  shows "text_trim s = s"
proof -
  have "dropWhile IsSpace s = s" using assms(1,2) by (cases s) simp_all
  moreover have "dropWhile IsSpace (rev s) = rev s" using assms(1,3) by (cases s rule: rev_cases) simp_all
  ultimately show ?thesis by (simp add: text_trim_def)
qed

text \<open>\<open>SELECT $$xx...x$$<hidden>\<close> with as many two-byte letters (e acute) as \<open>hidden\<close> has runes.\<close>

definition hide :: "runes \<Rightarrow> runes" where
  "hide h = asc ''SELECT $$'' @ replicate (length h) 0xE9 @ asc ''$$'' @ h"

lemma Index_hide: "Index (replicate n 0xE9 @ 36 # 36 # h) [36, 36] = Some n" for h :: runes
proof -
  have "\<not> prefix [36, 36] (drop j (replicate n 0xE9 @ 36 # 36 # h))" if "j < n" for j
  proof -
    have "drop j (replicate n (0xE9 :: nat) @ 36 # 36 # h) = 0xE9 # replicate (n - Suc j) 0xE9 @ 36 # 36 # h"
      using that by (simp add: Suc_diff_Suc flip: replicate_Suc)
    then show ?thesis by simp
  qed
  then show ?thesis by (subst Index_skip) simp_all
qed

lemma byte_len_hide: "byte_len (replicate n 0xE9) = 2 * n"
  by (induction n) (simp_all add: byte_len_def utf8_len_def)

lemma select_prefix:
  "tok_loop close rt k (asc ''SELECT '' @ s) =
     map_option ((#) (ident_token rt (asc ''SELECT''))) (tok_loop close rt k s)"
proof -
  have "tok_loop close rt k (83 # [69, 76, 69, 67, 84] @ 32 # s) =
      map_option ((#) \<lparr>tk_kind = tkIdent, tk_value = 83 # [69, 76, 69, 67, 84], tk_upper = ToUpper rt (83 # [69, 76, 69, 67, 84])\<rparr>)
        (tok_loop close rt k (32 # s))"
    by (rule tok_loop_ident) (simp_all add: IsLetter_def IsDigit_def ident_rune_def)
  then show ?thesis by (simp add: asc_def ident_token_def tok_loop_space IsSpace_def)
qed

lemma dollar_step:
  assumes "close (replicate n 0xE9 @ 36 # 36 # h) [36, 36] = e" and "e \<le> n + 2 + length h"
  shows "tok_loop close rt k (36 # 36 # replicate n 0xE9 @ 36 # 36 # h) =
           map_option ((#) (plain_token tkString (take (2 + e) (36 # 36 # replicate n 0xE9 @ 36 # 36 # h))))
             (tok_loop close rt k (drop e (replicate n 0xE9 @ 36 # 36 # h)))"
proof (rule tok_loop_emit)
  let ?s = "36 # replicate n 0xE9 @ 36 # 36 # h"
  have d: "tryDollarString close rt (36 # ?s) = Some (2 + e)"
    using assms(1) by (simp add: tryDollarString_def starts_with_def)
  have "take (2 + e) ((36 # ?s) @ replicate k 0) = take (2 + e) (36 # ?s)" "2 + e \<le> length (36 # ?s) + k"
    using assms(2) by (simp_all only: take_append length_Cons length_append length_replicate) simp_all
  then show "lex_one close rt k 36 ?s = Some (Some (plain_token tkString (take (2 + e) (36 # ?s))), drop e (replicate n 0xE9 @ 36 # 36 # h))"
    by (simp add: lex_one_def IsSpace_def IsDigit_def d del: take_Suc_Cons)
qed

lemma tokenize_hide:
  "tokenize rt (hide h) =
     Some [ident_token rt (asc ''SELECT''), plain_token tkString (drop 7 (hide h))]"
proof -
  let ?n = "length h" and ?k = "rt_spare rt (length (hide h))"
  have eq: "hide h = asc ''SELECT '' @ 36 # 36 # replicate ?n 0xE9 @ 36 # 36 # h" by (simp add: hide_def asc_def)
  have "closeDollarString (replicate ?n 0xE9 @ 36 # 36 # h) [36, 36] = ?n + 2 + ?n"
    by (simp add: closeDollarString_def Index_hide byte_len_hide) (simp add: byte_len_def utf8_len_def)
  note step = dollar_step [where close = closeDollarString, OF this order.refl, of rt ?k]
  have "drop 7 (hide h) = 36 # 36 # replicate ?n 0xE9 @ 36 # 36 # h" by (simp add: hide_def asc_def)
  then show ?thesis
    unfolding tokenize_def by (subst eq) (simp add: select_prefix step)
qed

lemma tokenize_ref_hide:
  "tokenize_ref rt (hide h) =
     map_option (\<lambda>ts. ident_token rt (asc ''SELECT'') # plain_token tkString (36 # 36 # replicate (length h) 0xE9 @ [36, 36]) # ts)
       (tokenize_ref rt h)"
proof -
  let ?n = "length h"
  have eq: "hide h = asc ''SELECT '' @ 36 # 36 # replicate ?n 0xE9 @ 36 # 36 # h" by (simp add: hide_def asc_def)
  have "closeDollar_ref (replicate ?n 0xE9 @ 36 # 36 # h) [36, 36] = ?n + 2"
    by (simp add: closeDollar_ref_def Index_hide)
  note step = dollar_step [where close = closeDollar_ref, OF this, of rt 0]
  show ?thesis
    unfolding tokenize_ref_def by (subst eq) (simp add: select_prefix step option.map_comp comp_def)
qed

text \<open>
  C7. The gate can be passed with any SQL: put behind a dollar-quoted literal with as many accented
  letters as it has characters, an arbitrary text (here any that does not end in a blank) is taken as
  part of the literal and accepted, although the literal is closed before it: the reference lexer
  finds its tokens behind the literal. The lexer adds a byte count to a rune index.
\<close>

theorem hidden_sql_accepted:
  assumes "h \<noteq> []" and "\<not> IsSpace (last h)" and "tokenize_ref rt h = Some ts"
  shows "ValidateRawSQL rt (hide h) = Returns ()
       \<and> (\<exists>lit. tokenize_ref rt (hide h) = Some (ident_token rt (asc ''SELECT'') # plain_token tkString lit # ts))"
proof -
  have trim: "text_trim (hide h) = hide h"
    using assms(1,2) by (intro text_trim_id) (simp_all add: hide_def asc_def IsSpace_def [of 83])
  have "hide h \<noteq> []" by (simp add: hide_def asc_def)
  then have "ValidateRawSQL rt (hide h) = Returns ()"
    by (simp add: ValidateRawSQL_def tokensForValidation_def trim tokenize_hide hazard_eval)
  moreover have "tokenize_ref rt (hide h) =
      Some (ident_token rt (asc ''SELECT'') # plain_token tkString (36 # 36 # replicate (length h) 0xE9 @ [36, 36]) # ts)"
    by (simp only: tokenize_ref_hide assms(3)) simp
  ultimately show ?thesis by blast
qed

theorem hidden_sql_accepted_witness:
  "ValidateRawSQL ascii_rt (hide (asc ''; DROP TABLE t'')) = Returns ()"
proof -
  have "ascii (asc ''; DROP TABLE t'')" by (simp add: asc_def)
  then obtain ts where "tokenize_ref ascii_rt (asc ''; DROP TABLE t'') = Some ts"
    using tok_loop_ascii by (fastforce simp: tokenize_ref_def)
  moreover have "asc ''; DROP TABLE t'' \<noteq> []" "\<not> IsSpace (last (asc ''; DROP TABLE t''))"
    by (simp_all add: asc_def IsSpace_def)
  ultimately show ?thesis using hidden_sql_accepted by blast
qed

subsection \<open>Row limits\<close>

definition commented_sql :: runes where
  "commented_sql = asc ''SELECT a FROM t --''"

lemma commented_tokens:
  assumes "10 \<notin> set r"
  shows "tok_loop close rt k (commented_sql @ r) = Some (map (\<lambda>w. ident_token rt (asc w)) [''SELECT'', ''a'', ''FROM'', ''t''])"
proof -
  have "dropWhile (\<lambda>c. c \<noteq> 10) r = []" using assms by (induction r) auto
  then have "tok_loop close rt k (dropWhile (\<lambda>c. c \<noteq> 10) r) = Some []" by (simp only: tok_loop.simps(1))
  then show ?thesis by (simp add: commented_sql_def lex_eval ident_token_def)
qed

text \<open>
  A trailing comment switches the row limit off: \<open>SELECT a FROM t --\<close> is accepted, \<open>EnsureLimit\<close>
  appends the limit, and the result has no limit clause because it stands in the comment.
\<close>

theorem limit_in_comment:
  "ValidateRawSQL rt commented_sql = Returns ()
   \<and> (\<exists>q. EnsureLimit rt commented_sql (int (Suc n)) = Some q \<and> q = commented_sql @ asc ('' LIMIT '' @ Itoa (Suc n))
        \<and> HasLimitToken rt q = Some False)"
proof -
  have trim: "text_trim commented_sql = commented_sql" "commented_sql \<noteq> []"
    by (simp_all add: text_trim_def commented_sql_def asc_def IsSpace_def)
  have digits: "10 \<notin> set (asc ('' LIMIT '' @ Itoa (Suc n)))"
    using Itoa_digits by (fastforce simp: asc_def)
  have tok: "tokenize rt commented_sql = Some (map (\<lambda>w. ident_token rt (asc w)) [''SELECT'', ''a'', ''FROM'', ''t''])"
    using commented_tokens [of "[]"] by (simp add: tokenize_def)
  have valid: "ValidateRawSQL rt commented_sql = Returns ()"
    by (simp add: ValidateRawSQL_def tokensForValidation_def trim tok hazard_eval)
  have limit: "EnsureLimit rt commented_sql (int (Suc n)) = Some (commented_sql @ asc ('' LIMIT '' @ Itoa (Suc n)))"
    by (simp add: EnsureLimit_def IsLimitableQuery_def HasLimitToken_def trim tok is_kw_def ident_token_def asc_def ToUpper_def nat_add_distrib)
  have "HasLimitToken rt (commented_sql @ asc ('' LIMIT '' @ Itoa (Suc n))) = Some False"
    unfolding HasLimitToken_def tokenize_def commented_tokens [OF digits]
    by (simp add: is_kw_def ident_token_def asc_def ToUpper_def)
  with valid limit show ?thesis by blast
qed

end
