(* ===== verification/Line_Proto.thy ===== *)
theory Line_Proto
  imports Hep_Types
begin

text \<open>
  The InfluxDB line protocol on both sides of the wire: src/remotelog/lineproto.go writes a HEP
  message as a line (\<open>hepToLineProto\<close>), src/lineprotoreceiver/parser.go reads lines
  (\<open>ParseLineProtocol\<close>). A line is \<open>measurement,tag=value,... field=value,... timestamp\<close>; blanks, commas
  and equal signs are escaped with a backslash in tags, string fields are quoted.

  A \<open>map[string]...\<close> of the source is a map. \<open>strconv.ParseFloat\<close> is the argument \<open>pf\<close>.
\<close>

abbreviation BSL :: char where "BSL \<equiv> CHR 0x5C"
abbreviation QUOTE :: char where "QUOTE \<equiv> CHR 0x22"
abbreviation SPACE :: char where "SPACE \<equiv> CHR 0x20"
abbreviation NL :: char where "NL \<equiv> CHR 0x0A"

text \<open>Fallible functions return \<open>Inl\<close> an error or \<open>Inr\<close> a value.\<close>

fun sum_bind :: "'e + 'a \<Rightarrow> ('a \<Rightarrow> 'e + 'b) \<Rightarrow> 'e + 'b" where
  "sum_bind (Inr x) f = f x"
| "sum_bind (Inl e) f = Inl e"

subsection \<open>Points\<close>

datatype 'f field_value = FString string | FInt int | FBool bool | FFloat 'f

record 'f point =
  pt_Measurement :: string
  pt_Tags :: "string \<rightharpoonup> string"
  pt_Fields :: "string \<rightharpoonup> 'f field_value"
  pt_TimestampNs :: int

datatype precision = PrecisionNanoseconds | PrecisionMicroseconds | PrecisionMilliseconds | PrecisionSeconds

text \<open>The micro sign of the alias is the two bytes C2 B5.\<close>

definition ParsePrecision :: "string \<Rightarrow> precision" where
  "ParsePrecision s =
     (let p = ToLower (TrimSpace s)
      in if p \<in> {[], ''n'', ''ns'', ''nanosecond'', ''nanoseconds''} then PrecisionNanoseconds
         else if p \<in> {''u'', ''us'', [CHR 0xC2, CHR 0xB5, CHR ''s''], ''microsecond'', ''microseconds''} then PrecisionMicroseconds
         else if p \<in> {''ms'', ''millisecond'', ''milliseconds''} then PrecisionMilliseconds
         else if p \<in> {''s'', ''sec'', ''second'', ''seconds''} then PrecisionSeconds
         else PrecisionNanoseconds)"


datatype lp_error =
    LpUnterminated | LpEmptyMeasurement | LpEmptyFieldSet | LpNoFields | LpTimestamp string
  | LpTagNoEquals string | LpTagEmptyKey string | LpUnterminatedField
  | LpFieldNoEquals string | LpFieldEmptyKey string | LpEmptyValue string | LpValueUnterminated string
  | LpInteger string | LpUnsigned string | LpValue string

subsection \<open>Scanning\<close>

text \<open>
  The loops of the parser all step over a backslash together with the next byte; those over fields and
  whole lines (\<open>useq\<close>) also toggle \<open>inQuote\<close> at a quote. \<open>first_sep\<close> is the position at which such a loop
  meets the separator outside quotes, with the final value of \<open>inQuote\<close>.
\<close>

fun first_sep :: "bool \<Rightarrow> char \<Rightarrow> bool \<Rightarrow> string \<Rightarrow> nat option \<times> bool" where
  "first_sep useq sep inQuote [] = (None, inQuote)"
| "first_sep useq sep inQuote (c # s) =
     (if c = BSL then
        (case s of [] \<Rightarrow> (None, inQuote) | d # s' \<Rightarrow> apfst (map_option ((+) 2)) (first_sep useq sep inQuote s'))
      else if useq \<and> c = QUOTE then apfst (map_option Suc) (first_sep useq sep (\<not> inQuote) s)
      else if c = sep \<and> \<not> inQuote then (Some 0, inQuote)
      else apfst (map_option Suc) (first_sep useq sep inQuote s))"

definition push :: "string \<Rightarrow> string list \<Rightarrow> string list" where
  "push x parts = (case parts of [] \<Rightarrow> [x] | p # ps \<Rightarrow> (x @ p) # ps)"

text \<open>\<open>split_all\<close> collects the pieces between all separators, as \<open>splitUnescaped\<close> and \<open>splitFieldSet\<close> do.\<close>

fun split_all :: "bool \<Rightarrow> char \<Rightarrow> bool \<Rightarrow> string \<Rightarrow> string list \<times> bool" where
  "split_all useq sep inQuote [] = ([[]], inQuote)"
| "split_all useq sep inQuote (c # s) =
     (if c = BSL then
        (case s of [] \<Rightarrow> ([[c]], inQuote) | d # s' \<Rightarrow> apfst (push [c, d]) (split_all useq sep inQuote s'))
      else if useq \<and> c = QUOTE then apfst (push [c]) (split_all useq sep (\<not> inQuote) s)
      else if c = sep \<and> \<not> inQuote then apfst ((#) []) (split_all useq sep inQuote s)
      else apfst (push [c]) (split_all useq sep inQuote s))"

definition splitAtUnescapedSpace :: "string \<Rightarrow> lp_error + (string \<times> string)" where
  "splitAtUnescapedSpace s =
     (case first_sep True SPACE False s of
        (Some i, _) \<Rightarrow> Inr (take i s, drop (i + 1) s)
      | (None, inQuote) \<Rightarrow> if inQuote then Inl LpUnterminated else Inr (s, []))"

definition splitUnescaped :: "string \<Rightarrow> char \<Rightarrow> string list" where
  "splitUnescaped s sep = fst (split_all False sep False s)"

definition splitFieldSet :: "string \<Rightarrow> lp_error + (string list)" where
  "splitFieldSet s =
     (let (parts, inQuote) = split_all True (CHR '','') False s
      in if inQuote then Inl LpUnterminatedField else Inr parts)"

fun unescape_bytes :: "char list \<Rightarrow> string \<Rightarrow> string" where
  "unescape_bytes esc [] = []"
| "unescape_bytes esc (c # s) =
     (if c = BSL
      then (case s of
              n # s' \<Rightarrow> if n \<in> set esc then n # unescape_bytes esc s' else c # unescape_bytes esc s
            | [] \<Rightarrow> [c])
      else c # unescape_bytes esc s)"

definition unescapeLP :: "string \<Rightarrow> string" where
  "unescapeLP s = (if BSL \<notin> set s then s else unescape_bytes [CHR '','', SPACE, CHR ''='', BSL] s)"

definition unescapeQuoted :: "string \<Rightarrow> string" where
  "unescapeQuoted s = (if BSL \<notin> set s then s else unescape_bytes [QUOTE, BSL] s)"

definition splitTagKV :: "string \<Rightarrow> (string \<times> string) option" where
  "splitTagKV s =
     (case first_sep False (CHR ''='') False s of
        (Some i, _) \<Rightarrow> Some (unescapeLP (take i s), unescapeLP (drop (i + 1) s))
      | (None, _) \<Rightarrow> None)"

definition splitFieldKV :: "string \<Rightarrow> (string \<times> string) option" where
  "splitFieldKV s =
     (case first_sep True (CHR ''='') False s of
        (Some i, _) \<Rightarrow> Some (unescapeLP (take i s), drop (i + 1) s)
      | (None, _) \<Rightarrow> None)"

subsection \<open>Parsing a line\<close>

fun parse_tags :: "(string \<rightharpoonup> string) \<Rightarrow> string list \<Rightarrow> lp_error + (string \<rightharpoonup> string)" where
  "parse_tags tags [] = Inr tags"
| "parse_tags tags (raw # raws) =
     (if raw = [] then parse_tags tags raws
      else case splitTagKV raw of
        None \<Rightarrow> Inl (LpTagNoEquals raw)
      | Some (k, v) \<Rightarrow> if k = [] then Inl (LpTagEmptyKey raw) else parse_tags (tags(k \<mapsto> v)) raws)"

definition parseMeasurementAndTags :: "string \<Rightarrow> lp_error + (string \<times> (string \<rightharpoonup> string))" where
  "parseMeasurementAndTags s =
     (let parts = splitUnescaped s (CHR '','')
      in if length parts = 0 \<or> hd parts = [] then Inl LpEmptyMeasurement
         else sum_bind (parse_tags Map.empty (tl parts)) (\<lambda>tags. Inr (unescapeLP (hd parts), tags)))"

definition parseFieldValue :: "(string \<Rightarrow> 'f option) \<Rightarrow> string \<Rightarrow> string \<Rightarrow> lp_error + ('f field_value)" where
  "parseFieldValue pf k s =
     (if s = [] then Inl (LpEmptyValue k)
      else if hd s = QUOTE then
        (if length s < 2 \<or> last s \<noteq> QUOTE then Inl (LpValueUnterminated k)
         else Inr (FString (unescapeQuoted (butlast (tl s)))))
      else if last s = CHR ''i'' \<or> last s = CHR ''I'' then
        (case ParseInt64 (butlast s) of None \<Rightarrow> Inl (LpInteger k) | Some n \<Rightarrow> Inr (FInt n))
      else if last s = CHR ''u'' \<or> last s = CHR ''U'' then
        (case ParseUint64 (butlast s) of
           None \<Rightarrow> Inl (LpUnsigned k)
         | Some n \<Rightarrow> if 2 ^ 63 - 1 < n then Inr (FInt (2 ^ 63 - 1)) else Inr (FInt (int n)))
      else if s \<in> {''t'', ''T'', ''true'', ''True'', ''TRUE''} then Inr (FBool True)
      else if s \<in> {''f'', ''F'', ''false'', ''False'', ''FALSE''} then Inr (FBool False)
      else case pf s of None \<Rightarrow> Inl (LpValue s) | Some f \<Rightarrow> Inr (FFloat f))"

text \<open>The fields in the order of the line; later entries overwrite earlier ones of the same key.\<close>

fun parse_fields :: "(string \<Rightarrow> 'f option) \<Rightarrow> string list \<Rightarrow> lp_error + ((string \<times> 'f field_value) list)" where
  "parse_fields pf [] = Inr []"
| "parse_fields pf (raw # raws) =
     (if raw = [] then parse_fields pf raws
      else case splitFieldKV raw of
        None \<Rightarrow> Inl (LpFieldNoEquals raw)
      | Some (k, v) \<Rightarrow>
          if k = [] then Inl (LpFieldEmptyKey raw)
          else sum_bind (parseFieldValue pf k v) (\<lambda>val.
                 sum_bind (parse_fields pf raws) (\<lambda>fs. Inr ((k, val) # fs))))"

definition parseFieldSet :: "(string \<Rightarrow> 'f option) \<Rightarrow> string \<Rightarrow> lp_error + ((string \<times> 'f field_value) list)" where
  "parseFieldSet pf s = sum_bind (splitFieldSet s) (parse_fields pf)"

definition parseSingleLine :: "(string \<Rightarrow> 'f option) \<Rightarrow> string \<Rightarrow> lp_error + ('f point)" where
  "parseSingleLine pf line =
     sum_bind (splitAtUnescapedSpace line) (\<lambda>(keyPart, rest).
       if keyPart = [] then Inl LpEmptyMeasurement
       else sum_bind (parseMeasurementAndTags keyPart) (\<lambda>(measurement, tags).
         sum_bind (splitAtUnescapedSpace rest) (\<lambda>(fieldPart, tsPart).
           if fieldPart = [] then Inl LpEmptyFieldSet
           else sum_bind (parseFieldSet pf fieldPart) (\<lambda>fields.
             if length fields = 0 then Inl LpNoFields
             else let ts = TrimSpace tsPart;
                      pt = \<lparr>pt_Measurement = measurement, pt_Tags = tags, pt_Fields = map_of (rev fields), pt_TimestampNs = 0\<rparr>
                  in if ts = [] then Inr pt
                     else case ParseInt64 ts of
                       None \<Rightarrow> Inl (LpTimestamp ts)
                     | Some n \<Rightarrow> Inr (pt\<lparr>pt_TimestampNs := n\<rparr>)))))"




subsection \<open>Writing a line\<close>

definition escapeTag :: "string \<Rightarrow> string" where
  "escapeTag s = ReplaceAll (ReplaceAll (ReplaceAll s (CHR '','') [BSL, CHR '','']) (CHR ''='') [BSL, CHR ''='']) SPACE [BSL, SPACE]"

definition escapeField :: "string \<Rightarrow> string" where
  "escapeField s = ReplaceAll (ReplaceAll s BSL [BSL, BSL]) QUOTE [BSL, QUOTE]"

definition lp_tag :: "string \<Rightarrow> string \<Rightarrow> string" where
  "lp_tag key val = '','' @ key @ ''='' @ val"

definition lp_opt_tag :: "string \<Rightarrow> string \<Rightarrow> string" where
  "lp_opt_tag key val = (if val \<noteq> [] then lp_tag key (escapeTag val) else [])"

definition lp_string :: "string \<Rightarrow> string \<Rightarrow> string" where
  "lp_string key val = key @ ''='' @ [QUOTE] @ escapeField val @ [QUOTE]"

definition lp_opt_string :: "string \<Rightarrow> string \<Rightarrow> string" where
  "lp_opt_string key val = (if val \<noteq> [] then '','' @ lp_string key val else [])"

definition lp_int :: "string \<Rightarrow> nat \<Rightarrow> string" where
  "lp_int key n = key @ ''='' @ Itoa n @ ''i''"

definition hepToLineProto :: "hep \<Rightarrow> string" where
  "hepToLineProto h =
     ''hep''
     @ lp_tag ''proto_type'' (Itoa (unat (h_ProtoType h)))
     @ lp_tag ''node_id'' (Itoa (unat (h_NodeID h)))
     @ lp_opt_tag ''node_name'' (h_NodeName h)
     @ lp_opt_tag ''proto_name'' (h_ProtoString h)
     @ (case h_SIP h of
          None \<Rightarrow> []
        | Some m \<Rightarrow> lp_opt_tag ''method'' (CseqMethod m) @ lp_opt_tag ''response'' (FirstResp m))
     @ [SPACE]
     @ lp_string ''src_ip'' (h_SrcIP h)
     @ '','' @ lp_int ''src_port'' (unat (h_SrcPort h))
     @ '','' @ lp_string ''dst_ip'' (h_DstIP h)
     @ '','' @ lp_int ''dst_port'' (unat (h_DstPort h))
     @ '','' @ lp_int ''payload_len'' (length (h_Payload h))
     @ lp_opt_string ''cid'' (h_CID h)
     @ (case h_SIP h of
          None \<Rightarrow> []
        | Some m \<Rightarrow>
            lp_opt_string ''call_id'' (CallID m) @ lp_opt_string ''from_user'' (FromUser m) @ lp_opt_string ''to_user'' (ToUser m))
     @ [SPACE]
     @ FormatInt (int64 (h_Timestamp h))"


subsection \<open>Text without separators\<close>

text \<open>\<open>run_sep\<close>: the quote state after a text in which the scan meets no separator, \<open>None\<close> if it meets one.\<close>

fun run_sep :: "bool \<Rightarrow> char \<Rightarrow> bool \<Rightarrow> string \<Rightarrow> bool option" where
  "run_sep useq sep inQuote [] = Some inQuote"
| "run_sep useq sep inQuote (c # s) =
     (if c = BSL then (case s of [] \<Rightarrow> None | d # s' \<Rightarrow> run_sep useq sep inQuote s')
      else if useq \<and> c = QUOTE then run_sep useq sep (\<not> inQuote) s
      else if c = sep \<and> \<not> inQuote then None
      else run_sep useq sep inQuote s)"

text \<open>Scans step over single bytes and over a backslash with its byte.\<close>

lemma scan_induct [case_names Nil Bsl Esc Byte]:
  assumes "P []" and "P [BSL]" and "\<And>d s. P s \<Longrightarrow> P (BSL # d # s)" and "\<And>c s. c \<noteq> BSL \<Longrightarrow> P s \<Longrightarrow> P (c # s)"
  shows "P x"
proof (induction x rule: length_induct)
  case (1 x)
  show ?case
  proof (cases x)
    case (Cons c y)
    show ?thesis
    proof (cases "c = BSL")
      case True
      then show ?thesis using 1 Cons assms(2,3) by (cases y) auto
    next
      case False
      then show ?thesis using 1 Cons assms(4) by simp
    qed
  qed (use assms(1) in simp)
qed

lemma run_sep_step:
  "run_sep u sep q [BSL] = None" "run_sep u sep q (BSL # d # s) = run_sep u sep q s"
  "c \<noteq> BSL \<Longrightarrow> run_sep u sep q (c # s) =
     (if u \<and> c = QUOTE then run_sep u sep (\<not> q) s else if c = sep \<and> \<not> q then None else run_sep u sep q s)"
  by simp_all

lemma first_sep_step:
  "first_sep u sep q (BSL # d # s) = apfst (map_option ((+) 2)) (first_sep u sep q s)"
  "c \<noteq> BSL \<Longrightarrow> first_sep u sep q (c # s) =
     (if u \<and> c = QUOTE then apfst (map_option Suc) (first_sep u sep (\<not> q) s)
      else if c = sep \<and> \<not> q then (Some 0, q) else apfst (map_option Suc) (first_sep u sep q s))"
  by simp_all

lemma split_all_step:
  "split_all u sep q (BSL # d # s) = apfst (push [BSL, d]) (split_all u sep q s)"
  "c \<noteq> BSL \<Longrightarrow> split_all u sep q (c # s) =
     (if u \<and> c = QUOTE then apfst (push [c]) (split_all u sep (\<not> q) s)
      else if c = sep \<and> \<not> q then apfst ((#) []) (split_all u sep q s) else apfst (push [c]) (split_all u sep q s))"
  by simp_all

declare run_sep.simps(2) [simp del] first_sep.simps(2) [simp del] split_all.simps(2) [simp del]

lemma run_sep_append: "run_sep u sep q x = Some q' \<Longrightarrow> run_sep u sep q (x @ y) = run_sep u sep q' y"
  by (induction x arbitrary: q rule: scan_induct) (auto simp: run_sep_step split: if_splits)

lemma run_first:
  "run_sep u sep q x = Some q' \<Longrightarrow> first_sep u sep q (x @ s) = apfst (map_option ((+) (length x))) (first_sep u sep q' s)"
proof -
  have shift: "apfst (map_option Suc) (apfst (map_option ((+) k)) r) = apfst (map_option ((+) (Suc k))) r"
    "apfst (map_option ((+) 2)) (apfst (map_option ((+) k)) r) = apfst (map_option ((+) (Suc (Suc k)))) r"
    "apfst (map_option ((+) 0)) r = r" for k and r :: "nat option \<times> bool"
    by (cases r, cases "fst r"; simp)+
  show "run_sep u sep q x = Some q' \<Longrightarrow> first_sep u sep q (x @ s) = apfst (map_option ((+) (length x))) (first_sep u sep q' s)"
    by (induction x arbitrary: q rule: scan_induct) (auto simp: run_sep_step first_sep_step shift split: if_splits)
qed

lemma push_push [simp]: "push x (push y p) = push (x @ y) p"
  by (simp add: push_def split: list.split)

lemma split_all_not_Nil: "fst (split_all u sep q s) \<noteq> []"
  by (induction s arbitrary: q rule: scan_induct) (simp_all add: split_all_step split_all.simps push_def split: list.split)

lemma push_Nil: "p \<noteq> [] \<Longrightarrow> push [] p = p"
  by (cases p) (simp_all add: push_def)

lemma run_split:
  "run_sep u sep q x = Some q' \<Longrightarrow> split_all u sep q (x @ s) = apfst (push x) (split_all u sep q' s)"
proof (induction x arbitrary: q rule: scan_induct)
  case Nil
  then show ?case using split_all_not_Nil [of u sep q s] by (cases "split_all u sep q s") (simp add: push_Nil)
next
  case (Esc d x)
  then show ?case by (cases "split_all u sep q' s") (simp add: run_sep_step split_all_step)
next
  case (Byte c x)
  then show ?case by (cases "split_all u sep q' s") (auto simp: run_sep_step split_all_step split: if_splits)
qed (simp add: run_sep_step)

lemma split_all_piece:
  assumes "run_sep u sep False x = Some False" and "sep \<noteq> BSL" and "sep \<noteq> QUOTE"
  shows "split_all u sep False x = ([x], False)"
    and "split_all u sep False (x @ sep # s) = apfst ((#) x) (split_all u sep False s)"
proof -
  show "split_all u sep False x = ([x], False)"
    using run_split [OF assms(1), of "[]"] by (simp add: push_def)
  show "split_all u sep False (x @ sep # s) = apfst ((#) x) (split_all u sep False s)"
    using run_split [OF assms(1), of "sep # s"] assms(2,3)
    by (cases "split_all u sep False s") (simp add: push_def split_all_step)
qed

lemma split_all_Join:
  "xs \<noteq> [] \<Longrightarrow> \<forall>x\<in>set xs. run_sep u sep False x = Some False \<Longrightarrow> sep \<noteq> BSL \<Longrightarrow> sep \<noteq> QUOTE \<Longrightarrow>
   split_all u sep False (Join xs [sep]) = (xs, False)"
  by (induction xs rule: list_nonempty_induct) (simp_all add: split_all_piece Join_Cons)

lemma first_sep_found:
  "run_sep u sep False x = Some False \<Longrightarrow> sep \<noteq> BSL \<Longrightarrow> sep \<noteq> QUOTE \<Longrightarrow> first_sep u sep False (x @ sep # s) = (Some (length x), False)"
  by (simp add: run_first first_sep_step)

subsection \<open>Escaping\<close>

definition esc_tag :: "char \<Rightarrow> string" where
  "esc_tag c = (if c \<in> {CHR '','', CHR ''='', SPACE} then [BSL, c] else [c])"

lemma escapeTag_map: "escapeTag v = concat (map esc_tag v)"
  by (induction v) (auto simp: escapeTag_def ReplaceAll_def esc_tag_def)

lemma escapeField_map: "escapeField v = concat (map (\<lambda>c. if c \<in> {BSL, QUOTE} then [BSL, c] else [c]) v)"
  by (induction v) (auto simp: escapeField_def ReplaceAll_def)

lemma run_plain: "\<forall>c\<in>set x. c \<noteq> BSL \<and> c \<noteq> sep \<and> c \<noteq> QUOTE \<Longrightarrow> run_sep u sep q x = Some q"
  by (induction x) (auto simp: run_sep_step)


lemma run_escapeField: "run_sep True sep True (escapeField v) = Some True"
  by (induction v) (auto simp: escapeField_map run_sep_step)

lemma unescape_plain: "BSL \<notin> set s \<Longrightarrow> unescape_bytes esc s = s"
  by (induction s) auto


lemma unescapeQuoted_escapeField: "unescapeQuoted (escapeField v) = v"
proof -
  have "unescape_bytes [QUOTE, BSL] (escapeField v) = v"
    by (induction v) (auto simp: escapeField_map)
  then show ?thesis using unescape_plain by (auto simp: unescapeQuoted_def)
qed

subsection \<open>Keys and values on the wire\<close>

definition key_ok :: "string \<Rightarrow> bool" where
  "key_ok k \<longleftrightarrow> k \<noteq> [] \<and> list_all (\<lambda>c. c \<notin> {BSL, QUOTE, SPACE, CHR '','', CHR ''='', NL}) k"

lemma key_transparent: "key_ok k \<Longrightarrow> sep \<in> {SPACE, CHR '','', CHR ''=''} \<Longrightarrow> run_sep u sep q k = Some q"
  by (rule run_plain) (auto simp: key_ok_def list_all_iff)

lemma key_unescape: "key_ok k \<Longrightarrow> unescapeLP k = k"
  by (auto simp: key_ok_def list_all_iff unescapeLP_def)

definition kv :: "('v \<Rightarrow> string) \<Rightarrow> string \<times> 'v \<Rightarrow> string" where
  "kv put p = fst p @ ''='' @ put (snd p)"

definition pairs_ok :: "('v \<Rightarrow> bool) \<Rightarrow> (string \<times> 'v) list \<Rightarrow> bool" where
  "pairs_ok ok ps \<longleftrightarrow> list_all (\<lambda>p. key_ok (fst p) \<and> ok (snd p)) ps"

text \<open>
  What the parser relies on in a value that the writer puts behind \<open>key=\<close>: the scans of the parser
  (with quotes, or without where \<open>us\<close> allows it) pass over it, and reading it returns what was written.
\<close>

locale wire_value =
  fixes put :: "'v \<Rightarrow> string" and get :: "string \<Rightarrow> 'w option" and dec :: "'v \<Rightarrow> 'w"
    and ok :: "'v \<Rightarrow> bool" and us :: "bool set"
  assumes get_put: "ok v \<Longrightarrow> get (put v) = Some (dec v)"
    and transparent: "ok v \<Longrightarrow> u \<in> us \<Longrightarrow> sep \<in> {SPACE, CHR '',''} \<Longrightarrow> run_sep u sep False (put v) = Some False"
begin

lemma kv_transparent:
  assumes "key_ok (fst p)" and "ok (snd p)" and "u \<in> us" and "sep \<in> {SPACE, CHR '',''}"
  shows "run_sep u sep False (kv put p) = Some False"
proof -
  have "run_sep u sep False (fst p @ ''='' @ put (snd p)) = run_sep u sep False (''='' @ put (snd p))"
    using assms by (intro run_sep_append key_transparent) auto
  also have "\<dots> = run_sep u sep False (put (snd p))"
    using assms(4) by (auto simp: run_sep_step)
  finally show ?thesis using transparent [OF assms(2-4)] by (simp add: kv_def)
qed

lemma kv_split: "key_ok (fst p) \<Longrightarrow> first_sep u (CHR ''='') False (kv put p) = (Some (length (fst p)), False)"
  using first_sep_found [of u "CHR ''=''" "fst p" "put (snd p)"] key_transparent [of "fst p" "CHR ''=''" u False]
  by (simp add: kv_def)

lemma kv_join_transparent:
  assumes "pairs_ok ok ps" and "u \<in> us"
  shows "run_sep u SPACE False (Join (map (kv put) ps) '','') = Some False"
  using assms(1)
proof (induction ps)
  case (Cons p ps)
  then have p: "run_sep u SPACE False (kv put p) = Some False"
    using assms(2) by (intro kv_transparent) (simp_all add: pairs_ok_def)
  have rest: "run_sep u SPACE False (Join (map (kv put) ps) '','') = Some False" using Cons by (simp add: pairs_ok_def)
  show ?case
    using p rest by (cases "ps = []") (simp_all add: Join_Cons run_sep_append [OF p] run_sep_step)
qed simp

lemma kv_join_split:
  assumes "pairs_ok ok ps" and "u \<in> us" and "ps \<noteq> []"
  shows "split_all u (CHR '','') False (Join (map (kv put) ps) '','') = (map (kv put) ps, False)"
  using assms by (intro split_all_Join) (auto simp: pairs_ok_def list_all_iff intro: kv_transparent)

end

subsection \<open>Tags\<close>





subsection \<open>Fields\<close>

datatype lp_val = LStr string | LNum nat

fun put_val :: "lp_val \<Rightarrow> string" where
  "put_val (LStr v) = [QUOTE] @ escapeField v @ [QUOTE]"
| "put_val (LNum n) = Itoa n @ ''i''"

fun val_of :: "lp_val \<Rightarrow> 'f field_value" where
  "val_of (LStr v) = FString v"
| "val_of (LNum n) = FInt (int n)"

fun val_ok :: "lp_val \<Rightarrow> bool" where
  "val_ok (LStr v) = (NL \<notin> set v)"
| "val_ok (LNum n) = (n < 2 ^ 63)"

lemma Itoa_not: "byte_val c < 48 \<or> 57 < byte_val c \<Longrightarrow> c \<notin> set (Itoa n)"
  using Itoa_digits by force

lemma ParseInt64_Itoa: "n < 2 ^ 63 \<Longrightarrow> ParseInt64 (Itoa n) = Some (int n)"
proof -
  assume n: "n < 2 ^ 63"
  have "hd (Itoa n) \<in> set (Itoa n)" by simp
  then have "hd (Itoa n) \<noteq> CHR ''-''" "hd (Itoa n) \<noteq> CHR ''+''"
    using Itoa_not [of "CHR ''-''" n] Itoa_not [of "CHR ''+''" n] by force+
  then show ?thesis using n by (simp add: ParseInt64_def Atoi_Itoa Let_def)
qed

definition get_val :: "(string \<Rightarrow> 'f option) \<Rightarrow> string \<Rightarrow> string \<Rightarrow> 'f field_value option" where
  "get_val pf k s = (case parseFieldValue pf k s of Inl _ \<Rightarrow> None | Inr v \<Rightarrow> Some v)"

lemma parseFieldValue_put: "val_ok v \<Longrightarrow> parseFieldValue pf k (put_val v) = Inr (val_of v)"
proof (cases v)
  case (LStr x)
  then show ?thesis by (simp add: parseFieldValue_def unescapeQuoted_escapeField butlast_append)
next
  case (LNum n)
  assume "val_ok v"
  then have n: "n < 2 ^ 63" using LNum by simp
  have "hd (Itoa n) \<in> set (Itoa n)" by simp
  then have "hd (Itoa n) \<noteq> QUOTE" using Itoa_not [of QUOTE n] by force
  then show ?thesis using LNum ParseInt64_Itoa [OF n] by (simp add: parseFieldValue_def butlast_append hd_append)
qed

lemma put_val_transparent: "sep \<in> {SPACE, CHR '',''} \<Longrightarrow> run_sep True sep False (put_val v) = Some False"
proof (cases v)
  case (LStr x)
  assume sep: "sep \<in> {SPACE, CHR '',''}"
  have "run_sep True sep True (escapeField x @ [QUOTE]) = Some False"
    using run_sep_append [OF run_escapeField [of sep x], of "[QUOTE]"] by (simp add: run_sep_step)
  then show ?thesis using LStr by (simp add: run_sep_step)
next
  case (LNum n)
  assume sep: "sep \<in> {SPACE, CHR '',''}"
  have "c \<noteq> BSL \<and> c \<noteq> sep \<and> c \<noteq> QUOTE" if "c \<in> set (Itoa n @ ''i'')" for c
    using that sep Itoa_digits [of c n] by auto
  then show ?thesis using LNum by (simp only: put_val.simps) (intro run_plain, blast)
qed

interpretation field_wire: wire_value put_val "get_val pf k" val_of val_ok "{True}" for pf k
  by unfold_locales (auto simp: get_val_def parseFieldValue_put intro!: put_val_transparent simp del: put_val.simps)

lemma splitFieldKV_kv: "key_ok k \<Longrightarrow> splitFieldKV (kv put_val (k, v)) = Some (k, put_val v)"
  using field_wire.kv_split [of "(k, v)" True]
  by (simp add: splitFieldKV_def) (simp add: kv_def key_unescape)

lemma parse_fields_kv:
  "pairs_ok val_ok ps \<Longrightarrow> parse_fields pf (map (kv put_val) ps) = Inr (map (\<lambda>p. (fst p, val_of (snd p))) ps)"
proof (induction ps)
  case (Cons p ps)
  obtain k v where p: "p = (k, v)" by fastforce
  have "key_ok k" "val_ok v" "pairs_ok val_ok ps" using Cons.prems by (simp_all add: p pairs_ok_def)
  moreover have "kv put_val (k, v) \<noteq> []" "k \<noteq> []" using \<open>key_ok k\<close> by (simp_all add: kv_def key_ok_def)
  ultimately show ?case
    using Cons.IH by (simp add: p splitFieldKV_kv parseFieldValue_put)
qed simp

subsection \<open>Lines\<close>

lemma FormatInt_facts:
  "FormatInt n \<noteq> []" "printable (hd (FormatInt n))" "printable (last (FormatInt n))" "NL \<notin> set (FormatInt n)"
  using printable_Itoa Itoa_not [of NL] by (simp_all add: FormatInt_def printable_def)

lemma ParseInt64_FormatInt: "- (2 ^ 63) \<le> n \<Longrightarrow> n < 2 ^ 63 \<Longrightarrow> ParseInt64 (FormatInt n) = Some n"
proof (cases "n < 0")
  case True
  assume "- (2 ^ 63) \<le> n"
  with True show ?thesis by (simp add: FormatInt_def ParseInt64_def Atoi_Itoa Let_def)
next
  case False
  assume "n < 2 ^ 63"
  with False have "nat n < 2 ^ 63" by (simp add: nat_less_iff)
  with False show ?thesis by (simp add: FormatInt_def ParseInt64_Itoa)
qed

definition line_text :: "(string \<times> string) list \<Rightarrow> (string \<times> lp_val) list \<Rightarrow> int \<Rightarrow> string" where
  "line_text tags flds ts =
     Join (''hep'' # map (kv escapeTag) tags) '','' @ [SPACE] @ Join (map (kv put_val) flds) '','' @ [SPACE] @ FormatInt ts"

lemma Join_concat: "Join (x # xs) sep = x @ concat (map (\<lambda>y. sep @ y) xs)"
  by (induction xs arbitrary: x) simp_all



lemma splitAt_found: "run_sep True SPACE False x = Some False \<Longrightarrow> splitAtUnescapedSpace (x @ SPACE # r) = Inr (x, r)"
  by (simp add: splitAtUnescapedSpace_def first_sep_found)

lemma parse_line_key:
  assumes "run_sep True SPACE False key = Some False" and "key \<noteq> []" and "parseMeasurementAndTags key = Inr (m, tags)"
    and "pairs_ok val_ok flds" and "flds \<noteq> []" and "- (2 ^ 63) \<le> ts" and "ts < 2 ^ 63"
  shows "parseSingleLine pf (key @ [SPACE] @ Join (map (kv put_val) flds) '','' @ [SPACE] @ FormatInt ts) =
           Inr \<lparr>pt_Measurement = m, pt_Tags = tags,
                pt_Fields = map_of (rev (map (\<lambda>p. (fst p, val_of (snd p))) flds)), pt_TimestampNs = ts\<rparr>"
proof -
  let ?fs = "Join (map (kv put_val) flds) '',''"
  have 1: "splitAtUnescapedSpace (key @ SPACE # ?fs @ SPACE # FormatInt ts) = Inr (key, ?fs @ SPACE # FormatInt ts)"
    by (rule splitAt_found [OF assms(1)])
  have 2: "splitAtUnescapedSpace (?fs @ SPACE # FormatInt ts) = Inr (?fs, FormatInt ts)"
    using splitAt_found field_wire.kv_join_transparent [OF assms(4)] by simp
  have "split_all True (CHR '','') False ?fs = (map (kv put_val) flds, False)"
    using field_wire.kv_join_split [OF assms(4) _ assms(5)] by simp
  then have 3: "parseFieldSet pf ?fs = Inr (map (\<lambda>p. (fst p, val_of (snd p))) flds)"
    using parse_fields_kv [OF assms(4)] by (simp add: parseFieldSet_def splitFieldSet_def)
  have "?fs \<noteq> []"
    using assms(4,5) by (cases flds) (auto simp: Join_concat kv_def pairs_ok_def key_ok_def)
  moreover have "TrimSpace (FormatInt ts) = FormatInt ts" by (intro TrimSpace_printable FormatInt_facts)
  ultimately show ?thesis
    using assms(2,3,5-7) FormatInt_facts(1)
    by (simp add: parseSingleLine_def 1 2 3 ParseInt64_FormatInt Let_def)
qed


subsection \<open>HEP messages\<close>

definition opt_pair :: "string \<Rightarrow> (string \<Rightarrow> 'v) \<Rightarrow> string \<Rightarrow> (string \<times> 'v) list" where
  "opt_pair k f v = (if v \<noteq> [] then [(k, f v)] else [])"

definition hep_tags :: "hep \<Rightarrow> (string \<times> string) list" where
  "hep_tags h =
     [(''proto_type'', Itoa (unat (h_ProtoType h))), (''node_id'', Itoa (unat (h_NodeID h)))]
     @ opt_pair ''node_name'' (\<lambda>v. v) (h_NodeName h) @ opt_pair ''proto_name'' (\<lambda>v. v) (h_ProtoString h)
     @ (case h_SIP h of None \<Rightarrow> []
        | Some m \<Rightarrow> opt_pair ''method'' (\<lambda>v. v) (CseqMethod m) @ opt_pair ''response'' (\<lambda>v. v) (FirstResp m))"

definition hep_fields :: "hep \<Rightarrow> (string \<times> lp_val) list" where
  "hep_fields h =
     [(''src_ip'', LStr (h_SrcIP h)), (''src_port'', LNum (unat (h_SrcPort h))), (''dst_ip'', LStr (h_DstIP h)),
      (''dst_port'', LNum (unat (h_DstPort h))), (''payload_len'', LNum (length (h_Payload h)))]
     @ opt_pair ''cid'' LStr (h_CID h)
     @ (case h_SIP h of None \<Rightarrow> []
        | Some m \<Rightarrow> opt_pair ''call_id'' LStr (CallID m) @ opt_pair ''from_user'' LStr (FromUser m) @ opt_pair ''to_user'' LStr (ToUser m))"



lemma escapeTag_Itoa: "escapeTag (Itoa n) = Itoa n"
proof -
  have "\<forall>c\<in>set (Itoa n). esc_tag c = [c]"
    using Itoa_digits [of _ n] by (force simp: esc_tag_def)
  moreover have "\<forall>c\<in>set x. esc_tag c = [c] \<Longrightarrow> concat (map esc_tag x) = x" for x by (induction x) simp_all
  ultimately show ?thesis by (simp add: escapeTag_map)
qed

lemma hepToLineProto_text: "hepToLineProto h = line_text (hep_tags h) (hep_fields h) (int64 (h_Timestamp h))"
  by (simp add: hepToLineProto_def line_text_def hep_tags_def hep_fields_def opt_pair_def Join_concat kv_def lp_tag_def lp_opt_tag_def
      lp_string_def lp_opt_string_def lp_int_def escapeTag_Itoa split: option.split)










subsection \<open>Batches\<close>







text \<open>
  A node name that ends in a backslash swallows the next tag: \<open>escapeTag\<close> leaves backslashes alone,
  the parser takes the one at the end as the escape of the comma behind it, and the node name read back
  contains the protocol tag, which is then missing.
\<close>

theorem tag_backslash_lost:
  "\<exists>pt. parseSingleLine pf (hepToLineProto ((acquireHEP None)\<lparr>h_NodeName := ''n'' @ [BSL], h_ProtoString := ''sip''\<rparr>)) = Inr pt
     \<and> pt_Tags pt ''node_name'' = Some ''n,proto_name=sip'' \<and> pt_Tags pt ''proto_name'' = None"
proof -
  let ?h = "(acquireHEP None)\<lparr>h_NodeName := ''n'' @ [BSL], h_ProtoString := ''sip''\<rparr>"
  let ?key = "''hep,proto_type=0,node_id=0,node_name=n'' @ [BSL] @ '',proto_name=sip''"
  let ?ts = "int64 (h_Timestamp ?h)"
  have zero: "Itoa 0 = ''0''" by (simp add: Itoa.simps digit_char_def char_of_def bit_0)
  have tags: "Join (''hep'' # map (kv escapeTag) (hep_tags ?h)) '','' = ?key"
    by (simp add: hep_tags_def acquireHEP_def opt_pair_def kv_def zero escapeTag_map esc_tag_def)
  have line: "hepToLineProto ?h = ?key @ [SPACE] @ Join (map (kv put_val) (hep_fields ?h)) '','' @ [SPACE] @ FormatInt ?ts"
    by (simp only: hepToLineProto_text line_text_def tags)
  have flds: "pairs_ok val_ok (hep_fields ?h)" "hep_fields ?h \<noteq> []"
    by (simp_all add: hep_fields_def acquireHEP_def opt_pair_def pairs_ok_def key_ok_def)
  have "parseMeasurementAndTags ?key =
      Inr (''hep'', [''proto_type'' \<mapsto> ''0'', ''node_id'' \<mapsto> ''0'', ''node_name'' \<mapsto> ''n,proto_name=sip''])"
    by (simp add: parseMeasurementAndTags_def splitUnescaped_def split_all_step push_def splitTagKV_def first_sep_step unescapeLP_def)
  moreover have "run_sep True SPACE False ?key = Some False" by (simp add: run_sep_step)
  ultimately show ?thesis
    unfolding line using parse_line_key [of ?key _ _ "hep_fields ?h" ?ts pf] flds int64_range [of "h_Timestamp ?h"] by auto
qed

end
