(* ===== verification/Lake_Db.thy ===== *)
theory Lake_Db
  imports Homer_Prelude "HOL-Library.Multiset"
begin

text \<open>
  What the storage code of \<^verbatim>\<open>src/storage/ducklake\<close> asks of DuckDB and DuckLake, and the helpers that its
  compactor, mover and tiering share: error values, retry loops, SQL quoting, file paths and the shape of
  a catalog transaction.

  The database and the file system are not part of the repository. Each statement of the source is one
  operation of the record \<open>lake_sql\<close> (its arguments are the texts that the source interpolates), acting on a
  world of an arbitrary type. What the code relies on is stated over a \<open>lake_view\<close>, the rows, the
  registered files and the file contents that can be observed of a world.
\<close>

named_theorems lake_simps \<open>unfolding rules of the storage operations\<close>

subsection \<open>Error values\<close>

datatype sentinel = errPartitionChanged | errTableNotRegisterable | errUnsupportedSchema | ErrFallback

text \<open>An error is its message and the sentinels that \<open>errors.Is\<close> and \<open>errors.As\<close> find in its chain.\<close>

record go_error =
  err_msg :: string
  err_is :: "sentinel list"

type_synonym 'w op = "'w \<Rightarrow> go_error option \<times> 'w"

definition errorf :: "string \<Rightarrow> go_error" where
  "errorf m = \<lparr>err_msg = m, err_is = []\<rparr>"

definition wrapf :: "string \<Rightarrow> go_error \<Rightarrow> go_error" where
  "wrapf p e = \<lparr>err_msg = p @ err_msg e, err_is = err_is e\<rparr>"

definition sentinelf :: "sentinel \<Rightarrow> string \<Rightarrow> go_error" where
  "sentinelf s m =
     \<lparr>err_msg =
        (case s of
           errPartitionChanged \<Rightarrow> ''partition changed since planning''
         | errTableNotRegisterable \<Rightarrow> ''table columns cannot be registered from a parquet file''
         | errUnsupportedSchema \<Rightarrow> ''''
         | ErrFallback \<Rightarrow> ''native file move unavailable'') @ m,
      err_is = [s]\<rparr>"

definition isLockedErr :: "go_error option \<Rightarrow> bool" where
  "isLockedErr err = (case err of None \<Rightarrow> False | Some e \<Rightarrow> Contains (ToLower (err_msg e)) ''database is locked'')"

definition isColumnMappingErr :: "go_error \<Rightarrow> bool" where
  "isColumnMappingErr e =
     (Contains (err_msg e) ''Failed to map column'' \<or>
      Contains (err_msg e) ''Expected type'' \<and> Contains (err_msg e) ''but found type'')"

definition isRetriableCatalogError :: "go_error \<Rightarrow> bool" where
  "isRetriableCatalogError e =
     (let errStr = err_msg e in
      if errStr = '''' then False
      else if Contains errStr ''NoSuchBucket'' then False
      else if Contains errStr ''InvalidAccessKeyId'' \<or> Contains errStr ''SignatureDoesNotMatch'' then False
      else if Contains (ToLower errStr) ''database is locked'' \<or> Contains errStr ''Failed to commit'' \<or>
         Contains errStr ''Could not set lock'' \<or> Contains errStr ''catalog'' \<or> Contains errStr ''transaction conflict''
      then True
      else Contains errStr ''HTTP Error'')"

subsection \<open>Retry loops\<close>

text \<open>
  The two retry loops. \<open>nap\<close> is what the rest of the program does while the loop sleeps; the count is the
  number of attempts left.
\<close>

fun locked_loop :: "('w \<Rightarrow> 'w) \<Rightarrow> 'w op \<Rightarrow> nat \<Rightarrow> 'w op" where
  "locked_loop nap fn 0 w = (None, w)"
| "locked_loop nap fn (Suc n) w =
     (case fn w of (err, w1) \<Rightarrow>
        if \<not> isLockedErr err then (err, w1)
        else if n = 0 then (err, w1)
        else locked_loop nap fn n (nap w1))"

definition withRetryOnLocked :: "('w \<Rightarrow> 'w) \<Rightarrow> 'w op \<Rightarrow> 'w op" where
  "withRetryOnLocked nap fn = locked_loop nap fn 4"

definition tieringMaxRetries :: nat where
  "tieringMaxRetries = 5"

fun exec_loop :: "nat \<Rightarrow> ('w \<Rightarrow> 'w) \<Rightarrow> 'w op \<Rightarrow> nat \<Rightarrow> 'w op" where
  "exec_loop m nap fn 0 w = (None, w)"
| "exec_loop m nap fn (Suc n) w =
     (case fn w of
        (None, w1) \<Rightarrow> (None, w1)
      | (Some e, w1) \<Rightarrow>
          if \<not> isRetriableCatalogError e then (Some e, w1)
          else if n = 0 then (Some (wrapf (''after '' @ Itoa m @ '' attempts: '') e), w1)
          else exec_loop m nap fn n (nap w1))"

definition execWithRetryOp :: "('w \<Rightarrow> 'w) \<Rightarrow> nat \<Rightarrow> 'w op \<Rightarrow> 'w op" where
  "execWithRetryOp nap maxAttempts fn =
     (let m = (if maxAttempts = 0 then 1 else maxAttempts) in exec_loop m nap fn m)"

definition execWithRetry :: "('w \<Rightarrow> 'w) \<Rightarrow> 'w op \<Rightarrow> 'w op" where
  "execWithRetry nap fn = execWithRetryOp nap tieringMaxRetries fn"

text \<open>
  The contract of a retry loop: an attempt that succeeds or fails for good ends it, the last attempt ends
  it in any case. Its clients learn that the outcome is the outcome of one attempt, made in a state that
  satisfies whatever the attempts and the pauses between them preserve.
\<close>

locale retry_loop =
  fixes loop :: "('w \<Rightarrow> 'w) \<Rightarrow> 'w op \<Rightarrow> nat \<Rightarrow> 'w op"
    and retriable :: "go_error \<Rightarrow> bool"
    and final :: "go_error \<Rightarrow> go_error"
  assumes loop_Suc:
    "loop nap fn (Suc n) w =
       (case fn w of
          (None, w1) \<Rightarrow> (None, w1)
        | (Some e, w1) \<Rightarrow>
            if \<not> retriable e then (Some e, w1)
            else if n = 0 then (Some (final e), w1)
            else loop nap fn n (nap w1))"
begin

lemma last_attempt:
  assumes "loop nap fn (Suc n) w = (err, w')" "I w"
    and "\<And>v e v'. I v \<Longrightarrow> fn v = (Some e, v') \<Longrightarrow> I v'" "\<And>v. I v \<Longrightarrow> I (nap v)"
  shows "\<exists>v err'. I v \<and> fn v = (err', w') \<and> (err = err' \<or> (\<exists>e. err' = Some e \<and> err = Some (final e)))"
  using assms(1,2)
proof (induction n arbitrary: w)
  case 0
  then show ?case by (auto simp: loop_Suc split: prod.splits option.splits if_splits)
next
  case (Suc n)
  show ?case
  proof (cases "fn w")
    case (Pair e1 w1)
    show ?thesis
    proof (cases "e1 = None \<or> \<not> retriable (the e1)")
      case True
      with Pair Suc.prems show ?thesis
        by (subst (asm) loop_Suc) (auto split: option.splits)
    next
      case False
      then obtain e where e: "e1 = Some e" "retriable e" by auto
      with Pair Suc.prems(1) have "loop nap fn (Suc n) (nap w1) = (err, w')"
        by (subst (asm) loop_Suc) simp
      moreover have "I (nap w1)" using assms(3,4) Suc.prems(2) Pair e by blast
      ultimately show ?thesis by (rule Suc.IH)
    qed
  qed
qed

lemma keeps:
  assumes "I w" "\<And>v. I v \<Longrightarrow> I (snd (fn v))" "\<And>v. I v \<Longrightarrow> I (nap v)"
  shows "I (snd (loop nap fn (Suc n) w))"
proof -
  obtain err w' where l: "loop nap fn (Suc n) w = (err, w')" by (meson surj_pair)
  have "\<exists>v err'. I v \<and> fn v = (err', w') \<and> (err = err' \<or> (\<exists>e. err' = Some e \<and> err = Some (final e)))"
    using l assms by (intro last_attempt [of nap fn n w err w' I]) (auto, metis snd_conv)
  with l assms(2) show ?thesis by (metis snd_conv)
qed

end

interpretation locked: retry_loop locked_loop "\<lambda>e. isLockedErr (Some e)" "\<lambda>e. e"
  by unfold_locales (auto simp: isLockedErr_def split: prod.splits option.splits)

interpretation exec: retry_loop "exec_loop m" isRetriableCatalogError "wrapf (''after '' @ Itoa m @ '' attempts: '')" for m
  by unfold_locales (auto split: prod.splits option.splits)

lemma execWithRetry_loop: "execWithRetry nap fn = exec_loop 5 nap fn (Suc 4)"
  by (simp add: execWithRetry_def execWithRetryOp_def tieringMaxRetries_def Let_def numeral_eq_Suc)

lemma withRetryOnLocked_loop: "withRetryOnLocked nap fn = locked_loop nap fn (Suc 3)"
  by (simp add: withRetryOnLocked_def numeral_eq_Suc)

subsection \<open>Quoting\<close>

abbreviation DQ :: char where "DQ \<equiv> CHR 0x22"
abbreviation SQ :: char where "SQ \<equiv> CHR 0x27"

definition quoteIdent :: "string \<Rightarrow> string" where
  "quoteIdent s = [DQ] @ ReplaceAll s DQ [DQ, DQ] @ [DQ]"

definition quoteLiteral :: "string \<Rightarrow> string" where
  "quoteLiteral s = [SQ] @ ReplaceAll s SQ [SQ, SQ] @ [SQ]"

definition tableRef :: "string \<Rightarrow> string \<Rightarrow> string" where
  "tableRef lakeName tableName = quoteIdent lakeName @ ''.'' @ quoteIdent ''main'' @ ''.'' @ quoteIdent tableName"

definition metadataSchema :: "string \<Rightarrow> string" where
  "metadataSchema lakeName = quoteIdent (''__ducklake_metadata_'' @ lakeName)"

text \<open>How SQL reads a quoted token: up to a quote that is not doubled.\<close>

fun read_quoted :: "char \<Rightarrow> string \<Rightarrow> (string \<times> string) option" where
  "read_quoted q [] = None"
| "read_quoted q (c # s) =
     (if c \<noteq> q then map_option (\<lambda>(t, r). (c # t, r)) (read_quoted q s)
      else case s of
        d # s' \<Rightarrow> if d = q then map_option (\<lambda>(t, r). (q # t, r)) (read_quoted q s') else Some ([], s)
      | [] \<Rightarrow> Some ([], []))"

lemma read_quoted_ReplaceAll:
  assumes "rest = [] \<or> hd rest \<noteq> q"
  shows "read_quoted q (ReplaceAll s q [q, q] @ q # rest) = Some (s, rest)"
proof (induction s)
  case Nil
  with assms show ?case by (auto simp: ReplaceAll_def split: list.splits)
next
  case (Cons c s)
  then show ?case by (auto simp: ReplaceAll_def split: list.splits)
qed

definition unquote :: "string \<Rightarrow> string" where
  "unquote t = (case read_quoted (hd t) (tl t) of Some (s, _) \<Rightarrow> s | None \<Rightarrow> [])"

lemma unquote_quoteLiteral [simp]: "unquote (quoteLiteral s) = s"
  using read_quoted_ReplaceAll [of "[]" SQ s] by (simp add: unquote_def quoteLiteral_def)

subsection \<open>Partition keys\<close>

record partitionKey =
  columnName :: string
  columnType :: string
  pk_transform :: string

definition is_alpha :: "char \<Rightarrow> bool" where
  "is_alpha c = (65 \<le> byte_val c \<and> byte_val c \<le> 90 \<or> 97 \<le> byte_val c \<and> byte_val c \<le> 122)"

definition is_digit :: "char \<Rightarrow> bool" where
  "is_digit c = (48 \<le> byte_val c \<and> byte_val c \<le> 57)"

text \<open>The regular expression \<^verbatim>\<open>^[A-Za-z][A-Za-z0-9 _]*(\([0-9]+(,[0-9]+)?\))?$\<close>.\<close>

definition type_params :: "string \<Rightarrow> bool" where
  "type_params s =
     (s \<noteq> [] \<and> hd s = CHR ''('' \<and>
      (let ds = takeWhile is_digit (tl s); r = dropWhile is_digit (tl s) in
       ds \<noteq> [] \<and>
       (r = '')'' \<or>
        r \<noteq> [] \<and> hd r = CHR '','' \<and> takeWhile is_digit (tl r) \<noteq> [] \<and> dropWhile is_digit (tl r) = '')'')))"

definition safeTypeName :: "string \<Rightarrow> bool" where
  "safeTypeName s =
     (s \<noteq> [] \<and> is_alpha (hd s) \<and>
      (let r = dropWhile (\<lambda>c. is_alpha c \<or> is_digit c \<or> c = CHR '' '' \<or> c = CHR ''_'') (tl s) in
       r = [] \<or> type_params r))"

definition usable :: "partitionKey \<Rightarrow> bool" where
  "usable p = (columnName p \<noteq> [] \<and> EqualFold (pk_transform p) ''identity'' \<and> safeTypeName (columnType p))"

definition pk_predicate :: "partitionKey \<Rightarrow> string \<Rightarrow> string" where
  "pk_predicate pk val =
     quoteIdent (columnName pk) @ '' = CAST('' @ quoteLiteral val @ '' AS '' @ columnType pk @ '')''"

subsection \<open>File paths\<close>

text \<open>\<open>filepath.Clean\<close>, \<open>Join\<close>, \<open>Dir\<close> and \<open>Base\<close> on Unix: lexical, over the components between slashes.\<close>

abbreviation SLASH :: char where "SLASH \<equiv> CHR ''/''"

fun clean_comps :: "bool \<Rightarrow> string list \<Rightarrow> string list \<Rightarrow> string list" where
  "clean_comps rooted out [] = rev out"
| "clean_comps rooted out (c # cs) =
     (if c = [] \<or> c = ''.'' then clean_comps rooted out cs
      else if c = ''..'' then
        (if out \<noteq> [] \<and> hd out \<noteq> ''..'' then clean_comps rooted (tl out) cs
         else if rooted then clean_comps rooted out cs
         else clean_comps rooted (c # out) cs)
      else clean_comps rooted (c # out) cs)"

definition path_Clean :: "string \<Rightarrow> string" where
  "path_Clean p =
     (let rooted = (p \<noteq> [] \<and> hd p = SLASH);
          body = Join (clean_comps rooted [] (Split p [SLASH])) [SLASH]
      in if rooted then SLASH # body else if body = [] then ''.'' else body)"

definition path_Join :: "string list \<Rightarrow> string" where
  "path_Join elems =
     (let es = dropWhile (\<lambda>e. e = []) elems in if es = [] then [] else path_Clean (Join es [SLASH]))"

definition path_dir_prefix :: "string \<Rightarrow> string" where
  "path_dir_prefix p = rev (dropWhile (\<lambda>c. c \<noteq> SLASH) (rev p))"

definition path_Dir :: "string \<Rightarrow> string" where
  "path_Dir p = path_Clean (path_dir_prefix p)"

text \<open>The non-empty components of a path; a plain path has no dot components.\<close>

definition comps :: "string \<Rightarrow> string list" where
  "comps p = filter (\<lambda>c. c \<noteq> []) (Split p [SLASH])"

definition plain_path :: "string \<Rightarrow> bool" where
  "plain_path p \<longleftrightarrow> ''.'' \<notin> set (comps p) \<and> ''..'' \<notin> set (comps p)"

lemma not_sublist_single: "\<not> sublist [c] l \<longleftrightarrow> c \<notin> set l"
  by (metis sublist_def in_set_conv_decomp append.assoc append_Cons append_Nil)

lemma Split_slash: "c \<in> set (Split p [SLASH]) \<Longrightarrow> SLASH \<notin> set c"
  using Split_no_sep [of "[SLASH]" c p] by (simp add: not_sublist_single)

lemma Split_none: "SLASH \<notin> set p \<Longrightarrow> Split p [SLASH] = [p]"
  using Split_Join [of "[SLASH]" "[p]"] by (simp add: not_sublist_single)

lemma Join_append: "xs \<noteq> [] \<Longrightarrow> ys \<noteq> [] \<Longrightarrow> Join (xs @ ys) sep = Join xs sep @ sep @ Join ys sep"
  by (induction xs sep rule: Join.induct) (auto simp: Join_Cons)

lemma Split_append: "Split (a @ SLASH # b) [SLASH] = Split a [SLASH] @ Split b [SLASH]"
proof -
  have "a @ SLASH # b = Join (Split a [SLASH] @ Split b [SLASH]) [SLASH]"
    by (simp add: Join_append Join_Split)
  moreover have "Split (Join (Split a [SLASH] @ Split b [SLASH]) [SLASH]) [SLASH] = Split a [SLASH] @ Split b [SLASH]"
    by (rule Split_Join) (auto simp: not_sublist_single dest: Split_slash)
  ultimately show ?thesis by simp
qed

lemma comps_append: "comps (a @ SLASH # b) = comps a @ comps b"
  by (simp add: comps_def Split_append)

lemma comps_Nil [simp]: "comps [] = []"
  by (simp add: comps_def Split_none)

lemma comps_slash: "comps (SLASH # p) = comps p"
  using comps_append [of "[]" p] by simp

lemma comps_single: "SLASH \<notin> set c \<Longrightarrow> c \<noteq> [] \<Longrightarrow> comps c = [c]"
  by (simp add: comps_def Split_none)

lemma comps_parts: "c \<in> set (comps p) \<Longrightarrow> c \<noteq> [] \<and> SLASH \<notin> set c"
  using Split_slash [of c p] by (simp add: comps_def)

lemma comps_Join: "\<forall>c\<in>set cs. c \<noteq> [] \<and> SLASH \<notin> set c \<Longrightarrow> comps (Join cs [SLASH]) = cs"
proof (induction cs)
  case (Cons c cs)
  then show ?case by (cases cs) (simp_all add: comps_append comps_single)
qed simp

lemma clean_comps_plain: "''.'' \<notin> set cs \<Longrightarrow> ''..'' \<notin> set cs \<Longrightarrow> clean_comps r out cs = rev out @ filter (\<lambda>c. c \<noteq> []) cs"
  by (induction r out cs rule: clean_comps.induct) auto

lemma path_Clean_plain:
  assumes "plain_path p"
  shows "path_Clean p =
    (if p \<noteq> [] \<and> hd p = SLASH then SLASH # Join (comps p) [SLASH]
     else if comps p = [] then ''.'' else Join (comps p) [SLASH])"
proof -
  have "''.'' \<notin> set (Split p [SLASH])" "''..'' \<notin> set (Split p [SLASH])"
    using assms by (auto simp: plain_path_def comps_def)
  moreover have "Join (comps p) [SLASH] \<noteq> []" if "comps p \<noteq> []"
    using comps_Join [of "comps p"] comps_parts [of _ p] that by auto
  ultimately show ?thesis
    by (auto simp: path_Clean_def Let_def clean_comps_plain simp flip: comps_def)
qed

lemma dropWhile_no_slash: "SLASH \<notin> set f \<Longrightarrow> dropWhile (\<lambda>c. c \<noteq> SLASH) (rev f @ t) = dropWhile (\<lambda>c. c \<noteq> SLASH) t"
  by (rule dropWhile_append2) auto

lemma path_Dir_snoc: "SLASH \<notin> set f \<Longrightarrow> path_Dir (a @ SLASH # f) = path_Clean (a @ [SLASH])"
  using dropWhile_no_slash [of f "SLASH # rev a"] by (simp add: path_Dir_def path_dir_prefix_def)

lemma path_Dir_single: "SLASH \<notin> set f \<Longrightarrow> path_Dir f = ''.''"
  using dropWhile_no_slash [of f "[]"] by (simp add: path_Dir_def path_dir_prefix_def path_Clean_plain plain_path_def del: dropWhile_eq_Nil_conv)

text \<open>An absolute path built from a data root, the schema directory, a table directory and a relative path.\<close>

definition rooted :: "string \<Rightarrow> bool" where
  "rooted p \<longleftrightarrow> p \<noteq> [] \<and> hd p = SLASH"

lemma path_Join_rooted:
  assumes "rooted d" "plain_path d" "plain_path t" "plain_path p"
  shows "path_Join [d, ''main'', t, p] = SLASH # Join (comps d @ [''main''] @ comps t @ comps p) [SLASH]"
proof -
  let ?q = "d @ SLASH # ''main'' @ SLASH # t @ SLASH # p"
  have c: "comps ?q = comps d @ [''main''] @ comps t @ comps p"
    by (simp only: comps_append) (simp add: comps_single)
  then have "plain_path ?q" using assms by (simp add: plain_path_def)
  moreover have "path_Join [d, ''main'', t, p] = path_Clean ?q" using assms(1) by (simp add: path_Join_def rooted_def Let_def)
  ultimately show ?thesis using assms(1) c by (simp add: path_Clean_plain rooted_def)
qed

lemma path_Dir_rooted:
  assumes "cs \<noteq> []" "\<forall>c\<in>set (cs @ [f]). c \<noteq> [] \<and> SLASH \<notin> set c \<and> c \<noteq> ''.'' \<and> c \<noteq> ''..''"
  shows "path_Dir (SLASH # Join (cs @ [f]) [SLASH]) = SLASH # Join cs [SLASH]"
proof -
  have c: "comps (SLASH # Join cs [SLASH] @ [SLASH]) = cs"
    using comps_append [of "SLASH # Join cs [SLASH]" "[]"] comps_Join [of cs] assms(2) by (simp add: comps_slash)
  then have "plain_path (SLASH # Join cs [SLASH] @ [SLASH])" using assms(2) by (auto simp: plain_path_def)
  moreover have "path_Dir (SLASH # Join (cs @ [f]) [SLASH]) = path_Clean (SLASH # Join cs [SLASH] @ [SLASH])"
    using path_Dir_snoc [of f "SLASH # Join cs [SLASH]"] assms by (simp add: Join_append)
  ultimately show ?thesis by (simp add: path_Clean_plain c)
qed

lemma plain_comps: "plain_path p \<Longrightarrow> c \<in> set (comps p) \<Longrightarrow> c \<noteq> [] \<and> SLASH \<notin> set c \<and> c \<noteq> ''.'' \<and> c \<noteq> ''..''"
  using comps_parts [of c p] by (auto simp: plain_path_def)

text \<open>An ordinary last component survives cleaning, whatever precedes it.\<close>

lemma clean_comps_snoc: "c \<noteq> [] \<Longrightarrow> c \<noteq> ''.'' \<Longrightarrow> c \<noteq> ''..'' \<Longrightarrow> clean_comps r out (cs @ [c]) = clean_comps r out cs @ [c]"
  by (induction r out cs rule: clean_comps.induct) auto

definition last_comp :: "string \<Rightarrow> string \<Rightarrow> bool" where
  "last_comp c p \<longleftrightarrow> p = c \<or> (\<exists>b. p = b @ SLASH # c)"

lemma last_comp_append: "last_comp c p \<Longrightarrow> last_comp c (b @ SLASH # p)"
  unfolding last_comp_def by (metis append_Cons append.assoc)

lemma last_comp_length: "last_comp c p \<Longrightarrow> length c \<le> length p"
  by (auto simp: last_comp_def)

lemma path_Clean_last:
  assumes c: "SLASH \<notin> set c" "c \<noteq> []" "c \<noteq> ''.''" "c \<noteq> ''..''" and p: "last_comp c p"
  shows "last_comp c (path_Clean p)"
proof -
  obtain xs where xs: "Split p [SLASH] = xs @ [c]"
    using p Split_none [OF c(1)] by (auto simp: last_comp_def Split_append)
  have j: "last_comp c (Join (ys @ [c]) [SLASH])" for ys
    by (cases "ys = []") (auto simp: last_comp_def Join_append)
  moreover have "Join (ys @ [c]) [SLASH] \<noteq> []" for ys using last_comp_length [OF j, of ys] c(2) by auto
  moreover have "last_comp c (SLASH # Join (ys @ [c]) [SLASH])" for ys
    using last_comp_append [OF j, of "[]"] by simp
  ultimately show ?thesis
    by (simp add: path_Clean_def Let_def xs clean_comps_snoc [OF c(2-4)])
qed

subsection \<open>The database\<close>

record 'w lake_sql =
  sql_conn :: "'w op"
  sql_threads :: "'w op"
  sql_begin :: "'w op"
  sql_count :: "string \<Rightarrow> string \<Rightarrow> 'w \<Rightarrow> (go_error + int) \<times> 'w"
  sql_delete :: "string \<Rightarrow> string \<Rightarrow> 'w op"
  sql_add :: "string \<Rightarrow> string \<Rightarrow> string list \<Rightarrow> 'w op"
  sql_commit :: "'w op"
  sql_rollback :: "'w \<Rightarrow> 'w"
  sql_close :: "'w \<Rightarrow> 'w"

text \<open>
  The frame that the three catalog transactions of the source share: a connection, \<^verbatim>\<open>SET threads = 1\<close>, the
  body, and the deferred rollback and close. The body commits itself; it reports no error only after its
  commit succeeded, so an error means that the deferred rollback runs.
\<close>

definition with_tx :: "'w lake_sql \<Rightarrow> string \<Rightarrow> 'w op \<Rightarrow> 'w op" where
  "with_tx sql begin_msg body w =
     (case sql_conn sql w of
        (Some e, w1) \<Rightarrow> (Some (wrapf ''acquire connection: '' e), w1)
      | (None, w1) \<Rightarrow>
     (case sql_threads sql w1 of
        (Some e, w2) \<Rightarrow> (Some (wrapf ''set threads=1: '' e), sql_close sql w2)
      | (None, w2) \<Rightarrow>
     (case sql_begin sql w2 of
        (Some e, w3) \<Rightarrow> (Some (wrapf begin_msg e), sql_close sql w3)
      | (None, w3) \<Rightarrow>
     (case body w3 of
        (Some e, w4) \<Rightarrow> (Some e, sql_close sql (sql_rollback sql w4))
      | (None, w4) \<Rightarrow> (None, sql_close sql w4)))))"

subsection \<open>What can be observed of a world\<close>

text \<open>
  A slot is a lake, a table and a value of its partition column. \<open>v_live\<close> gives the rows of a slot,
  \<open>v_refs\<close> the paths registered in the catalogs, \<open>v_content\<close> the rows of a parquet file on disk and
  \<open>v_saved\<close> the rows and paths to which the open transaction would roll back. \<open>v_cast\<close> is the column value
  that a literal denotes and \<open>v_part\<close> the value that DuckLake infers from the path of an added file.
\<close>

type_synonym 'p slot = "string \<times> string \<times> 'p"

record ('w, 'p, 'r) lake_view =
  v_live :: "'w \<Rightarrow> 'p slot \<Rightarrow> 'r multiset"
  v_refs :: "'w \<Rightarrow> string set"
  v_content :: "'w \<Rightarrow> string \<rightharpoonup> 'r multiset"
  v_saved :: "'w \<Rightarrow> ('p slot \<Rightarrow> 'r multiset) \<times> string set"
  v_cast :: "string \<Rightarrow> 'p"
  v_part :: "string \<Rightarrow> 'p"

definition same_world :: "('w, 'p, 'r) lake_view \<Rightarrow> 'w \<Rightarrow> 'w \<Rightarrow> bool" where
  "same_world V w w' \<longleftrightarrow>
     v_live V w' = v_live V w \<and> v_refs V w' = v_refs V w \<and> v_content V w' = v_content V w \<and> v_saved V w' = v_saved V w"

text \<open>The rows of a list of files, and the rows that registering them adds to a slot.\<close>

definition files_rows :: "(string \<rightharpoonup> 'r multiset) \<Rightarrow> string list \<Rightarrow> 'r multiset" where
  "files_rows m ps = (\<Sum>p\<leftarrow>ps. case m p of Some c \<Rightarrow> c | None \<Rightarrow> {#})"

definition added_rows :: "('w, 'p, 'r) lake_view \<Rightarrow> 'w \<Rightarrow> string list \<Rightarrow> 'p \<Rightarrow> 'r multiset" where
  "added_rows V w ps v = files_rows (v_content V w) (filter (\<lambda>p. v_part V p = v) ps)"

text \<open>
  The documented behaviour that the transactions rely on: connection handling changes nothing, \<^verbatim>\<open>BEGIN\<close>
  remembers the state, \<^verbatim>\<open>ROLLBACK\<close> and a failed \<^verbatim>\<open>COMMIT\<close> restore it; \<^verbatim>\<open>COUNT(*)\<close> returns the number of rows,
  \<^verbatim>\<open>DELETE\<close> empties the slot, and \<^verbatim>\<open>ducklake_add_data_files\<close> adds the rows of existing files.
\<close>

definition tx_laws :: "('w, 'p, 'r) lake_view \<Rightarrow> 'w lake_sql \<Rightarrow> bool" where
  "tx_laws V sql \<longleftrightarrow>
     (\<forall>w. same_world V w (snd (sql_conn sql w))) \<and>
     (\<forall>w. same_world V w (snd (sql_threads sql w))) \<and>
     (\<forall>w. same_world V w (sql_close sql w)) \<and>
     (\<forall>w e w'. sql_begin sql w = (e, w') \<longrightarrow>
        v_live V w' = v_live V w \<and> v_refs V w' = v_refs V w \<and> v_content V w' = v_content V w \<and>
        (e = None \<longrightarrow> v_saved V w' = (v_live V w, v_refs V w))) \<and>
     (\<forall>w. (v_live V (sql_rollback sql w), v_refs V (sql_rollback sql w)) = v_saved V w \<and>
        v_content V (sql_rollback sql w) = v_content V w) \<and>
     (\<forall>w e w'. sql_commit sql w = (e, w') \<longrightarrow>
        v_content V w' = v_content V w \<and> v_saved V w' = v_saved V w \<and>
        (e = None \<longrightarrow> v_live V w' = v_live V w \<and> v_refs V w' = v_refs V w))"

definition count_law :: "('w, 'p, 'r) lake_view \<Rightarrow> 'w lake_sql \<Rightarrow> string \<Rightarrow> string \<Rightarrow> partitionKey \<Rightarrow> bool" where
  "count_law V sql lake tbl pk \<longleftrightarrow>
     (\<forall>val w r w'. sql_count sql (tableRef lake tbl) (pk_predicate pk val) w = (r, w') \<longrightarrow>
        same_world V w w' \<and>
        (\<forall>n. r = Inr n \<longrightarrow> n = int (size (v_live V w (lake, tbl, v_cast V val))) \<and> n < 2 ^ 63))"

definition delete_law :: "('w, 'p, 'r) lake_view \<Rightarrow> 'w lake_sql \<Rightarrow> string \<Rightarrow> string \<Rightarrow> partitionKey \<Rightarrow> bool" where
  "delete_law V sql lake tbl pk \<longleftrightarrow>
     (\<forall>val w e w'. sql_delete sql (tableRef lake tbl) (pk_predicate pk val) w = (e, w') \<longrightarrow>
        v_content V w' = v_content V w \<and> v_saved V w' = v_saved V w \<and>
        (e = None \<longrightarrow> v_live V w' = (v_live V w)((lake, tbl, v_cast V val) := {#}) \<and> v_refs V w' \<subseteq> v_refs V w))"

definition add_law :: "('w, 'p, 'r) lake_view \<Rightarrow> 'w lake_sql \<Rightarrow> string \<Rightarrow> string \<Rightarrow> bool" where
  "add_law V sql lake tbl \<longleftrightarrow>
     (\<forall>ps w e w'. sql_add sql (quoteLiteral lake) (quoteLiteral tbl) (map quoteLiteral ps) w = (e, w') \<longrightarrow>
        v_content V w' = v_content V w \<and> v_saved V w' = v_saved V w \<and>
        (e = None \<longrightarrow>
           (\<forall>p\<in>set ps. v_content V w p \<noteq> None) \<and> v_refs V w' = v_refs V w \<union> set ps \<and>
           (\<forall>l t v. v_live V w' (l, t, v) =
              v_live V w (l, t, v) + (if l = lake \<and> t = tbl then added_rows V w ps v else {#}))))"

definition lake_laws :: "('w, 'p, 'r) lake_view \<Rightarrow> 'w lake_sql \<Rightarrow> string \<Rightarrow> string \<Rightarrow> partitionKey \<Rightarrow> bool" where
  "lake_laws V sql lake tbl pk \<longleftrightarrow>
     tx_laws V sql \<and> count_law V sql lake tbl pk \<and> delete_law V sql lake tbl pk \<and> add_law V sql lake tbl"

lemma same_worldD:
  assumes "same_world V w w'"
  shows "v_live V w' = v_live V w" "v_refs V w' = v_refs V w" "v_content V w' = v_content V w" "v_saved V w' = v_saved V w"
  using assms by (simp_all add: same_world_def)

lemma tx_lawsD:
  assumes "tx_laws V sql"
  shows "sql_conn sql w = (e, w') \<Longrightarrow> same_world V w w'"
    "sql_threads sql w = (e, w') \<Longrightarrow> same_world V w w'"
    "same_world V w (sql_close sql w)"
    "sql_begin sql w = (e, w') \<Longrightarrow> v_live V w' = v_live V w \<and> v_refs V w' = v_refs V w \<and> v_content V w' = v_content V w"
    "sql_begin sql w = (None, w') \<Longrightarrow> v_saved V w' = (v_live V w, v_refs V w)"
    "v_live V (sql_rollback sql w) = fst (v_saved V w)" "v_refs V (sql_rollback sql w) = snd (v_saved V w)"
    "v_content V (sql_rollback sql w) = v_content V w"
    "sql_commit sql w = (e, w') \<Longrightarrow> v_content V w' = v_content V w \<and> v_saved V w' = v_saved V w"
    "sql_commit sql w = (None, w') \<Longrightarrow> v_live V w' = v_live V w \<and> v_refs V w' = v_refs V w"
proof -
  note T = assms [unfolded tx_laws_def]
  show "sql_conn sql w = (e, w') \<Longrightarrow> same_world V w w'" using T by (metis snd_conv)
  show "sql_threads sql w = (e, w') \<Longrightarrow> same_world V w w'" using T by (metis snd_conv)
  show "same_world V w (sql_close sql w)" using T by blast
  show "sql_begin sql w = (e, w') \<Longrightarrow> v_live V w' = v_live V w \<and> v_refs V w' = v_refs V w \<and> v_content V w' = v_content V w"
    "sql_begin sql w = (None, w') \<Longrightarrow> v_saved V w' = (v_live V w, v_refs V w)" using T by blast+
  show "v_live V (sql_rollback sql w) = fst (v_saved V w)" "v_refs V (sql_rollback sql w) = snd (v_saved V w)"
    using T by (metis fst_conv, metis snd_conv)
  show "v_content V (sql_rollback sql w) = v_content V w" using T by blast
  show "sql_commit sql w = (e, w') \<Longrightarrow> v_content V w' = v_content V w \<and> v_saved V w' = v_saved V w"
    "sql_commit sql w = (None, w') \<Longrightarrow> v_live V w' = v_live V w \<and> v_refs V w' = v_refs V w" using T by blast+
qed

text \<open>
  A transaction is all or nothing: from a body that keeps the file contents and the saved state, a reported
  error leaves rows and registrations as they were, and success leaves what the body committed.
\<close>

lemma with_tx_atomic:
  assumes T: "tx_laws V sql" and run: "with_tx sql m body w = (err, w')"
    and body: "\<forall>v e v'. body v = (e, v') \<longrightarrow> v_content V v' = v_content V v \<and> v_saved V v' = v_saved V v"
  shows "v_content V w' = v_content V w \<and>
    (err \<noteq> None \<longrightarrow> v_live V w' = v_live V w \<and> v_refs V w' = v_refs V w) \<and>
    (err = None \<longrightarrow>
      (\<exists>v v'. body v = (None, v') \<and> v_live V v = v_live V w \<and> v_refs V v = v_refs V w \<and> v_content V v = v_content V w \<and>
        v_live V w' = v_live V v' \<and> v_refs V w' = v_refs V v'))"
proof -
  obtain e1 w1 where c: "sql_conn sql w = (e1, w1)" by (meson surj_pair)
  obtain e2 w2 where t: "sql_threads sql w1 = (e2, w2)" by (meson surj_pair)
  obtain e3 w3 where b: "sql_begin sql w2 = (e3, w3)" by (meson surj_pair)
  obtain e4 w4 where d: "body w3 = (e4, w4)" by (meson surj_pair)
  note c' = same_worldD [OF tx_lawsD(1) [OF T c]] and t' = same_worldD [OF tx_lawsD(2) [OF T t]]
  note b' = tx_lawsD(4) [OF T b] and d' = body [rule_format, OF d]
  note cl = same_worldD [OF tx_lawsD(3) [OF T]]
  show ?thesis
  proof (cases "e1 \<noteq> None \<or> e2 \<noteq> None \<or> e3 \<noteq> None")
    case True
    with run c t b c' t' b' cl show ?thesis by (auto simp: with_tx_def split: option.splits)
  next
    case False
    then have ok: "e1 = None" "e2 = None" "e3 = None" by auto
    have saved: "v_saved V w3 = (v_live V w, v_refs V w)"
      using tx_lawsD(5) [OF T b [unfolded ok]] c' t' by simp
    show ?thesis
    proof (cases e4)
      case None
      with run c t b d ok have "err = None" "w' = sql_close sql w4" by (simp_all add: with_tx_def)
      with None d d' b' c' t' cl show ?thesis by auto
    next
      case (Some e)
      with run c t b d ok have "err = Some e" "w' = sql_close sql (sql_rollback sql w4)" by (simp_all add: with_tx_def)
      with saved d' b' c' t' cl show ?thesis by (simp add: tx_lawsD(6-8) [OF T])
    qed
  qed
qed

end
