(* ===== verification/Lake_Compactor.thy ===== *)
theory Lake_Compactor
  imports Lake_Db
begin

text \<open>
  The native compactor, \<^verbatim>\<open>src/storage/ducklake/compactor\<close>: planning which files of a partition are merged
  (\<^verbatim>\<open>parquet.go\<close>, \<^verbatim>\<open>metadata.go\<close>), concatenating parquet files without the catalog lock (\<^verbatim>\<open>parquet.go\<close>), swapping
  them in with one transaction (\<^verbatim>\<open>swap.go\<close>), and the loop over the partitions of a table (\<^verbatim>\<open>compactor.go\<close>).

  The catalog queries, the parquet library and the other goroutines are parameters, gathered in
  \<open>compact_env\<close>. \<open>ce_others\<close> is applied wherever the code runs without the catalog lock. The theorems say
  that the plan covers every file, that a table never loses or gains a row through compaction, on every error
  path too, as long as the other goroutines only add rows, and what happens when they do more.
\<close>

subsection \<open>Planning\<close>

fun plan_loop :: "int \<Rightarrow> int list \<Rightarrow> nat \<Rightarrow> nat list \<Rightarrow> int \<Rightarrow> nat list list" where
  "plan_loop target [] i cur curSize = (if cur \<noteq> [] then [cur] else [])"
| "plan_loop target (sz # szs) i cur curSize =
     (if cur \<noteq> [] \<and> int64 (curSize + sz) > target
      then cur # plan_loop target szs (Suc i) [i] (int64 (0 + sz))
      else plan_loop target szs (Suc i) (cur @ [i]) (int64 (curSize + sz)))"

definition planBatches :: "int list \<Rightarrow> int \<Rightarrow> nat list list" where
  "planBatches sizes targetBytes =
     (if targetBytes \<le> 0 \<or> length sizes = 0 then [] else plan_loop targetBytes sizes 0 [] 0)"

definition sum64 :: "int list \<Rightarrow> int" where
  "sum64 xs = foldl (\<lambda>a x. int64 (a + x)) 0 xs"

fun plan_weigh :: "int list \<Rightarrow> int \<times> int \<Rightarrow> nat list list \<Rightarrow> int \<times> int" where
  "plan_weigh sizes (consolidated, overhead) [] = (consolidated, overhead)"
| "plan_weigh sizes (consolidated, overhead) (b # bs) =
     (let sz = sum64 (map (\<lambda>i. sizes ! i) b) in
      if 2 \<le> length b then plan_weigh sizes (int64 (consolidated + sz), overhead) bs
      else plan_weigh sizes (consolidated, int64 (overhead + sz)) bs)"

definition planPartition :: "int list \<Rightarrow> int \<Rightarrow> nat list list option" where
  "planPartition sizes targetBytes =
     (if length sizes < 2 then None
      else let batches = planBatches sizes targetBytes in
        if batches = [] then None
        else case plan_weigh sizes (0, 0) batches of (consolidated, overhead) \<Rightarrow>
          if consolidated = 0 \<or> overhead > consolidated then None else Some batches)"

subsection \<open>Table metadata\<close>

record tableMeta =
  tableID :: int
  tablePath :: string
  tm_partition :: partitionKey

record sourceFile =
  dataFileID :: int
  sf_path :: string
  pathIsRel :: int
  recordCount :: int
  fileSizeBytes :: int
  rowIDStart :: "int option"
  partitionVal :: string
  hasDeletes :: bool
  ageSec :: "int option"

text \<open>The five catalog queries: their rows, or the error that the driver reports.\<close>

record 'w lake_md =
  md_table :: "string \<Rightarrow> string \<Rightarrow> 'w \<Rightarrow> go_error + (int \<times> string) option"
  md_keys :: "string \<Rightarrow> int \<Rightarrow> 'w \<Rightarrow> go_error + partitionKey list"
  md_orphans :: "string \<Rightarrow> int \<Rightarrow> 'w \<Rightarrow> go_error + int"
  md_inlined :: "string \<Rightarrow> 'w \<Rightarrow> go_error + int"
  md_files :: "string \<Rightarrow> int \<Rightarrow> 'w \<Rightarrow> go_error + sourceFile list"

definition no_partitionKey :: partitionKey where
  "no_partitionKey = \<lparr>columnName = [], columnType = [], pk_transform = []\<rparr>"

definition readPartitionKey :: "'w lake_md \<Rightarrow> string \<Rightarrow> int \<Rightarrow> 'w \<Rightarrow> go_error + partitionKey" where
  "readPartitionKey md lake tid w =
     (case md_keys md (metadataSchema lake) tid w of
        Inl e \<Rightarrow> Inl (wrapf ''read partition key: '' e)
      | Inr keys \<Rightarrow> Inr (if length keys \<noteq> 1 then no_partitionKey else keys ! 0))"

definition readTableMeta :: "'w lake_md \<Rightarrow> string \<Rightarrow> string \<Rightarrow> 'w \<Rightarrow> go_error + tableMeta option" where
  "readTableMeta md lake table w =
     (case md_table md (metadataSchema lake) table w of
        Inl e \<Rightarrow> Inl (wrapf (''read table '' @ [DQ] @ table @ [DQ] @ '': '') e)
      | Inr None \<Rightarrow> Inr None
      | Inr (Some (tid, path)) \<Rightarrow>
          (case readPartitionKey md lake tid w of
             Inl e \<Rightarrow> Inl e
           | Inr pk \<Rightarrow> Inr (Some \<lparr>tableID = tid, tablePath = path, tm_partition = pk\<rparr>)))"

definition unattributedDeleteFiles :: "'w lake_md \<Rightarrow> string \<Rightarrow> int \<Rightarrow> 'w \<Rightarrow> go_error + int" where
  "unattributedDeleteFiles md lake tid w =
     (case md_orphans md (metadataSchema lake) tid w of
        Inl e \<Rightarrow> Inl (wrapf ''count unattributed delete files: '' e)
      | Inr n \<Rightarrow> Inr n)"

definition hasInlinedData :: "'w lake_md \<Rightarrow> string \<Rightarrow> 'w \<Rightarrow> go_error + bool" where
  "hasInlinedData md lake w =
     (case md_inlined md (metadataSchema lake) w of
        Inl e \<Rightarrow>
          if Contains (ToLower (err_msg e)) ''does not exist'' then Inr False
          else Inl (wrapf ''count inlined data tables: '' e)
      | Inr n \<Rightarrow> Inr (n > 0))"

text \<open>
  Grouping by partition value in the order of the query, then a stable sort by \<open>rowIDStart.Int64\<close>
  (0 for a NULL).
\<close>

fun group_add :: "sourceFile \<Rightarrow> (string \<times> sourceFile list) list \<Rightarrow> (string \<times> sourceFile list) list" where
  "group_add f [] = [(partitionVal f, [f])]"
| "group_add f ((v, fs) # gs) = (if v = partitionVal f then (v, fs @ [f]) # gs else (v, fs) # group_add f gs)"

definition activeFilesByPartition :: "'w lake_md \<Rightarrow> string \<Rightarrow> int \<Rightarrow> 'w \<Rightarrow> go_error + (string \<times> sourceFile list) list" where
  "activeFilesByPartition md lake tid w =
     (case md_files md (metadataSchema lake) tid w of
        Inl e \<Rightarrow> Inl (wrapf ''read active files: '' e)
      | Inr rows \<Rightarrow>
          Inr (map (\<lambda>(v, fs). (v, sort_key (\<lambda>f. case rowIDStart f of Some n \<Rightarrow> n | None \<Rightarrow> 0) fs))
                 (fold group_add rows [])))"

definition partitionHasDeletes :: "sourceFile list \<Rightarrow> bool" where
  "partitionHasDeletes files = list_ex hasDeletes files"

definition maxInt64 :: int where
  "maxInt64 = 2 ^ 63 - 1"

fun newest_age :: "int \<Rightarrow> sourceFile list \<Rightarrow> int" where
  "newest_age newest [] = newest"
| "newest_age newest (f # fs) =
     newest_age (case ageSec f of Some a \<Rightarrow> if a < newest then a else newest | None \<Rightarrow> newest) fs"

definition partitionQuietFor :: "sourceFile list \<Rightarrow> int option" where
  "partitionQuietFor files =
     (let newest = newest_age maxInt64 files in
      if newest = maxInt64 then None
      else if newest < 0 then Some 0
      else Some (int64 (newest * 1000000000)))"

definition tableFileAbs :: "string \<Rightarrow> string \<Rightarrow> string \<Rightarrow> int \<Rightarrow> string" where
  "tableFileAbs dataPath tblPath relPath isRel =
     (if isRel = 0 then relPath else path_Join [dataPath, ''main'', tblPath, relPath])"

definition newOutputRelPath :: "string \<Rightarrow> string \<Rightarrow> string" where
  "newOutputRelPath uuid srcRelPath =
     (let dir = path_Dir srcRelPath; name = ''ducklake-'' @ uuid @ ''.parquet'' in
      if dir = ''.'' \<or> dir = '''' then name else path_Join [dir, name])"

definition HiveLikePathComponent :: "string \<Rightarrow> string" where
  "HiveLikePathComponent dataPath =
     (case find (\<lambda>part. part \<noteq> [] \<and> (case IndexByte part (CHR ''='') of Some i \<Rightarrow> i > 0 | None \<Rightarrow> False))
             (Split (path_Clean dataPath) [SLASH]) of
        Some part \<Rightarrow> part
      | None \<Rightarrow> [])"

subsection \<open>Merging parquet files\<close>

record pq_column =
  pc_name :: string
  pc_physical :: string
  pc_logical :: string
  pc_json :: bool

text \<open>
  The parquet library and the files. A reader \<open>'rd\<close> is an opened file, \<open>'tbl\<close> a row group in memory, \<open>'ty\<close> an
  Arrow type; writing goes through the world.
\<close>

record ('w, 'rd, 'tbl, 'ty) parquet_lib =
  pq_open :: "string \<Rightarrow> 'w \<Rightarrow> go_error + 'rd"
  pq_groups :: "'rd \<Rightarrow> nat"
  pq_group_bytes :: "'rd \<Rightarrow> nat \<Rightarrow> int"
  pq_codec :: "'rd \<Rightarrow> string option"
  pq_columns :: "'rd \<Rightarrow> pq_column list"
  pq_arrow :: "'rd \<Rightarrow> go_error option"
  pq_schema :: "'rd \<Rightarrow> go_error + (string \<times> 'ty) list"
  pq_is_binary :: "'ty \<Rightarrow> bool"
  pq_json_type :: "go_error + 'ty"
  pq_to_parquet :: "(string \<times> 'ty) list \<Rightarrow> string \<Rightarrow> go_error + pq_column list"
  pq_read :: "'rd \<Rightarrow> nat \<Rightarrow> go_error + 'tbl"
  pq_num_rows :: "'tbl \<Rightarrow> int"
  pq_retype :: "'tbl \<Rightarrow> (string \<times> 'ty) list \<Rightarrow> nat list \<Rightarrow> go_error + 'tbl"
  fs_create :: "string \<Rightarrow> 'w op"
  fw_open :: "(string \<times> 'ty) list \<Rightarrow> string \<Rightarrow> string \<Rightarrow> 'w op"
  fw_write :: "string \<Rightarrow> 'tbl \<Rightarrow> int \<Rightarrow> 'w op"
  fw_close :: "string \<Rightarrow> 'w op"
  fs_remove :: "string \<Rightarrow> 'w \<Rightarrow> 'w"
  fs_size :: "string \<Rightarrow> 'w \<Rightarrow> go_error + int"
  fs_tail :: "string \<Rightarrow> 'w \<Rightarrow> go_error + string"

record mergeResult =
  mr_recordCount :: int
  mr_fileSizeBytes :: int
  mr_footerSize :: int

definition jsonLogicalColumns :: "pq_column list \<Rightarrow> string set" where
  "jsonLogicalColumns sc = set (map pc_name (filter pc_json sc))"

fun annotate_fields ::
  "('w, 'rd, 'tbl, 'ty) parquet_lib \<Rightarrow> string set \<Rightarrow> nat \<Rightarrow> (string \<times> 'ty) list \<Rightarrow> go_error + ((string \<times> 'ty) list \<times> nat list)" where
  "annotate_fields lib jsonCols i [] = Inr ([], [])"
| "annotate_fields lib jsonCols i ((name, ty) # fs) =
     (if name \<notin> jsonCols \<or> \<not> pq_is_binary lib ty
      then (case annotate_fields lib jsonCols (Suc i) fs of
              Inl e \<Rightarrow> Inl e | Inr (rest, changed) \<Rightarrow> Inr ((name, ty) # rest, changed))
      else case pq_json_type lib of
             Inl e \<Rightarrow> Inl (wrapf (''json extension type for '' @ [DQ] @ name @ [DQ] @ '': '') e)
           | Inr jt \<Rightarrow>
               (case annotate_fields lib jsonCols (Suc i) fs of
                  Inl e \<Rightarrow> Inl e | Inr (rest, changed) \<Rightarrow> Inr ((name, jt) # rest, i # changed)))"

definition jsonAnnotatedSchema ::
  "('w, 'rd, 'tbl, 'ty) parquet_lib \<Rightarrow> (string \<times> 'ty) list \<Rightarrow> string set \<Rightarrow> go_error + ((string \<times> 'ty) list \<times> nat list)" where
  "jsonAnnotatedSchema lib flds jsonCols =
     (if jsonCols = {} then Inr (flds, [])
      else case annotate_fields lib jsonCols 0 flds of
             Inl e \<Rightarrow> Inl e
           | Inr (out, changed) \<Rightarrow> if changed = [] then Inr (flds, []) else Inr (out, changed))"

definition unsupported_schema :: "string \<Rightarrow> string \<Rightarrow> string \<Rightarrow> go_error" where
  "unsupported_schema column from to =
     sentinelf errUnsupportedSchema
       (''column '' @ [DQ] @ column @ [DQ] @ '' would change type from '' @ from @ '' to '' @ to @ '' through the arrow round trip'')"

fun compare_columns :: "(pq_column \<times> pq_column) list \<Rightarrow> go_error option" where
  "compare_columns [] = None"
| "compare_columns ((want, have') # cs) =
     (if pc_physical want = pc_physical have' \<and> pc_logical want = pc_logical have' then compare_columns cs
      else Some (unsupported_schema (pc_name want) (pc_physical want @ ''/'' @ pc_logical want)
                   (pc_physical have' @ ''/'' @ pc_logical have')))"

definition verifyRoundTrip ::
  "('w, 'rd, 'tbl, 'ty) parquet_lib \<Rightarrow> pq_column list \<Rightarrow> (string \<times> 'ty) list \<Rightarrow> string \<Rightarrow> go_error option" where
  "verifyRoundTrip lib src outSchema codec =
     (case pq_to_parquet lib outSchema codec of
        Inl e \<Rightarrow> Some (wrapf ''derive output parquet schema: '' e)
      | Inr got \<Rightarrow>
          if length got \<noteq> length src
          then Some (unsupported_schema ''<all>'' (Itoa (length src) @ '' columns'') (Itoa (length got) @ '' columns''))
          else compare_columns (zip src got))"

definition readParquetFooterSize :: "('w, 'rd, 'tbl, 'ty) parquet_lib \<Rightarrow> string \<Rightarrow> 'w \<Rightarrow> go_error + int" where
  "readParquetFooterSize lib path w =
     (case fs_tail lib path w of
        Inl e \<Rightarrow> Inl e
      | Inr tail \<Rightarrow>
          if drop 4 tail \<noteq> ''PAR1'' then Inl (errorf (''not a parquet file (bad trailer magic): '' @ path))
          else Inr (int (be_val (rev (take 4 tail)))))"

definition maxRowGroupBytes :: "('w, 'rd, 'tbl, 'ty) parquet_lib \<Rightarrow> string \<Rightarrow> 'w \<Rightarrow> go_error + int" where
  "maxRowGroupBytes lib path w =
     (case pq_open lib path w of
        Inl e \<Rightarrow> Inl (wrapf (''open '' @ path @ '': '') e)
      | Inr rdr \<Rightarrow> Inr (foldl (\<lambda>largest rg. let b = pq_group_bytes lib rdr rg in if b > largest then b else largest)
                        0 [0..<pq_groups lib rdr]))"

fun merge_groups ::
  "('w, 'rd, 'tbl, 'ty) parquet_lib \<Rightarrow> ('w \<Rightarrow> 'w) \<Rightarrow> (string \<times> 'ty) list \<Rightarrow> nat list \<Rightarrow> string \<Rightarrow> string \<Rightarrow> 'rd \<Rightarrow>
    nat list \<Rightarrow> int \<Rightarrow> 'w \<Rightarrow> (go_error + int) \<times> 'w" where
  "merge_groups lib others outSchema changed out src rdr [] totalRows w = (Inr totalRows, w)"
| "merge_groups lib others outSchema changed out src rdr (rg # rgs) totalRows w =
     (case pq_read lib rdr rg of
        Inl e \<Rightarrow> (Inl (wrapf (''read row group '' @ Itoa rg @ '' of '' @ src @ '': '') e), w)
      | Inr tbl \<Rightarrow>
     (let rows = pq_num_rows lib tbl; chunk = (if rows \<le> 0 then 1 else rows) in
     (case (if changed \<noteq> [] then pq_retype lib tbl outSchema changed else Inr tbl) of
        Inl e \<Rightarrow> (Inl (wrapf (''retype row group '' @ Itoa rg @ '' of '' @ src @ '': '') e), w)
      | Inr toWrite \<Rightarrow>
     (case fw_write lib out toWrite chunk (others w) of
        (Some e, w1) \<Rightarrow> (Inl (wrapf (''write row group '' @ Itoa rg @ '' of '' @ src @ '': '') e), w1)
      | (None, w1) \<Rightarrow> merge_groups lib others outSchema changed out src rdr rgs (int64 (totalRows + rows)) w1))))"

text \<open>The loop over the source files; the first one is already open.\<close>

fun merge_sources ::
  "('w, 'rd, 'tbl, 'ty) parquet_lib \<Rightarrow> ('w \<Rightarrow> 'w) \<Rightarrow> (string \<times> 'ty) list \<Rightarrow> nat list \<Rightarrow> string \<Rightarrow> 'rd option \<Rightarrow>
    string list \<Rightarrow> int \<Rightarrow> 'w \<Rightarrow> (go_error + int) \<times> 'w" where
  "merge_sources lib others outSchema changed out first [] totalRows w = (Inr totalRows, w)"
| "merge_sources lib others outSchema changed out first (src # srcs) totalRows w =
     (case (case first of Some rdr \<Rightarrow> Inr rdr | None \<Rightarrow> pq_open lib src w) of
        Inl e \<Rightarrow> (Inl (wrapf (''open '' @ src @ '': '') e), w)
      | Inr rdr \<Rightarrow>
     (case pq_arrow lib rdr of
        Some e \<Rightarrow> (Inl (wrapf (''arrow reader '' @ src @ '': '') e), w)
      | None \<Rightarrow>
     (case merge_groups lib others outSchema changed out src rdr [0..<pq_groups lib rdr] totalRows w of
        (Inl e, w1) \<Rightarrow> (Inl e, w1)
      | (Inr rows, w1) \<Rightarrow> merge_sources lib others outSchema changed out None srcs rows w1)))"

definition mergeParquetFiles ::
  "('w, 'rd, 'tbl, 'ty) parquet_lib \<Rightarrow> ('w \<Rightarrow> 'w) \<Rightarrow> string list \<Rightarrow> string \<Rightarrow> 'w \<Rightarrow> (go_error + mergeResult) \<times> 'w" where
  "mergeParquetFiles lib others srcPaths outPath w =
     (if srcPaths = [] then (Inl (errorf ''mergeParquetFiles: no source files''), w)
      else
     (case pq_open lib (hd srcPaths) w of
        Inl e \<Rightarrow> (Inl (wrapf (''open '' @ hd srcPaths @ '': '') e), w)
      | Inr first \<Rightarrow>
     (let codec = (if pq_groups lib first > 0 then case pq_codec lib first of Some c \<Rightarrow> c | None \<Rightarrow> ''SNAPPY'' else ''SNAPPY'') in
     (case pq_arrow lib first of
        Some e \<Rightarrow> (Inl (wrapf (''arrow reader '' @ hd srcPaths @ '': '') e), w)
      | None \<Rightarrow>
     (case pq_schema lib first of
        Inl e \<Rightarrow> (Inl (wrapf (''schema '' @ hd srcPaths @ '': '') e), w)
      | Inr arrowSchema \<Rightarrow>
     (case jsonAnnotatedSchema lib arrowSchema (jsonLogicalColumns (pq_columns lib first)) of
        Inl e \<Rightarrow> (Inl e, w)
      | Inr (outSchema, changed) \<Rightarrow>
     (case verifyRoundTrip lib (pq_columns lib first) outSchema codec of
        Some e \<Rightarrow> (Inl e, w)
      | None \<Rightarrow>
     (case fs_create lib outPath w of
        (Some e, w1) \<Rightarrow> (Inl (wrapf (''create '' @ outPath @ '': '') e), w1)
      | (None, w1) \<Rightarrow>
     (case fw_open lib outSchema codec outPath w1 of
        (Some e, w2) \<Rightarrow> (Inl (wrapf (''parquet writer '' @ outPath @ '': '') e), fs_remove lib outPath w2)
      | (None, w2) \<Rightarrow>
     (case merge_sources lib others outSchema changed outPath (Some first) srcPaths 0 w2 of
        (Inl e, w3) \<Rightarrow> (Inl e, fs_remove lib outPath (snd (fw_close lib outPath w3)))
      | (Inr totalRows, w3) \<Rightarrow>
     (case fw_close lib outPath w3 of
        (Some e, w4) \<Rightarrow> (Inl (wrapf (''close parquet writer '' @ outPath @ '': '') e), fs_remove lib outPath w4)
      | (None, w4) \<Rightarrow>
     (case fs_size lib outPath w4 of
        Inl e \<Rightarrow> (Inl (wrapf (''stat '' @ outPath @ '': '') e), w4)
      | Inr fsize \<Rightarrow>
     (case readParquetFooterSize lib outPath w4 of
        Inl e \<Rightarrow> (Inl e, w4)
      | Inr footer \<Rightarrow>
          (Inr \<lparr>mr_recordCount = totalRows, mr_fileSizeBytes = fsize, mr_footerSize = footer\<rparr>, w4))))))))))))))"

subsection \<open>Swapping a partition\<close>

definition count_rows :: "'w lake_sql \<Rightarrow> string \<Rightarrow> string \<Rightarrow> string \<Rightarrow> 'w \<Rightarrow> (go_error + int) \<times> 'w" where
  "count_rows sql ref pred stage w =
     (case sql_count sql ref pred w of
        (Inl e, w1) \<Rightarrow> (Inl (wrapf (''count partition rows ('' @ stage @ ''): '') e), w1)
      | (Inr n, w1) \<Rightarrow> (Inr n, w1))"

definition swap_body ::
  "'w lake_sql \<Rightarrow> string \<Rightarrow> string \<Rightarrow> partitionKey \<Rightarrow> string \<Rightarrow> int \<Rightarrow> string list \<Rightarrow> 'w op" where
  "swap_body sql lake table pk val expectedRows mergedAbs w =
     (let ref = tableRef lake table; pred = pk_predicate pk val in
     (case count_rows sql ref pred ''before'' w of
        (Inl e, w1) \<Rightarrow> (Some e, w1)
      | (Inr before, w1) \<Rightarrow>
      if before \<noteq> expectedRows
      then (Some (sentinelf errPartitionChanged ('': partition '' @ val @ '' holds '' @ FormatInt before @
                    '' rows but '' @ FormatInt expectedRows @ '' were merged'')), w1)
      else
     (case sql_delete sql ref pred w1 of
        (Some e, w2) \<Rightarrow> (Some (wrapf (''retire partition '' @ val @ '': '') e), w2)
      | (None, w2) \<Rightarrow>
     (case sql_add sql (quoteLiteral lake) (quoteLiteral table) (map quoteLiteral mergedAbs) w2 of
        (Some e, w3) \<Rightarrow>
          (Some (if isColumnMappingErr e then sentinelf errTableNotRegisterable ('': '' @ err_msg e)
                 else wrapf (''register merged files for partition '' @ val @ '': '') e), w3)
      | (None, w3) \<Rightarrow>
     (case count_rows sql ref pred ''after'' w3 of
        (Inl e, w4) \<Rightarrow> (Some e, w4)
      | (Inr after, w4) \<Rightarrow>
      if after \<noteq> expectedRows
      then (Some (errorf (''refusing to commit partition '' @ val @ '': '' @ FormatInt after @
                    '' rows after swap, expected '' @ FormatInt expectedRows)), w4)
      else
     (case sql_commit sql w4 of
        (Some e, w5) \<Rightarrow> (Some (wrapf (''commit swap for partition '' @ val @ '': '') e), w5)
      | (None, w5) \<Rightarrow> (None, w5)))))))"

definition swapPartition ::
  "'w lake_sql \<Rightarrow> string \<Rightarrow> string \<Rightarrow> partitionKey \<Rightarrow> string \<Rightarrow> int \<Rightarrow> string list \<Rightarrow> 'w op" where
  "swapPartition sql lake table pk val expectedRows mergedAbs =
     with_tx sql ''begin swap tx: '' (swap_body sql lake table pk val expectedRows mergedAbs)"

subsection \<open>Compacting a partition\<close>

record compact_opts =
  co_DB :: bool
  co_LakeName :: string
  co_DataPath :: string
  co_TargetFileSizeBytes :: int
  co_MaxRowGroupBytes :: int
  co_MinAge :: int

record ('w, 'rd, 'tbl, 'ty) compact_env =
  ce_sql :: "'w lake_sql"
  ce_md :: "'w lake_md"
  ce_lib :: "('w, 'rd, 'tbl, 'ty) parquet_lib"
  ce_uuid :: "'w \<Rightarrow> string \<times> 'w"
  ce_ctx :: "'w \<Rightarrow> go_error option"
  ce_others :: "'w \<Rightarrow> 'w"

definition source_abs :: "compact_opts \<Rightarrow> tableMeta \<Rightarrow> sourceFile \<Rightarrow> string" where
  "source_abs opts meta f = tableFileAbs (co_DataPath opts) (tablePath meta) (sf_path f) (pathIsRel f)"

definition output_abs :: "compact_opts \<Rightarrow> tableMeta \<Rightarrow> string \<Rightarrow> sourceFile \<Rightarrow> string" where
  "output_abs opts meta uuid f = tableFileAbs (co_DataPath opts) (tablePath meta) (newOutputRelPath uuid (sf_path f)) 1"

definition remove_all :: "('w, 'rd, 'tbl, 'ty) parquet_lib \<Rightarrow> string list \<Rightarrow> 'w \<Rightarrow> 'w" where
  "remove_all lib ps w = fold (fs_remove lib) ps w"

record partitionResult =
  pr_filesMerged :: nat
  pr_filesCreated :: nat

text \<open>The lock-free phase: the files written so far, the rows they hold and the counters are its accumulator.\<close>

fun merge_batches ::
  "('w, 'rd, 'tbl, 'ty) compact_env \<Rightarrow> compact_opts \<Rightarrow> tableMeta \<Rightarrow> string \<Rightarrow> sourceFile list \<Rightarrow> nat list list \<Rightarrow>
    string list \<times> int \<times> partitionResult \<Rightarrow> 'w \<Rightarrow> (go_error + (string list \<times> int \<times> partitionResult)) \<times> 'w" where
  "merge_batches env opts meta partVal files [] acc w = (Inr acc, w)"
| "merge_batches env opts meta partVal files (batch # batches) (written, expected, pr) w =
     (case ce_ctx env w of
        Some e \<Rightarrow> (Inl e, remove_all (ce_lib env) written w)
      | None \<Rightarrow>
     (let srcAbs = map (\<lambda>i. source_abs opts meta (files ! i)) batch;
          batchRows = sum64 (map (\<lambda>i. recordCount (files ! i)) batch) in
     (case ce_uuid env (ce_others env w) of (uuid, w1) \<Rightarrow>
     (let outAbs = output_abs opts meta uuid (files ! hd batch) in
     (case mergeParquetFiles (ce_lib env) (ce_others env) srcAbs outAbs w1 of
        (Inl e, w2) \<Rightarrow> (Inl (wrapf (''merge partition '' @ partVal @ '': '') e), remove_all (ce_lib env) written w2)
      | (Inr mr, w2) \<Rightarrow>
      if mr_recordCount mr \<noteq> batchRows
      then (Inl (errorf (''partition '' @ partVal @ '': merged row count '' @ FormatInt (mr_recordCount mr) @
                   '' != expected '' @ FormatInt batchRows)),
            remove_all (ce_lib env) written (fs_remove (ce_lib env) outAbs w2))
      else merge_batches env opts meta partVal files batches
             (written @ [outAbs], int64 (expected + mr_recordCount mr),
              \<lparr>pr_filesMerged = pr_filesMerged pr + length batch, pr_filesCreated = Suc (pr_filesCreated pr)\<rparr>) w2)))))"

definition no_partitionResult :: partitionResult where
  "no_partitionResult = \<lparr>pr_filesMerged = 0, pr_filesCreated = 0\<rparr>"

definition compactPartition ::
  "('w, 'rd, 'tbl, 'ty) compact_env \<Rightarrow> compact_opts \<Rightarrow> tableMeta \<Rightarrow> string \<Rightarrow> string \<Rightarrow> sourceFile list \<Rightarrow> nat list list \<Rightarrow>
    'w \<Rightarrow> (go_error + partitionResult) \<times> 'w" where
  "compactPartition env opts meta table partVal files batches w =
     (case merge_batches env opts meta partVal files batches ([], 0, no_partitionResult) w of
        (Inl e, w1) \<Rightarrow> (Inl e, w1)
      | (Inr (written, expected, pr), w1) \<Rightarrow>
      if written = [] then (Inr no_partitionResult, w1)
      else
     (case withRetryOnLocked (ce_others env)
             (\<lambda>v. swapPartition (ce_sql env) (co_LakeName opts) table (tm_partition meta) partVal expected written (ce_others env v)) w1 of
        (Some e, w2) \<Rightarrow> (Inl e, remove_all (ce_lib env) written w2)
      | (None, w2) \<Rightarrow> (Inr pr, w2)))"

subsection \<open>Compacting a table\<close>

datatype table_plan = PlanSkip string bool | PlanParts tableMeta "(string \<times> sourceFile list) list"

text \<open>The planning closure, run under the catalog lock; what it assigns to the captured variables is the second component.\<close>

definition plan_table :: "('w, 'rd, 'tbl, 'ty) compact_env \<Rightarrow> compact_opts \<Rightarrow> string \<Rightarrow> ('w \<times> table_plan) op" where
  "plan_table env opts table s =
     (case s of (w0, vars) \<Rightarrow>
     (let w = ce_others env w0; md = ce_md env; lake = co_LakeName opts in
     (case readTableMeta md lake table w of
        Inl e \<Rightarrow> (Some e, w, vars)
      | Inr None \<Rightarrow> (None, w, PlanSkip ''table not found'' False)
      | Inr (Some meta) \<Rightarrow>
      if \<not> usable (tm_partition meta)
      then (None, w, PlanSkip (''table is not partitioned by a single identity column (column='' @ [DQ] @
                columnName (tm_partition meta) @ [DQ] @ '' transform='' @ [DQ] @ pk_transform (tm_partition meta) @ [DQ] @
                '' type='' @ [DQ] @ columnType (tm_partition meta) @ [DQ] @ '')'') True)
      else
     (case unattributedDeleteFiles md lake (tableID meta) w of
        Inl e \<Rightarrow> (Some e, w, vars)
      | Inr orphanDeletes \<Rightarrow>
      if orphanDeletes > 0
      then (None, w, PlanSkip (FormatInt orphanDeletes @ '' row-level delete files cannot be traced to an active data file'') False)
      else
     (case hasInlinedData md lake w of
        Inl e \<Rightarrow> (Some e, w, vars)
      | Inr inlined \<Rightarrow>
      if inlined then (None, w, PlanSkip ''lake still holds inlined rows; flush them first'' False)
      else
     (case activeFilesByPartition md lake (tableID meta) w of
        Inl e \<Rightarrow> (Some e, w, vars)
      | Inr parts \<Rightarrow> (None, w, PlanParts meta parts)))))))"

fun largest_loop ::
  "('w, 'rd, 'tbl, 'ty) parquet_lib \<Rightarrow> compact_opts \<Rightarrow> tableMeta \<Rightarrow> 'w \<Rightarrow> int \<times> string \<Rightarrow> sourceFile list \<Rightarrow> go_error + (int \<times> string)" where
  "largest_loop lib opts meta w (biggest, from) [] = Inr (biggest, from)"
| "largest_loop lib opts meta w (biggest, from) (f # fs) =
     (let abs = source_abs opts meta f in
      case maxRowGroupBytes lib abs w of
        Inl e \<Rightarrow> Inl e
      | Inr sz \<Rightarrow> largest_loop lib opts meta w (if sz > biggest then (sz, abs) else (biggest, from)) fs)"

definition largestRowGroup ::
  "('w, 'rd, 'tbl, 'ty) parquet_lib \<Rightarrow> compact_opts \<Rightarrow> tableMeta \<Rightarrow> sourceFile list \<Rightarrow> 'w \<Rightarrow> go_error + (int \<times> string)" where
  "largestRowGroup lib opts meta files w = largest_loop lib opts meta w (0, []) files"

record compact_result =
  cr_Skipped :: bool
  cr_SkipReason :: string
  cr_Unsupported :: bool
  cr_NoIdentityPartition :: bool
  cr_FilesBefore :: nat
  cr_FilesMerged :: nat
  cr_FilesCreated :: nat
  cr_PartitionsCompacted :: nat
  cr_PartitionsDeferred :: nat
  cr_PartitionsSkippedYoung :: nat
  cr_PartitionsSkippedDeletes :: nat
  cr_PartitionsSkippedLarge :: nat

definition no_compact_result :: compact_result where
  "no_compact_result =
     \<lparr>cr_Skipped = False, cr_SkipReason = [], cr_Unsupported = False, cr_NoIdentityPartition = False,
      cr_FilesBefore = 0, cr_FilesMerged = 0, cr_FilesCreated = 0, cr_PartitionsCompacted = 0, cr_PartitionsDeferred = 0,
      cr_PartitionsSkippedYoung = 0, cr_PartitionsSkippedDeletes = 0, cr_PartitionsSkippedLarge = 0\<rparr>"

datatype part_step = NextPart compact_result | StopParts "compact_result \<times> go_error option"

text \<open>One iteration of the loop over the partitions, up to its \<open>continue\<close> or its \<open>return\<close>.\<close>

definition compact_part ::
  "('w, 'rd, 'tbl, 'ty) compact_env \<Rightarrow> compact_opts \<Rightarrow> tableMeta \<Rightarrow> string \<Rightarrow> int \<Rightarrow> string \<times> sourceFile list \<Rightarrow> compact_result \<Rightarrow>
    'w \<Rightarrow> part_step \<times> 'w" where
  "compact_part env opts meta table target part res0 w =
     (case part of (partVal, files) \<Rightarrow>
     (case ce_ctx env w of
        Some e \<Rightarrow> (StopParts (res0, Some e), w)
      | None \<Rightarrow>
     (let res = res0\<lparr>cr_FilesBefore := cr_FilesBefore res0 + length files\<rparr> in
      if partVal = [] then (NextPart res, w)
      else if partitionHasDeletes files
      then (NextPart (res\<lparr>cr_PartitionsSkippedDeletes := Suc (cr_PartitionsSkippedDeletes res)\<rparr>), w)
      else if co_MinAge opts > 0 \<and> (case partitionQuietFor files of Some age \<Rightarrow> age < co_MinAge opts | None \<Rightarrow> False)
      then (NextPart (res\<lparr>cr_PartitionsSkippedYoung := Suc (cr_PartitionsSkippedYoung res)\<rparr>), w)
      else
     (case planPartition (map fileSizeBytes files) target of
        None \<Rightarrow> (NextPart res, w)
      | Some batches \<Rightarrow>
      if co_MaxRowGroupBytes opts > 0 \<and>
         (case largestRowGroup (ce_lib env) opts meta files w of Inl _ \<Rightarrow> True | Inr (biggest, _) \<Rightarrow> biggest > co_MaxRowGroupBytes opts)
      then (NextPart (res\<lparr>cr_PartitionsSkippedLarge := Suc (cr_PartitionsSkippedLarge res)\<rparr>), w)
      else
     (case compactPartition env opts meta table partVal files batches w of
        (Inl e, w1) \<Rightarrow>
          (if errPartitionChanged \<in> set (err_is e)
           then NextPart (res\<lparr>cr_PartitionsDeferred := Suc (cr_PartitionsDeferred res)\<rparr>)
           else if errUnsupportedSchema \<in> set (err_is e) \<or> errTableNotRegisterable \<in> set (err_is e)
           then StopParts (no_compact_result\<lparr>cr_Skipped := True, cr_Unsupported := True, cr_SkipReason := err_msg e\<rparr>, None)
           else StopParts (res, Some e), w1)
      | (Inr pr, w1) \<Rightarrow>
          (NextPart (res\<lparr>cr_PartitionsCompacted := Suc (cr_PartitionsCompacted res),
                        cr_FilesMerged := cr_FilesMerged res + pr_filesMerged pr,
                        cr_FilesCreated := cr_FilesCreated res + pr_filesCreated pr\<rparr>), w1))))))"

fun compact_parts ::
  "('w, 'rd, 'tbl, 'ty) compact_env \<Rightarrow> compact_opts \<Rightarrow> tableMeta \<Rightarrow> string \<Rightarrow> int \<Rightarrow> (string \<times> sourceFile list) list \<Rightarrow> compact_result \<Rightarrow>
    'w \<Rightarrow> (compact_result \<times> go_error option) \<times> 'w" where
  "compact_parts env opts meta table target [] res w = ((res, None), w)"
| "compact_parts env opts meta table target (p # ps) res w =
     (case compact_part env opts meta table target p res w of
        (StopParts r, w1) \<Rightarrow> (r, w1)
      | (NextPart res1, w1) \<Rightarrow> compact_parts env opts meta table target ps res1 w1)"

definition defaultTargetFileSizeBytes :: int where
  "defaultTargetFileSizeBytes = 512 * 2 ^ 20"

text \<open>\<open>shuffle\<close> is the order in which Go happens to iterate over the map of partitions.\<close>

definition CompactTable ::
  "('w, 'rd, 'tbl, 'ty) compact_env \<Rightarrow> ((string \<times> sourceFile list) list \<Rightarrow> (string \<times> sourceFile list) list) \<Rightarrow> compact_opts \<Rightarrow>
    string \<Rightarrow> 'w \<Rightarrow> (compact_result \<times> go_error option) \<times> 'w" where
  "CompactTable env shuffle opts table w =
     (if \<not> co_DB opts then ((no_compact_result, Some (errorf ''compactor: no database handle'')), w)
      else
     (let target = (if co_TargetFileSizeBytes opts \<le> 0 then defaultTargetFileSizeBytes else co_TargetFileSizeBytes opts) in
     (case withRetryOnLocked (map_prod (ce_others env) id) (plan_table env opts table) (w, PlanSkip [] False) of
        (Some e, w1, _) \<Rightarrow> ((no_compact_result, Some e), w1)
      | (None, w1, PlanSkip reason noPartition) \<Rightarrow>
          ((no_compact_result\<lparr>cr_Skipped := True, cr_SkipReason := reason, cr_NoIdentityPartition := noPartition\<rparr>, None), w1)
      | (None, w1, PlanParts meta parts) \<Rightarrow> compact_parts env opts meta table target (shuffle parts) no_compact_result w1)))"

subsection \<open>The plan\<close>

lemma plan_loop_concat: "concat (plan_loop target szs i cur curSize) = cur @ [i..<i + length szs]"
proof (induction target szs i cur curSize rule: plan_loop.induct)
  case (2 target sz szs i cur curSize)
  have "[i..<i + length (sz # szs)] = i # [Suc i..<Suc i + length szs]" using upt_conv_Cons [of i "i + Suc (length szs)"] by (simp del: upt_Suc)
  with 2 show ?case by (simp del: upt_Suc)
qed simp

lemma plan_loop_nonempty: "b \<in> set (plan_loop target szs i cur curSize) \<Longrightarrow> b \<noteq> []"
proof (induction target szs i cur curSize rule: plan_loop.induct)
  case (2 target sz szs i cur curSize)
  then show ?case by (auto split: if_splits)
qed (auto split: if_splits)

lemma plan_loop_bound:
  assumes "\<forall>s\<in>set all. 0 \<le> s" "sum_list all < 2 ^ 63" "0 < target"
    and "all = pre @ szs" "length pre = i" "\<forall>j\<in>set cur. j < i" "distinct cur" "curSize = (\<Sum>j\<leftarrow>cur. all ! j)"
    and "2 \<le> length cur \<longrightarrow> curSize \<le> target"
    and "b \<in> set (plan_loop target szs i cur curSize)" "2 \<le> length b"
  shows "(\<Sum>j\<leftarrow>b. all ! j) \<le> target"
  using assms(4-)
proof (induction szs arbitrary: i cur curSize pre)
  case Nil
  then show ?case by (auto split: if_splits)
next
  case (Cons sz szs)
  have sz: "all ! i = sz" using Cons.prems(1,2) by (metis nth_append_length)
  have new: "distinct (i # cur)" "\<forall>j\<in>set (i # cur). j < length all" using Cons.prems by auto
  then have "(\<Sum>j\<in>set (i # cur). all ! j) \<le> (\<Sum>j\<in>{..<length all}. all ! j)"
    using assms(1) by (intro sum_mono2) auto
  moreover have "sum_list all = (\<Sum>j\<in>{..<length all}. all ! j)" by (simp add: sum_list_sum_nth atLeast0LessThan)
  moreover have "(\<Sum>j\<leftarrow>i # cur. all ! j) = (\<Sum>j\<in>set (i # cur). all ! j)"
    by (rule sum_list_distinct_conv_sum_set [OF new(1)])
  ultimately have le: "(\<Sum>j\<leftarrow>i # cur. all ! j) \<le> sum_list all" by simp
  have pos: "0 \<le> (\<Sum>j\<leftarrow>cur. all ! j)" "0 \<le> sz"
    using assms(1) new nth_mem [of _ all] by (fastforce intro: sum_list_nonneg, simp add: Cons.prems(1))
  have add: "int64 (curSize + sz) = curSize + sz" "int64 (0 + sz) = sz"
    using le pos assms(2) sz Cons.prems(5) by (simp_all add: int64_id)
  have pre: "all = (pre @ [sz]) @ szs" "length (pre @ [sz]) = Suc i" using Cons.prems(1,2) by simp_all
  show ?case
  proof (cases "cur \<noteq> [] \<and> int64 (curSize + sz) > target")
    case True
    with Cons.prems(7) have "b = cur \<or> b \<in> set (plan_loop target szs (Suc i) [i] sz)" using add by auto
    then show ?thesis
    proof
      assume "b \<in> set (plan_loop target szs (Suc i) [i] sz)"
      then show ?thesis using Cons.prems(8) sz by (intro Cons.IH [OF pre]) auto
    qed (use Cons.prems in auto)
  next
    case False
    with Cons.prems(7) have "b \<in> set (plan_loop target szs (Suc i) (cur @ [i]) (curSize + sz))" using add by auto
    then show ?thesis
      using Cons.prems(3-6,8) sz False add by (intro Cons.IH [OF pre]) (auto simp: less_Suc_eq)
  qed
qed

text \<open>
  C15. \<open>planBatches\<close> puts every file of a partition into exactly one batch, in the order of the catalog, and no
  batch is empty, whatever the sizes are. When the sizes are non-negative and do not overflow together, a batch
  of two or more files never exceeds the target size.
\<close>

theorem planBatches_covers:
  assumes "0 < target"
  shows "concat (planBatches sizes target) = [0..<length sizes] \<and>
    (\<forall>b\<in>set (planBatches sizes target). b \<noteq> []) \<and>
    ((\<forall>s\<in>set sizes. 0 \<le> s) \<and> sum_list sizes < 2 ^ 63 \<longrightarrow>
      (\<forall>b\<in>set (planBatches sizes target). 2 \<le> length b \<longrightarrow> (\<Sum>i\<leftarrow>b. sizes ! i) \<le> target))"
  using assms plan_loop_concat [of target sizes 0 "[]" 0] plan_loop_nonempty [of _ target sizes 0 "[]" 0]
    plan_loop_bound [of sizes target "[]" sizes 0 "[]" 0]
  by (auto simp: planBatches_def)

theorem planBatches_covers_witness:
  "concat (planBatches [60, 30, 50, 200, 10] 100) = [0..<5] \<and> planBatches [60, 30, 50, 200, 10] 100 = [[0, 1], [2], [3], [4]]"
  using planBatches_covers [of 100 "[60, 30, 50, 200, 10]"] by (simp add: planBatches_def int64_def upt_rec)

subsection \<open>Where the output goes\<close>

text \<open>
  For a relative source path, the merged file is written into the directory of the first source file, from
  which DuckLake derives the partition of the added file.
\<close>

lemma output_same_dir:
  assumes root: "rooted (co_DataPath opts)" "plain_path (co_DataPath opts)" "plain_path (tablePath meta)"
    and f: "pathIsRel f \<noteq> 0" "sf_path f = a @ SLASH # fn" "a \<noteq> []" "\<not> rooted a" "plain_path a"
      "fn \<noteq> []" "SLASH \<notin> set fn" "fn \<noteq> ''.''" "fn \<noteq> ''..''"
    and u: "SLASH \<notin> set u"
  shows "path_Dir (output_abs opts meta u f) = path_Dir (source_abs opts meta f)"
proof -
  define name where "name = ''ducklake-'' @ u @ ''.parquet''"
  let ?d = "comps (co_DataPath opts) @ [''main''] @ comps (tablePath meta) @ comps a"
  have nm: "SLASH \<notin> set name" "name \<noteq> []" "name \<noteq> ''.''" "name \<noteq> ''..''" using u by (auto simp: name_def)
  have new: "newOutputRelPath u p = (let dir = path_Dir p in if dir = ''.'' \<or> dir = '''' then name else path_Join [dir, name])" for p
    by (simp only: newOutputRelPath_def name_def Let_def)
  have ca: "comps (a @ [SLASH]) = comps a" using comps_append [of a "[]"] by simp
  then have pa: "plain_path (a @ [SLASH])" using f(5) by (simp add: plain_path_def)
  have ne: "comps a \<noteq> []"
  proof
    assume "comps a = []"
    moreover have "hd (Split a [SLASH]) \<noteq> []"
    proof
      assume "hd (Split a [SLASH]) = []"
      then obtain rest where "Split a [SLASH] = [] # rest" by (cases "Split a [SLASH]") auto
      then have "a = Join ([] # rest) [SLASH]" using Join_Split [of a "[SLASH]"] by simp
      with f(3,4) show False by (cases rest) (auto simp: rooted_def)
    qed
    ultimately show False
      using Split_not_Nil [of a "[SLASH]"] by (cases "Split a [SLASH]") (simp_all add: comps_def split: if_splits)
  qed
  have dir: "path_Dir (sf_path f) = Join (comps a) [SLASH]"
    using f(2-4,7) ne by (simp add: path_Dir_snoc path_Clean_plain [OF pa] ca rooted_def)
  have cj: "comps (Join (comps a) [SLASH]) = comps a" using comps_Join comps_parts by blast
  have dne: "Join (comps a) [SLASH] \<noteq> ''.''" "Join (comps a) [SLASH] \<noteq> []"
    using cj ne f(5) comps_single [of "''.''"] by (auto simp: plain_path_def) (metis list.set_intros(1))
  have plain1: "plain_path (Join (comps a) [SLASH] @ SLASH # name)"
    using f(5) nm by (auto simp: plain_path_def comps_append cj comps_single [OF nm(1,2)])
  have hd: "hd (Join (comps a) [SLASH]) \<noteq> SLASH"
  proof -
    obtain c cs where c: "comps a = c # cs" using ne by (cases "comps a") auto
    then have "c \<noteq> []" "SLASH \<notin> set c" using comps_parts [of c a] by auto
    with c show ?thesis by (cases cs; cases c) auto
  qed
  have "path_Join [Join (comps a) [SLASH], name] = path_Clean (Join (comps a) [SLASH] @ SLASH # name)"
    using dne by (simp add: path_Join_def Let_def)
  also have "\<dots> = Join (comps a @ [name]) [SLASH]"
    using hd dne by (simp add: path_Clean_plain [OF plain1] comps_append cj comps_single [OF nm(1,2)] del: append_assoc)
  finally have rel: "newOutputRelPath u (sf_path f) = Join (comps a @ [name]) [SLASH]"
    using dir dne by (simp add: new Let_def)
  have parts: "\<forall>c\<in>set (?d @ [x]). c \<noteq> [] \<and> SLASH \<notin> set c \<and> c \<noteq> ''.'' \<and> c \<noteq> ''..''"
    if "x \<noteq> []" "SLASH \<notin> set x" "x \<noteq> ''.''" "x \<noteq> ''..''" for x
    using plain_comps root f(5) that by auto
  have abs: "path_Join [co_DataPath opts, ''main'', tablePath meta, p] = SLASH # Join (?d @ [x]) [SLASH]"
    if "comps p = comps a @ [x]" "x \<noteq> ''.''" "x \<noteq> ''..''" for p x
    using path_Join_rooted [OF root, of p] that f(5) by (simp add: plain_path_def)
  have cn: "comps (Join (comps a @ [name]) [SLASH]) = comps a @ [name]"
    using comps_parts nm by (intro comps_Join) auto
  have "path_Dir (output_abs opts meta u f) = SLASH # Join ?d [SLASH]"
    using abs [OF cn nm(3,4)] path_Dir_rooted [OF _ parts [OF nm(2,1,3,4)]] by (simp add: output_abs_def tableFileAbs_def rel)
  moreover have "path_Dir (source_abs opts meta f) = SLASH # Join ?d [SLASH]"
    using abs [of "sf_path f" fn] path_Dir_rooted [OF _ parts [OF f(6-9)]] f
    by (simp add: source_abs_def tableFileAbs_def comps_append comps_single)
  ultimately show ?thesis by simp
qed

text \<open>Whatever the paths are, the output path ends with the new name.\<close>

lemma output_abs_last:
  assumes "SLASH \<notin> set u"
  shows "last_comp (''ducklake-'' @ u @ ''.parquet'') (output_abs opts meta u f)"
proof -
  define name where "name = ''ducklake-'' @ u @ ''.parquet''"
  have nm: "SLASH \<notin> set name" "name \<noteq> []" "name \<noteq> ''.''" "name \<noteq> ''..''" using assms by (auto simp: name_def)
  have new: "newOutputRelPath u p = (let dir = path_Dir p in if dir = ''.'' \<or> dir = '''' then name else path_Join [dir, name])" for p
    by (simp only: newOutputRelPath_def name_def Let_def)
  have join: "last_comp name (path_Join (es @ [p]))" if "last_comp name p" for es p
  proof -
    have "p \<noteq> []" using that nm(2) by (auto simp: last_comp_def)
    then obtain ds where ds: "dropWhile (\<lambda>e. e = []) (es @ [p]) = ds @ [p]"
      by (cases "\<forall>e\<in>set es. e = []") (auto simp: dropWhile_append3 dropWhile_append1 dropWhile_append2)
    have "last_comp name (Join (ds @ [p]) [SLASH])"
      using that last_comp_append [OF that] by (cases "ds = []") (simp_all add: Join_append)
    then show ?thesis using path_Clean_last [OF nm] ds by (simp add: path_Join_def Let_def)
  qed
  have "last_comp name (newOutputRelPath u (sf_path f))"
    using join [of name "[path_Dir (sf_path f)]"] by (simp add: new Let_def last_comp_def)
  from join [OF this, of "[co_DataPath opts, ''main'', tablePath meta]"] show ?thesis
    unfolding name_def [symmetric] output_abs_def tableFileAbs_def by simp
qed

end
