(* ===== verification/Compaction_Safety.thy ===== *)
theory Compaction_Safety
  imports Lake_Compactor
begin

text \<open>
  Compaction keeps the rows of a table. The hypotheses are the documented behaviour of the parquet library,
  of the catalog and of DuckLake (\<open>parquet_laws\<close>, \<open>catalog_law\<close>, \<open>lake_laws\<close>), and what the other goroutines of the
  writer may do while the compactor does not hold the catalog lock (\<open>others_law\<close>).
\<close>

subsection \<open>Rely and guarantee\<close>

text \<open>
  \<open>R\<close> is a preorder on the rows of all slots: with \<open>\<subseteq>#\<close> the others may add rows, with \<open>=\<close> they may not.
  A step outside the paths \<open>X\<close> keeps \<open>R\<close>, leaves the files on disk alone and does not register them.
\<close>

definition preorder :: "(('p slot \<Rightarrow> 'r multiset) \<Rightarrow> ('p slot \<Rightarrow> 'r multiset) \<Rightarrow> bool) \<Rightarrow> bool" where
  "preorder R \<longleftrightarrow> (\<forall>l. R l l) \<and> (\<forall>a b c. R a b \<longrightarrow> R b c \<longrightarrow> R a c) \<and> (\<forall>a b s. R a b \<longrightarrow> a s \<subseteq># b s)"

definition rows_kept :: "('p slot \<Rightarrow> 'r multiset) \<Rightarrow> ('p slot \<Rightarrow> 'r multiset) \<Rightarrow> bool" where
  "rows_kept a b \<longleftrightarrow> (\<forall>s. a s \<subseteq># b s)"

lemma preorder_rows_kept: "preorder rows_kept"
  unfolding preorder_def rows_kept_def by (meson subset_mset.order_trans subset_mset.order_refl)

lemma preorder_eq: "preorder (=)"
  by (auto simp: preorder_def)

definition step ::
  "('w, 'p, 'r) lake_view \<Rightarrow> (('p slot \<Rightarrow> 'r multiset) \<Rightarrow> ('p slot \<Rightarrow> 'r multiset) \<Rightarrow> bool) \<Rightarrow> string set \<Rightarrow> 'w \<Rightarrow> 'w \<Rightarrow> bool" where
  "step V R X w w' \<longleftrightarrow>
     R (v_live V w) (v_live V w') \<and>
     (\<forall>q. q \<notin> X \<longrightarrow> v_content V w q \<noteq> None \<longrightarrow>
        v_content V w' q = v_content V w q \<and> (q \<in> v_refs V w' \<longrightarrow> q \<in> v_refs V w))"

definition mine :: "('w, 'p, 'r) lake_view \<Rightarrow> string \<Rightarrow> 'w \<Rightarrow> bool" where
  "mine V p w \<longleftrightarrow> p \<notin> v_refs V w \<and> v_content V w p \<noteq> None"

lemma step_refl: "preorder R \<Longrightarrow> step V R X w w"
  by (simp add: step_def preorder_def)

lemma step_trans: "preorder R \<Longrightarrow> step V R X w w1 \<Longrightarrow> step V R Y w1 w2 \<Longrightarrow> step V R (X \<union> Y) w w2"
  unfolding step_def preorder_def by (metis UnCI)

lemma step_trans_same: "preorder R \<Longrightarrow> step V R X w w1 \<Longrightarrow> step V R X w1 w2 \<Longrightarrow> step V R X w w2"
  using step_trans [of R V X w w1 X w2] by simp

lemma step_mono: "step V R X w w' \<Longrightarrow> X \<subseteq> Y \<Longrightarrow> step V R Y w w'"
  by (auto simp: step_def)

lemma step_fresh: "step V R X w w' \<Longrightarrow> \<forall>q\<in>X. v_content V w q = None \<Longrightarrow> step V R {} w w'"
  unfolding step_def by metis

lemma mine_step: "step V R X w w' \<Longrightarrow> p \<notin> X \<Longrightarrow> mine V p w \<Longrightarrow> mine V p w'"
  unfolding step_def mine_def by metis

lemma step_content: "step V R X w w' \<Longrightarrow> q \<notin> X \<Longrightarrow> v_content V w q = Some c \<Longrightarrow> v_content V w' q = Some c"
  unfolding step_def by (metis option.distinct(1))

subsection \<open>Hypotheses\<close>

record ('w, 'rd, 'tbl, 'r) parquet_view =
  pv_pending :: "'w \<Rightarrow> 'r multiset"
  pv_group :: "'rd \<Rightarrow> nat \<Rightarrow> 'r multiset"
  pv_rows :: "'tbl \<Rightarrow> 'r multiset"

text \<open>What the others do: they keep \<open>R\<close>, the files on disk and the registration of files, and the parquet writer's buffer.\<close>

definition others_law where
  "others_law V P R others \<longleftrightarrow> (\<forall>w. step V R {} w (others w) \<and> pv_pending P (others w) = pv_pending P w)"

text \<open>A file operation on the path \<open>p\<close>.\<close>

definition on_file where
  "on_file V p w w' \<longleftrightarrow>
     v_live V w' = v_live V w \<and> v_refs V w' = v_refs V w \<and> (\<forall>q. q \<noteq> p \<longrightarrow> v_content V w' q = v_content V w q)"

text \<open>
  Reading an opened file yields the rows that were on disk, group by group; the writer buffers the tables it is
  given and a successful close puts them into the file. Operations on a path that the catalog does not
  reference touch that file only.
\<close>

definition parquet_laws where
  "parquet_laws V P lib \<longleftrightarrow>
     (\<forall>p w rd. pq_open lib p w = Inr rd \<longrightarrow> v_content V w p = Some (\<Sum>i\<leftarrow>[0..<pq_groups lib rd]. pv_group P rd i)) \<and>
     (\<forall>rd i t. pq_read lib rd i = Inr t \<longrightarrow> pv_rows P t = pv_group P rd i) \<and>
     (\<forall>t. pq_num_rows lib t = int (size (pv_rows P t))) \<and>
     (\<forall>t sc ch t'. pq_retype lib t sc ch = Inr t' \<longrightarrow> pv_rows P t' = pv_rows P t) \<and>
     (\<forall>p w e w'. p \<notin> v_refs V w \<longrightarrow> fs_create lib p w = (e, w') \<longrightarrow>
        on_file V p w w' \<and> (e = None \<longrightarrow> v_content V w' p \<noteq> None)) \<and>
     (\<forall>sc c p w e w'. p \<notin> v_refs V w \<longrightarrow> fw_open lib sc c p w = (e, w') \<longrightarrow>
        on_file V p w w' \<and> (v_content V w p \<noteq> None \<longrightarrow> v_content V w' p \<noteq> None) \<and> (e = None \<longrightarrow> pv_pending P w' = {#})) \<and>
     (\<forall>p t n w e w'. p \<notin> v_refs V w \<longrightarrow> fw_write lib p t n w = (e, w') \<longrightarrow>
        on_file V p w w' \<and> (v_content V w p \<noteq> None \<longrightarrow> v_content V w' p \<noteq> None) \<and>
        (e = None \<longrightarrow> pv_pending P w' = pv_pending P w + pv_rows P t)) \<and>
     (\<forall>p w e w'. p \<notin> v_refs V w \<longrightarrow> fw_close lib p w = (e, w') \<longrightarrow>
        on_file V p w w' \<and> (e = None \<longrightarrow> v_content V w' p = Some (pv_pending P w))) \<and>
     (\<forall>p w. p \<notin> v_refs V w \<longrightarrow> on_file V p w (fs_remove lib p w))"

lemma parquet_lawsD:
  assumes "parquet_laws V P lib"
  shows "pq_open lib p w = Inr rd \<Longrightarrow> v_content V w p = Some (\<Sum>i\<leftarrow>[0..<pq_groups lib rd]. pv_group P rd i)"
    "pq_read lib rd i = Inr t \<Longrightarrow> pv_rows P t = pv_group P rd i"
    "pq_num_rows lib t = int (size (pv_rows P t))"
    "pq_retype lib t sc ch = Inr t' \<Longrightarrow> pv_rows P t' = pv_rows P t"
    "p \<notin> v_refs V w \<Longrightarrow> fs_create lib p w = (e, w') \<Longrightarrow> on_file V p w w' \<and> (e = None \<longrightarrow> v_content V w' p \<noteq> None)"
    "p \<notin> v_refs V w \<Longrightarrow> fw_open lib sc c p w = (e, w') \<Longrightarrow>
       on_file V p w w' \<and> (v_content V w p \<noteq> None \<longrightarrow> v_content V w' p \<noteq> None) \<and> (e = None \<longrightarrow> pv_pending P w' = {#})"
    "p \<notin> v_refs V w \<Longrightarrow> fw_write lib p t n w = (e, w') \<Longrightarrow>
       on_file V p w w' \<and> (v_content V w p \<noteq> None \<longrightarrow> v_content V w' p \<noteq> None) \<and>
       (e = None \<longrightarrow> pv_pending P w' = pv_pending P w + pv_rows P t)"
    "p \<notin> v_refs V w \<Longrightarrow> fw_close lib p w = (e, w') \<Longrightarrow>
       on_file V p w w' \<and> (e = None \<longrightarrow> v_content V w' p = Some (pv_pending P w))"
    "p \<notin> v_refs V w \<Longrightarrow> on_file V p w (fs_remove lib p w)"
proof -
  note T = assms [unfolded parquet_laws_def]
  show "pq_open lib p w = Inr rd \<Longrightarrow> v_content V w p = Some (\<Sum>i\<leftarrow>[0..<pq_groups lib rd]. pv_group P rd i)"
    using conjunct1 [OF T] by blast
  show "pq_read lib rd i = Inr t \<Longrightarrow> pv_rows P t = pv_group P rd i"
    using conjunct1 [OF conjunct2 [OF T]] by blast
  show "pq_num_rows lib t = int (size (pv_rows P t))"
    using conjunct1 [OF conjunct2 [OF conjunct2 [OF T]]] by blast
  show "pq_retype lib t sc ch = Inr t' \<Longrightarrow> pv_rows P t' = pv_rows P t"
    using conjunct1 [OF conjunct2 [OF conjunct2 [OF conjunct2 [OF T]]]] by blast
  show "p \<notin> v_refs V w \<Longrightarrow> fs_create lib p w = (e, w') \<Longrightarrow> on_file V p w w' \<and> (e = None \<longrightarrow> v_content V w' p \<noteq> None)"
    using conjunct1 [OF conjunct2 [OF conjunct2 [OF conjunct2 [OF conjunct2 [OF T]]]]] by blast
  show "p \<notin> v_refs V w \<Longrightarrow> fw_open lib sc c p w = (e, w') \<Longrightarrow>
       on_file V p w w' \<and> (v_content V w p \<noteq> None \<longrightarrow> v_content V w' p \<noteq> None) \<and> (e = None \<longrightarrow> pv_pending P w' = {#})"
    using conjunct1 [OF conjunct2 [OF conjunct2 [OF conjunct2 [OF conjunct2 [OF conjunct2 [OF T]]]]]] by blast
  show "p \<notin> v_refs V w \<Longrightarrow> fw_write lib p t n w = (e, w') \<Longrightarrow>
       on_file V p w w' \<and> (v_content V w p \<noteq> None \<longrightarrow> v_content V w' p \<noteq> None) \<and>
       (e = None \<longrightarrow> pv_pending P w' = pv_pending P w + pv_rows P t)"
    using conjunct1 [OF conjunct2 [OF conjunct2 [OF conjunct2 [OF conjunct2 [OF conjunct2 [OF conjunct2 [OF T]]]]]]] by blast
  show "p \<notin> v_refs V w \<Longrightarrow> fw_close lib p w = (e, w') \<Longrightarrow>
       on_file V p w w' \<and> (e = None \<longrightarrow> v_content V w' p = Some (pv_pending P w))"
    using conjunct1 [OF conjunct2 [OF conjunct2 [OF conjunct2 [OF conjunct2 [OF conjunct2 [OF conjunct2 [OF conjunct2 [OF T]]]]]]]] by blast
  show "p \<notin> v_refs V w \<Longrightarrow> on_file V p w (fs_remove lib p w)"
    using conjunct2 [OF conjunct2 [OF conjunct2 [OF conjunct2 [OF conjunct2 [OF conjunct2 [OF conjunct2 [OF conjunct2 [OF T]]]]]]]] by blast
qed

lemma on_file_step: "preorder R \<Longrightarrow> on_file V p w w' \<Longrightarrow> step V R {p} w w'"
  by (simp add: on_file_def step_def preorder_def)

lemma on_file_refs: "on_file V p w w' \<Longrightarrow> v_refs V w' = v_refs V w"
  by (simp add: on_file_def)

subsection \<open>Merging\<close>

lemma int64_idem: "int64 (int64 a + b) = int64 (a + b)"
  by (simp add: int64_def mod_simps algebra_simps)

text \<open>Copying row groups: the output stays ours, and on success the buffer has grown by the rows of the groups.\<close>

lemma merge_groups_ok:
  assumes R: "preorder R" and O: "others_law V P R others" and L: "parquet_laws V P lib"
    and run: "merge_groups lib others sc ch out src rd rgs tot w = (r, w')" and m: "mine V out w"
  shows "step V R {out} w w' \<and> mine V out w' \<and>
    (\<forall>n. r = Inr n \<longrightarrow> pv_pending P w' = pv_pending P w + (\<Sum>i\<leftarrow>rgs. pv_group P rd i) \<and>
      int64 n = int64 (tot + int (size (\<Sum>i\<leftarrow>rgs. pv_group P rd i))))"
  using run m
proof (induction rgs arbitrary: tot w)
  case Nil
  then show ?case using R by (auto simp: step_refl)
next
  case (Cons rg rgs)
  have o: "step V R {} w (others w)" "pv_pending P (others w) = pv_pending P w" using O by (simp_all add: others_law_def)
  have mo: "mine V out (others w)" using mine_step [OF o(1)] Cons.prems(2) by simp
  have same: ?case if "w' = w" "\<forall>n. r \<noteq> Inr n" using that R Cons.prems(2) by (simp add: step_refl)
  show ?case
  proof (cases "pq_read lib rd rg")
    case (Inl e)
    with Cons.prems(1) show ?thesis by (intro same) auto
  next
    case (Inr tbl)
    show ?thesis
    proof (cases "if ch \<noteq> [] then pq_retype lib tbl sc ch else Inr tbl")
      case (Inl e)
      with Cons.prems(1) \<open>pq_read lib rd rg = Inr tbl\<close> show ?thesis by (intro same) (auto simp: Let_def)
    next
      case (Inr t)
      have rows: "pv_rows P t = pv_group P rd rg" "pv_rows P tbl = pv_group P rd rg"
        using Inr parquet_lawsD(2) [OF L \<open>pq_read lib rd rg = Inr tbl\<close>] parquet_lawsD(4) [OF L, of tbl sc ch t]
        by (auto split: if_splits)
      obtain e w1 where fw: "fw_write lib out t (if pq_num_rows lib tbl \<le> 0 then 1 else pq_num_rows lib tbl) (others w) = (e, w1)"
        by (meson surj_pair)
      have f: "on_file V out (others w) w1" "v_content V w1 out \<noteq> None" "e = None \<longrightarrow> pv_pending P w1 = pv_pending P w + pv_group P rd rg"
        using parquet_lawsD(7) [OF L _ fw] mo o(2) rows by (simp_all add: mine_def)
      have s1: "step V R {out} w w1"
        using step_trans [OF R o(1) on_file_step [OF R f(1)]] by simp
      have m1: "mine V out w1" using f mo by (simp add: mine_def on_file_def)
      show ?thesis
      proof (cases e)
        case (Some x)
        with Cons.prems(1) \<open>pq_read lib rd rg = Inr tbl\<close> Inr fw have "w' = w1" "\<forall>n. r \<noteq> Inr n"
          by (auto simp: Let_def)
        with s1 m1 show ?thesis by simp
      next
        case None
        with Cons.prems(1) \<open>pq_read lib rd rg = Inr tbl\<close> Inr fw
        have "merge_groups lib others sc ch out src rd rgs (int64 (tot + pq_num_rows lib tbl)) w1 = (r, w')"
          by (auto simp: Let_def)
        from Cons.IH [OF this m1] step_trans_same [OF R s1] f(3) None show ?thesis
          by (simp add: parquet_lawsD(3) [OF L] rows int64_idem add.assoc)
      qed
    qed
  qed
qed

lemma files_rows_Cons: "m p = Some c \<Longrightarrow> files_rows m (p # ps) = c + files_rows m ps"
  by (simp add: files_rows_def)

lemma files_rows_Nil [simp]: "files_rows m [] = {#}"
  by (simp add: files_rows_def)

lemma files_rows_append [simp]: "files_rows m (ps @ qs) = files_rows m ps + files_rows m qs"
  by (simp add: files_rows_def)

lemma files_rows_cong: "(\<And>p. p \<in> set ps \<Longrightarrow> m p = m' p) \<Longrightarrow> files_rows m ps = files_rows m' ps"
  unfolding files_rows_def by (intro arg_cong [where f = sum_list] map_cong) auto

lemma files_rows_step:
  assumes "step V R X w w'" "\<forall>p\<in>set ps. p \<notin> X \<and> v_content V w p \<noteq> None"
  shows "files_rows (v_content V w') ps = files_rows (v_content V w) ps"
  using assms by (intro files_rows_cong) (auto simp: step_def)

lemma merge_sources_ok:
  assumes R: "preorder R" and O: "others_law V P R others" and L: "parquet_laws V P lib"
    and run: "merge_sources lib others sc ch out first srcs tot w = (r, w')" and m: "mine V out w"
    and disk: "out \<notin> set srcs" "\<forall>s\<in>set srcs. v_content V w s \<noteq> None"
    and first: "\<forall>rd. first = Some rd \<longrightarrow> v_content V w (hd srcs) = Some (\<Sum>i\<leftarrow>[0..<pq_groups lib rd]. pv_group P rd i)"
  shows "step V R {out} w w' \<and> mine V out w' \<and>
    (\<forall>n. r = Inr n \<longrightarrow> pv_pending P w' = pv_pending P w + files_rows (v_content V w) srcs \<and>
      int64 n = int64 (tot + int (size (files_rows (v_content V w) srcs))))"
  using run m disk first
proof (induction srcs arbitrary: first tot w)
  case Nil
  then show ?case using R by (auto simp: step_refl)
next
  case (Cons src srcs)
  have same: ?case if "w' = w" "\<forall>n. r \<noteq> Inr n" using that R Cons.prems(2) by (simp add: step_refl)
  show ?case
  proof (cases "case first of Some rd \<Rightarrow> Inr rd | None \<Rightarrow> pq_open lib src w")
    case (Inl e)
    with Cons.prems(1) show ?thesis by (intro same) auto
  next
    case (Inr rd)
    then have c: "v_content V w src = Some (\<Sum>i\<leftarrow>[0..<pq_groups lib rd]. pv_group P rd i)"
      using Cons.prems(5) parquet_lawsD(1) [OF L, of src w rd] by (cases first) auto
    show ?thesis
    proof (cases "pq_arrow lib rd")
      case (Some e)
      with Cons.prems(1) Inr show ?thesis by (intro same) auto
    next
      case None
      obtain g w1 where g: "merge_groups lib others sc ch out src rd [0..<pq_groups lib rd] tot w = (g, w1)" by (meson surj_pair)
      note G = merge_groups_ok [OF R O L g Cons.prems(2)]
      show ?thesis
      proof (cases g)
        case (Inl e)
        with Cons.prems(1) Inr None g have "w' = w1" "\<forall>n. r \<noteq> Inr n" by auto
        with G show ?thesis by simp
      next
        case (Inr k)
        with Cons.prems(1) \<open>(case first of Some rd \<Rightarrow> Inr rd | None \<Rightarrow> pq_open lib src w) = Inr rd\<close> None g
        have rest: "merge_sources lib others sc ch out None srcs k w1 = (r, w')" by simp
        have s1: "step V R {out} w w1" and m1: "mine V out w1" using G by simp_all
        have disk': "out \<notin> set srcs" "\<forall>s\<in>set srcs. v_content V w1 s \<noteq> None"
          using Cons.prems(3,4) s1 by (auto simp: step_def)
        have same_rows: "files_rows (v_content V w1) srcs = files_rows (v_content V w) srcs"
          using Cons.prems(3,4) by (intro files_rows_step [OF s1]) auto
        have k: "pv_pending P w1 = pv_pending P w + (\<Sum>i\<leftarrow>[0..<pq_groups lib rd]. pv_group P rd i)"
          "int64 k = int64 (tot + int (size (\<Sum>i\<leftarrow>[0..<pq_groups lib rd]. pv_group P rd i)))"
          using G Inr by simp_all
        have "int64 (k + n) = int64 (tot + int (size (\<Sum>i\<leftarrow>[0..<pq_groups lib rd]. pv_group P rd i)) + n)" for n
          by (metis int64_idem k(2))
        with Cons.IH [OF rest m1 disk'] step_trans_same [OF R s1] k show ?thesis
          by (simp add: same_rows files_rows_Cons [of "v_content V w", OF c] add.assoc)
      qed
    qed
  qed
qed

text \<open>
  Merging leaves the lake as it is, on every path; when it succeeds, the new file holds exactly the rows of
  its sources and the reported count is their number.
\<close>

lemma mergeParquetFiles_ok:
  assumes R: "preorder R" and O: "others_law V P R others" and L: "parquet_laws V P lib"
    and run: "mergeParquetFiles lib others srcs out w = (r, w')"
    and fresh: "out \<notin> v_refs V w" "v_content V w out = None" and disk: "\<forall>s\<in>set srcs. v_content V w s \<noteq> None"
  shows "step V R {} w w' \<and>
    (\<forall>mr. r = Inr mr \<longrightarrow> mine V out w' \<and> v_content V w' out = Some (files_rows (v_content V w) srcs) \<and>
      int64 (mr_recordCount mr) = int64 (int (size (files_rows (v_content V w) srcs))))"
proof -
  have out: "out \<notin> set srcs" using fresh(2) disk by auto
  have unmoved: ?thesis if "w' = w" "\<forall>mr. r \<noteq> Inr mr" using that R by (simp add: step_refl)
  have failed: ?thesis if "step V R {out} w w'" "\<forall>mr. r \<noteq> Inr mr"
    using step_fresh [OF that(1)] fresh(2) that(2) by simp
  show ?thesis
  proof (cases "\<exists>first schema sc ch codec. srcs \<noteq> [] \<and> pq_open lib (hd srcs) w = Inr first \<and> pq_arrow lib first = None \<and>
      pq_schema lib first = Inr schema \<and> jsonAnnotatedSchema lib schema (jsonLogicalColumns (pq_columns lib first)) = Inr (sc, ch) \<and>
      codec = (if pq_groups lib first > 0 then case pq_codec lib first of Some c \<Rightarrow> c | None \<Rightarrow> ''SNAPPY'' else ''SNAPPY'') \<and>
      verifyRoundTrip lib (pq_columns lib first) sc codec = None")
    case False
    with run show ?thesis
      by (intro unmoved) (auto simp: mergeParquetFiles_def Let_def split: sum.splits option.splits prod.splits if_splits)
  next
    case True
    then obtain first schema sc ch codec where pre: "srcs \<noteq> []" "pq_open lib (hd srcs) w = Inr first" "pq_arrow lib first = None"
      "pq_schema lib first = Inr schema" "jsonAnnotatedSchema lib schema (jsonLogicalColumns (pq_columns lib first)) = Inr (sc, ch)"
      "codec = (if pq_groups lib first > 0 then case pq_codec lib first of Some c \<Rightarrow> c | None \<Rightarrow> ''SNAPPY'' else ''SNAPPY'')"
      "verifyRoundTrip lib (pq_columns lib first) sc codec = None" by blast
    obtain e1 w1 where c1: "fs_create lib out w = (e1, w1)" by (meson surj_pair)
    obtain e2 w2 where c2: "fw_open lib sc codec out w1 = (e2, w2)" by (meson surj_pair)
    obtain g w3 where c3: "merge_sources lib others sc ch out (Some first) srcs 0 w2 = (g, w3)" by (meson surj_pair)
    obtain e4 w4 where c4: "fw_close lib out w3 = (e4, w4)" by (meson surj_pair)
    have s1: "step V R {out} w w1" and r1: "out \<notin> v_refs V w1" and n1: "e1 = None \<Longrightarrow> v_content V w1 out \<noteq> None"
      using parquet_lawsD(5) [OF L fresh(1) c1] fresh(1) on_file_step [OF R, of V out w w1] by (auto simp: on_file_def)
    have "on_file V out w1 w2" "v_content V w1 out \<noteq> None \<longrightarrow> v_content V w2 out \<noteq> None"
      and p2: "e2 = None \<longrightarrow> pv_pending P w2 = {#}" using parquet_lawsD(6) [OF L r1 c2] by simp_all
    then have s2: "step V R {out} w w2" and r2: "out \<notin> v_refs V w2" and m2: "e1 = None \<Longrightarrow> mine V out w2"
      using step_trans_same [OF R s1 on_file_step [OF R]] n1 r1 by (auto simp: on_file_def mine_def)
    have disk2: "\<forall>s\<in>set srcs. v_content V w2 s = v_content V w s" using s2 out disk by (auto simp: step_def)
    have run': "(r, w') =
      (if e1 \<noteq> None then (Inl (wrapf (''create '' @ out @ '': '') (the e1)), w1)
       else if e2 \<noteq> None then (Inl (wrapf (''parquet writer '' @ out @ '': '') (the e2)), fs_remove lib out w2)
       else case g of Inl e \<Rightarrow> (Inl e, fs_remove lib out w4)
        | Inr n \<Rightarrow> if e4 \<noteq> None then (Inl (wrapf (''close parquet writer '' @ out @ '': '') (the e4)), fs_remove lib out w4)
            else case fs_size lib out w4 of Inl e \<Rightarrow> (Inl (wrapf (''stat '' @ out @ '': '') e), w4)
              | Inr k \<Rightarrow> (case readParquetFooterSize lib out w4 of Inl e \<Rightarrow> (Inl e, w4)
                  | Inr f \<Rightarrow> (Inr \<lparr>mr_recordCount = n, mr_fileSizeBytes = k, mr_footerSize = f\<rparr>, w4)))"
      using run pre c1 c2 c3 c4 by (cases e1; cases e2; cases g; cases e4) (simp_all add: mergeParquetFiles_def)
    show ?thesis
    proof (cases "e1 = None \<and> e2 = None")
      case False
      have "step V R {out} w (fs_remove lib out w2)"
        using step_trans_same [OF R s2 on_file_step [OF R parquet_lawsD(9) [OF L r2]]] .
      with False run' s1 show ?thesis by (intro failed) (auto split: if_splits)
    next
      case True
      then have ok: "e1 = None" "e2 = None" by auto
      have d2: "\<forall>s\<in>set srcs. v_content V w2 s \<noteq> None"
        "\<forall>rd. Some first = Some rd \<longrightarrow> v_content V w2 (hd srcs) = Some (\<Sum>i\<leftarrow>[0..<pq_groups lib rd]. pv_group P rd i)"
        using disk disk2 parquet_lawsD(1) [OF L pre(2)] pre(1) by simp_all
      note S = merge_sources_ok [OF R O L c3 m2 [OF ok(1)] out d2]
      have s3: "step V R {out} w w3" and m3: "mine V out w3" using S step_trans_same [OF R s2] by blast+
      then have "on_file V out w3 w4" and p4: "e4 = None \<longrightarrow> v_content V w4 out = Some (pv_pending P w3)"
        using parquet_lawsD(8) [OF L _ c4] by (simp_all add: mine_def)
      then have s4: "step V R {out} w w4" and r4: "out \<notin> v_refs V w4"
        using step_trans_same [OF R s3 on_file_step [OF R]] m3 by (auto simp: on_file_def mine_def)
      have s5: "step V R {out} w (fs_remove lib out w4)"
        using step_trans_same [OF R s4 on_file_step [OF R parquet_lawsD(9) [OF L r4]]] .
      have rows: "files_rows (v_content V w2) srcs = files_rows (v_content V w) srcs"
        using disk2 by (intro files_rows_cong) simp
      show ?thesis
      proof (cases "\<exists>n. g = Inr n \<and> e4 = None")
        case False
        with ok run' s5 show ?thesis by (intro failed) (auto split: sum.splits if_splits)
      next
        case True
        then obtain n where n: "g = Inr n" "e4 = None" by blast
        then have w': "w' = w4" "\<forall>mr. r = Inr mr \<longrightarrow> mr_recordCount mr = n" using ok run' by (auto split: sum.splits)
        have "int64 n = int64 (int (size (files_rows (v_content V w) srcs)))" "v_content V w4 out = Some (files_rows (v_content V w) srcs)"
          using S n ok p2 p4 rows by simp_all
        with w' r4 step_fresh [OF s4] fresh(2) show ?thesis by (simp add: mine_def)
      qed
    qed
  qed
qed

subsection \<open>The swap\<close>

lemma lake_lawsD:
  assumes "lake_laws V sql lake tbl pk"
  shows "tx_laws V sql"
    "sql_count sql (tableRef lake tbl) (pk_predicate pk val) w = (r, w') \<Longrightarrow>
       same_world V w w' \<and> (\<forall>n. r = Inr n \<longrightarrow> n = int (size (v_live V w (lake, tbl, v_cast V val))) \<and> n < 2 ^ 63)"
    "sql_delete sql (tableRef lake tbl) (pk_predicate pk val) w = (e, w') \<Longrightarrow>
       v_content V w' = v_content V w \<and> v_saved V w' = v_saved V w \<and>
       (e = None \<longrightarrow> v_live V w' = (v_live V w)((lake, tbl, v_cast V val) := {#}) \<and> v_refs V w' \<subseteq> v_refs V w)"
    "sql_add sql (quoteLiteral lake) (quoteLiteral tbl) (map quoteLiteral ps) w = (e, w') \<Longrightarrow>
       v_content V w' = v_content V w \<and> v_saved V w' = v_saved V w \<and>
       (e = None \<longrightarrow>
         (\<forall>p\<in>set ps. v_content V w p \<noteq> None) \<and> v_refs V w' = v_refs V w \<union> set ps \<and>
         (\<forall>l t v. v_live V w' (l, t, v) =
            v_live V w (l, t, v) + (if l = lake \<and> t = tbl then added_rows V w ps v else {#})))"
proof -
  note L = assms [unfolded lake_laws_def]
  show "tx_laws V sql" using L by blast
  show "sql_count sql (tableRef lake tbl) (pk_predicate pk val) w = (r, w') \<Longrightarrow>
       same_world V w w' \<and> (\<forall>n. r = Inr n \<longrightarrow> n = int (size (v_live V w (lake, tbl, v_cast V val))) \<and> n < 2 ^ 63)"
    using L unfolding count_law_def by blast
  show "sql_delete sql (tableRef lake tbl) (pk_predicate pk val) w = (e, w') \<Longrightarrow>
       v_content V w' = v_content V w \<and> v_saved V w' = v_saved V w \<and>
       (e = None \<longrightarrow> v_live V w' = (v_live V w)((lake, tbl, v_cast V val) := {#}) \<and> v_refs V w' \<subseteq> v_refs V w)"
    using L unfolding delete_law_def by blast
  show "sql_add sql (quoteLiteral lake) (quoteLiteral tbl) (map quoteLiteral ps) w = (e, w') \<Longrightarrow>
       v_content V w' = v_content V w \<and> v_saved V w' = v_saved V w \<and>
       (e = None \<longrightarrow>
         (\<forall>p\<in>set ps. v_content V w p \<noteq> None) \<and> v_refs V w' = v_refs V w \<union> set ps \<and>
         (\<forall>l t v. v_live V w' (l, t, v) =
            v_live V w (l, t, v) + (if l = lake \<and> t = tbl then added_rows V w ps v else {#})))"
    using L unfolding add_law_def by blast
qed

lemma count_rows_ok:
  assumes "lake_laws V sql lake tbl pk" "count_rows sql (tableRef lake tbl) (pk_predicate pk val) stage w = (r, w')"
  shows "same_world V w w' \<and> (\<forall>n. r = Inr n \<longrightarrow> n = int (size (v_live V w (lake, tbl, v_cast V val))) \<and> n < 2 ^ 63)"
proof -
  obtain r0 w0 where c: "sql_count sql (tableRef lake tbl) (pk_predicate pk val) w = (r0, w0)" by (meson surj_pair)
  have "w0 = w'" "\<forall>n. r = Inr n \<longrightarrow> r0 = Inr n"
    using assms(2) c by (auto simp: count_rows_def split: sum.splits)
  with lake_lawsD(2) [OF assms(1) c] show ?thesis by simp
qed

text \<open>What a body does to the world: on success it replaces the rows of the slot by those of the merged files.\<close>

lemma swap_body_ok:
  assumes L: "lake_laws V sql lake tbl pk" and run: "swap_body sql lake tbl pk val n ps w = (e, w')"
  shows "v_content V w' = v_content V w \<and> v_saved V w' = v_saved V w \<and>
    (e = None \<longrightarrow>
      int (size (v_live V w (lake, tbl, v_cast V val))) = n \<and> n < 2 ^ 63 \<and> int (size (v_live V w' (lake, tbl, v_cast V val))) = n \<and>
      (\<forall>p\<in>set ps. v_content V w p \<noteq> None) \<and> v_refs V w' \<subseteq> v_refs V w \<union> set ps \<and>
      (\<forall>l t v. v_live V w' (l, t, v) =
         ((v_live V w)((lake, tbl, v_cast V val) := {#})) (l, t, v) + (if l = lake \<and> t = tbl then added_rows V w ps v else {#})))"
proof -
  let ?ref = "tableRef lake tbl" and ?pred = "pk_predicate pk val"
  obtain r1 w1 where 1: "count_rows sql ?ref ?pred ''before'' w = (r1, w1)" by (meson surj_pair)
  obtain e2 w2 where 2: "sql_delete sql ?ref ?pred w1 = (e2, w2)" by (meson surj_pair)
  obtain e3 w3 where 3: "sql_add sql (quoteLiteral lake) (quoteLiteral tbl) (map quoteLiteral ps) w2 = (e3, w3)" by (meson surj_pair)
  obtain r4 w4 where 4: "count_rows sql ?ref ?pred ''after'' w3 = (r4, w4)" by (meson surj_pair)
  obtain e5 w5 where 5: "sql_commit sql w4 = (e5, w5)" by (meson surj_pair)
  note f1 = count_rows_ok [OF L 1] and f2 = lake_lawsD(3) [OF L 2] and f3 = lake_lawsD(4) [OF L 3]
    and f4 = count_rows_ok [OF L 4] and f5 = tx_lawsD(9) [OF lake_lawsD(1) [OF L] 5]
  note s1 = same_worldD [OF conjunct1 [OF f1]] and s4 = same_worldD [OF conjunct1 [OF f4]]
  show ?thesis
  proof (cases "\<exists>b a. r1 = Inr b \<and> b = n \<and> e2 = None \<and> e3 = None \<and> r4 = Inr a \<and> a = n")
    case True
    then have ok: "r1 = Inr n" "e2 = None" "e3 = None" "r4 = Inr n" by auto
    then have out: "w' = w5" "e = None \<longrightarrow> e5 = None"
      using run 1 2 3 4 5 by (auto simp: swap_body_def Let_def split: option.splits)
    have content: "v_content V w5 = v_content V w" "v_saved V w5 = v_saved V w"
      using f2 f3 f5 s1 s4 by simp_all
    have added: "added_rows V w2 ps v = added_rows V w ps v" for v
      using f2 s1 by (simp add: added_rows_def)
    show ?thesis
    proof (intro conjI impI)
      show "v_content V w' = v_content V w" "v_saved V w' = v_saved V w" using content out by simp_all
      assume "e = None"
      with out have e5: "e5 = None" by simp
      have 6: "v_live V w5 = v_live V w4" "v_refs V w5 = v_refs V w4"
        using tx_lawsD(10) [OF lake_lawsD(1) [OF L] 5 [unfolded e5]] by simp_all
      show "int (size (v_live V w (lake, tbl, v_cast V val))) = n" "n < 2 ^ 63" using f1 ok by auto
      show "int (size (v_live V w' (lake, tbl, v_cast V val))) = n" using f4 s4 6 ok out by auto
      show "\<forall>p\<in>set ps. v_content V w p \<noteq> None" using f2 f3 s1 ok by auto
      show "v_refs V w' \<subseteq> v_refs V w \<union> set ps" using f2 f3 s1 s4 6 ok out by auto
      show "\<forall>l t v. v_live V w' (l, t, v) =
         ((v_live V w)((lake, tbl, v_cast V val) := {#})) (l, t, v) + (if l = lake \<and> t = tbl then added_rows V w ps v else {#})"
        using f2 f3 s1 s4 6 ok out added by simp
    qed
  next
    case False
    have *: "v_content V w3 = v_content V w" "v_saved V w3 = v_saved V w" "v_content V w4 = v_content V w" "v_saved V w4 = v_saved V w"
      "v_content V w2 = v_content V w" "v_saved V w2 = v_saved V w" "v_content V w1 = v_content V w" "v_saved V w1 = v_saved V w"
      using f2 f3 s1 s4 by simp_all
    from False run 1 2 3 4 5 have "w' \<in> {w1, w2, w3, w4} \<and> e \<noteq> None"
      by (auto simp: swap_body_def Let_def split: option.splits sum.splits if_splits)
    with * show ?thesis by auto
  qed
qed

text \<open>
  The swap: on an error the lake is as it was; on success the slot holds exactly the rows of the merged files,
  the other slots are unchanged, and the number of rows is what it was.
\<close>

lemma swapPartition_cases:
  assumes L: "lake_laws V sql lake tbl pk" and run: "swapPartition sql lake tbl pk val n ps w = (e, w')"
    and part: "\<forall>p\<in>set ps. v_part V p = v_cast V val"
  shows "v_content V w' = v_content V w \<and>
    (e \<noteq> None \<longrightarrow> v_live V w' = v_live V w \<and> v_refs V w' = v_refs V w) \<and>
    (e = None \<longrightarrow> v_refs V w' \<subseteq> v_refs V w \<union> set ps \<and> (\<forall>p\<in>set ps. v_content V w p \<noteq> None) \<and>
      int (size (v_live V w (lake, tbl, v_cast V val))) = n \<and> n < 2 ^ 63 \<and> int (size (files_rows (v_content V w) ps)) = n \<and>
      v_live V w' = (v_live V w)((lake, tbl, v_cast V val) := files_rows (v_content V w) ps))"
proof -
  note A = with_tx_atomic [OF lake_lawsD(1) [OF L] run [unfolded swapPartition_def]]
  have frame: "\<forall>v x v'. swap_body sql lake tbl pk val n ps v = (x, v') \<longrightarrow> v_content V v' = v_content V v \<and> v_saved V v' = v_saved V v"
    using swap_body_ok [OF L] by blast
  note A = A [OF frame]
  have "added_rows V w ps v = (if v = v_cast V val then files_rows (v_content V w) ps else {#})" for v w
    using part by (auto simp: added_rows_def files_rows_def filter_empty_conv intro!: arg_cong [where f = sum_list] map_cong)
  then have new: "((v_live V v)((lake, tbl, v_cast V val) := {#})) (l, t, u) + (if l = lake \<and> t = tbl then added_rows V v ps u else {#}) =
      ((v_live V v)((lake, tbl, v_cast V val) := files_rows (v_content V v) ps)) (l, t, u)" for v l t u
    by auto
  have "v_content V w' = v_content V w \<and> (e \<noteq> None \<longrightarrow> v_live V w' = v_live V w \<and> v_refs V w' = v_refs V w)" using A by simp
  moreover have "e = None \<longrightarrow> v_refs V w' \<subseteq> v_refs V w \<union> set ps \<and> (\<forall>p\<in>set ps. v_content V w p \<noteq> None) \<and>
      int (size (v_live V w (lake, tbl, v_cast V val))) = n \<and> n < 2 ^ 63 \<and> int (size (files_rows (v_content V w) ps)) = n \<and>
      v_live V w' = (v_live V w)((lake, tbl, v_cast V val) := files_rows (v_content V w) ps)"
    proof
      assume "e = None"
      with A obtain v v' where b: "swap_body sql lake tbl pk val n ps v = (None, v')"
        and v: "v_live V v = v_live V w" "v_refs V v = v_refs V w" "v_content V v = v_content V w"
          "v_live V w' = v_live V v'" "v_refs V w' = v_refs V v'" by auto
      note B = swap_body_ok [OF L b]
      have live: "v_live V v' = (v_live V v)((lake, tbl, v_cast V val) := files_rows (v_content V v) ps)"
        using B new by (intro ext) (metis prod_cases3)
      with B v show "v_refs V w' \<subseteq> v_refs V w \<union> set ps \<and> (\<forall>p\<in>set ps. v_content V w p \<noteq> None) \<and>
        int (size (v_live V w (lake, tbl, v_cast V val))) = n \<and> n < 2 ^ 63 \<and> int (size (files_rows (v_content V w) ps)) = n \<and>
        v_live V w' = (v_live V w)((lake, tbl, v_cast V val) := files_rows (v_content V w) ps)" by simp
    qed
  ultimately show ?thesis by blast
qed

lemma mset_eq_of_size: "A \<subseteq># B \<Longrightarrow> size A = size B \<Longrightarrow> A = B"
  by (metis mset_subset_size order_less_irrefl subset_mset.le_imp_less_or_eq)

text \<open>If the merged rows are among the live rows of the slot, the row counts prove that they are the live rows.\<close>

lemma swapPartition_keeps:
  assumes L: "lake_laws V sql lake tbl pk" and run: "swapPartition sql lake tbl pk val n ps w = (e, w')"
    and part: "\<forall>p\<in>set ps. v_part V p = v_cast V val"
    and sub: "files_rows (v_content V w) ps \<subseteq># v_live V w (lake, tbl, v_cast V val)"
  shows "v_content V w' = v_content V w \<and> v_live V w' = v_live V w \<and> v_refs V w' \<subseteq> v_refs V w \<union> set ps \<and>
    (e \<noteq> None \<longrightarrow> v_refs V w' = v_refs V w)"
proof (cases e)
  case None
  then have "size (v_live V w (lake, tbl, v_cast V val)) = size (files_rows (v_content V w) ps)"
    using swapPartition_cases [OF L run part] by auto
  then have "files_rows (v_content V w) ps = v_live V w (lake, tbl, v_cast V val)" using mset_eq_of_size [OF sub] by simp
  with swapPartition_cases [OF L run part] None show ?thesis by auto
qed (use swapPartition_cases [OF L run part] in auto)

subsection \<open>A partition\<close>

text \<open>A fresh UUID names a path that is neither on disk nor registered.\<close>

definition uuid_law where
  "uuid_law V P env opts \<longleftrightarrow>
     (\<forall>w u w'. ce_uuid env w = (u, w') \<longrightarrow>
        same_world V w w' \<and> pv_pending P w' = pv_pending P w \<and>
        (\<forall>meta f. output_abs opts meta u f \<notin> v_refs V w \<and> v_content V w (output_abs opts meta u f) = None))"

lemma remove_all_ok:
  assumes R: "preorder R" and L: "parquet_laws V P lib" and ps: "\<forall>p\<in>set ps. p \<notin> v_refs V w"
  shows "step V R (set ps) w (remove_all lib ps w) \<and> v_refs V (remove_all lib ps w) = v_refs V w"
  using ps
proof (induction ps arbitrary: w)
  case Nil
  then show ?case using R by (simp add: remove_all_def step_refl)
next
  case (Cons p ps)
  have f: "on_file V p w (fs_remove lib p w)" using parquet_lawsD(9) [OF L] Cons.prems by simp
  then have r: "v_refs V (fs_remove lib p w) = v_refs V w" by (rule on_file_refs)
  have "step V R (set ps) (fs_remove lib p w) (remove_all lib ps (fs_remove lib p w)) \<and>
      v_refs V (remove_all lib ps (fs_remove lib p w)) = v_refs V (fs_remove lib p w)"
    using Cons.prems r by (intro Cons.IH) simp
  then show ?case using step_trans [OF R on_file_step [OF R f]] r by (simp add: remove_all_def)
qed

text \<open>The files written so far, seen from the state \<open>w0\<close> in which the merge began.\<close>

definition written_ok where
  "written_ok V w0 w ps \<longleftrightarrow> (\<forall>p\<in>set ps. mine V p w \<and> v_content V w0 p = None)"

lemma written_ok_step: "written_ok V w0 w ps \<Longrightarrow> step V R {} w w' \<Longrightarrow> written_ok V w0 w' ps"
  by (auto simp: written_ok_def intro: mine_step)

lemma cleanup_ok:
  assumes "preorder R" "parquet_laws V P lib" "step V R {} w0 w" "written_ok V w0 w ps"
  shows "step V R {} w0 (remove_all lib ps w)"
proof -
  have "step V R (set ps) w (remove_all lib ps w)"
    using remove_all_ok [OF assms(1,2)] assms(4) by (auto simp: written_ok_def mine_def)
  then have "step V R ({} \<union> set ps) w0 (remove_all lib ps w)" by (rule step_trans [OF assms(1,3)])
  then show ?thesis using assms(4) by (intro step_fresh) (auto simp: written_ok_def)
qed

lemma others_step: "others_law V P R others \<Longrightarrow> step V R {} w (others w)"
  by (simp add: others_law_def)

lemma merge_batches_ok:
  fixes env :: "('w, 'rd, 'tbl, 'ty) compact_env" and V :: "('w, 'p, 'r) lake_view"
  assumes R: "preorder R" and O: "others_law V P R (ce_others env)" and L: "parquet_laws V P (ce_lib env)" and U: "uuid_law V P env opts"
    and hive: "\<forall>u. \<forall>f\<in>set files. v_part V (output_abs opts meta u f) = v"
    and run: "merge_batches env opts meta partVal files batches (written, n, pr) w = (r, w')"
    and batches: "\<forall>b\<in>set batches. b \<noteq> [] \<and> (\<forall>i\<in>set b. i < length files)"
    and disk: "\<forall>f\<in>set files. v_content V w0 (source_abs opts meta f) \<noteq> None"
    and start: "step V R {} w0 w" "written_ok V w0 w written" "\<forall>p\<in>set written. v_part V p = v"
      "int64 n = int64 (int (size (files_rows (v_content V w) written)))"
  shows "step V R {} w0 w' \<and>
    (\<forall>written' n' pr'. r = Inr (written', n', pr') \<longrightarrow>
      written_ok V w0 w' written' \<and> (\<forall>p\<in>set written'. v_part V p = v) \<and>
      int64 n' = int64 (int (size (files_rows (v_content V w') written'))) \<and>
      files_rows (v_content V w') written' =
        files_rows (v_content V w) written + files_rows (v_content V w0) (map (\<lambda>i. source_abs opts meta (files ! i)) (concat batches)))"
  using run batches start
proof (induction batches arbitrary: written n pr w)
  case Nil
  then show ?case by auto
next
  case (Cons batch batches)
  let ?src = "\<lambda>i. source_abs opts meta (files ! i)"
  let ?srcs = "map ?src batch"
  note inv = Cons.prems(3,4)
  have stop: ?case if "w' = remove_all (ce_lib env) written v" "\<forall>x. r \<noteq> Inr x" "step V R {} w v" for v
    using cleanup_ok [OF R L step_trans_same [OF R inv(1) that(3)] written_ok_step [OF inv(2) that(3)]] that by simp
  show ?case
  proof (cases "ce_ctx env w")
    case (Some e)
    with Cons.prems(1) show ?thesis by (intro stop [of w]) (auto simp: step_refl [OF R])
  next
    case None
    obtain u w1 where u: "ce_uuid env (ce_others env w) = (u, w1)" by (meson surj_pair)
    let ?out = "output_abs opts meta u (files ! hd batch)"
    obtain m w2 where m: "mergeParquetFiles (ce_lib env) (ce_others env) ?srcs ?out w1 = (m, w2)" by (meson surj_pair)
    have uu: "same_world V (ce_others env w) w1" "?out \<notin> v_refs V (ce_others env w)" "v_content V (ce_others env w) ?out = None"
      using U u by (auto simp: uuid_law_def)
    have s1: "step V R {} w w1" using others_step [OF O, of w] uu(1) by (simp add: step_def same_world_def)
    then have s01: "step V R {} w0 w1" by (rule step_trans_same [OF R inv(1)])
    have fresh: "?out \<notin> v_refs V w1" "v_content V w1 ?out = None" using uu by (simp_all add: same_world_def)
    have idx: "batch \<noteq> []" "\<forall>i\<in>set batch. i < length files" using Cons.prems(2) by auto
    have disk1: "\<forall>s\<in>set ?srcs. v_content V w0 s \<noteq> None" using disk idx by auto
    then have "\<forall>s\<in>set ?srcs. v_content V w1 s \<noteq> None" using s01 by (auto simp: step_def)
    note M = mergeParquetFiles_ok [OF R O L m fresh this]
    have rows: "files_rows (v_content V w1) ?srcs = files_rows (v_content V w0) ?srcs"
      using disk1 by (intro files_rows_step [OF s01]) auto
    have s2: "step V R {} w w2" using M step_trans_same [OF R s1] by blast
    show ?thesis
    proof (cases m)
      case (Inl e)
      with Cons.prems(1) None u m s2 show ?thesis by (intro stop [of w2]) (auto simp: Let_def)
    next
      case (Inr mr)
      have mr: "mine V ?out w2" "v_content V w2 ?out = Some (files_rows (v_content V w0) ?srcs)"
        "int64 (mr_recordCount mr) = int64 (int (size (files_rows (v_content V w0) ?srcs)))"
        using M Inr rows by simp_all
      show ?thesis
      proof (cases "mr_recordCount mr \<noteq> sum64 (map (\<lambda>i. recordCount (files ! i)) batch)")
        case True
        have "step V R {?out} w2 (fs_remove (ce_lib env) ?out w2)"
          using on_file_step [OF R parquet_lawsD(9) [OF L]] mr(1) by (simp add: mine_def)
        then have "step V R {?out} w1 (fs_remove (ce_lib env) ?out w2)"
          using M step_trans [OF R, of V "{}" w1 w2 "{?out}"] by simp
        then have "step V R {} w (fs_remove (ce_lib env) ?out w2)"
          using fresh(2) step_trans_same [OF R s1 step_fresh] by simp
        with Cons.prems(1) None u m Inr True show ?thesis
          by (intro stop [of "fs_remove (ce_lib env) ?out w2"]) (auto simp: Let_def)
      next
        case False
        with Cons.prems(1) None u m Inr
        have rest: "merge_batches env opts meta partVal files batches
            (written @ [?out], int64 (n + mr_recordCount mr),
             \<lparr>pr_filesMerged = pr_filesMerged pr + length batch, pr_filesCreated = Suc (pr_filesCreated pr)\<rparr>) w2 = (r, w')"
          by (auto simp: Let_def)
        have b': "\<forall>b\<in>set batches. b \<noteq> [] \<and> (\<forall>i\<in>set b. i < length files)" using Cons.prems(2) by simp
        have s02: "step V R {} w0 w2" using step_trans_same [OF R inv(1) s2] .
        have "v_content V w0 ?out = None" using s01 fresh(2) unfolding step_def by (metis empty_iff)
        then have w': "written_ok V w0 w2 (written @ [?out])"
          using written_ok_step [OF inv(2) s2] mr(1) by (auto simp: written_ok_def)
        have p': "\<forall>p\<in>set (written @ [?out]). v_part V p = v" using Cons.prems(5) hive idx by auto
        have "files_rows (v_content V w2) written = files_rows (v_content V w) written"
          using inv(2) by (intro files_rows_step [OF s2]) (auto simp: written_ok_def mine_def)
        then have rows2: "files_rows (v_content V w2) (written @ [?out]) = files_rows (v_content V w) written + files_rows (v_content V w0) ?srcs"
          using mr(2) by (simp add: files_rows_Cons [of "v_content V w2" ?out])
        have "int64 (n + mr_recordCount mr) = int64 (int (size (files_rows (v_content V w) written)) + int (size (files_rows (v_content V w0) ?srcs)))"
          using Cons.prems(6) mr(3) by (metis add.commute int64_idem)
        then have n': "int64 (int64 (n + mr_recordCount mr)) = int64 (int (size (files_rows (v_content V w2) (written @ [?out]))))"
          using int64_idem [of _ 0] by (subst rows2) simp
        from Cons.IH [OF rest b' s02 w' p' n', unfolded rows2] show ?thesis by (simp add: add.assoc)
      qed
    qed
  qed
qed

lemma preorder_sub: "preorder R \<Longrightarrow> step V R X w w' \<Longrightarrow> v_live V w s \<subseteq># v_live V w' s"
  unfolding preorder_def step_def by blast

text \<open>One swap attempt, from a state in which the written files are ours and hold a part of the live rows.\<close>

lemma swap_attempt:
  assumes R: "preorder R" and L: "lake_laws V sql lake tbl pk"
    and w: "step V R {} w0 w" "written_ok V w0 w ps" "\<forall>p\<in>set ps. v_part V p = v_cast V val"
    and sub: "files_rows (v_content V w) ps \<subseteq># v_live V w (lake, tbl, v_cast V val)"
    and run: "swapPartition sql lake tbl pk val n ps w = (e, w')"
  shows "step V R {} w0 w' \<and> (e \<noteq> None \<longrightarrow> step V R {} w w' \<and> written_ok V w0 w' ps)"
proof -
  have K: "v_content V w' = v_content V w" "v_live V w' = v_live V w" "v_refs V w' \<subseteq> v_refs V w \<union> set ps"
    "e \<noteq> None \<Longrightarrow> v_refs V w' = v_refs V w"
    using swapPartition_keeps [OF L run w(3) sub] by simp_all
  have "step V R (set ps) w w'" using R K by (auto simp: step_def preorder_def)
  then have "step V R ({} \<union> set ps) w0 w'" by (rule step_trans [OF R w(1)])
  then have 1: "step V R {} w0 w'" using w(2) by (intro step_fresh) (auto simp: written_ok_def)
  moreover have "step V R {} w w' \<and> written_ok V w0 w' ps" if "e \<noteq> None"
    using R K w(2) that by (auto simp: step_def preorder_def written_ok_def mine_def)
  ultimately show ?thesis by blast
qed

lemma compactPartition_ok:
  assumes R: "preorder R" and O: "others_law V P R (ce_others env)" and L: "parquet_laws V P (ce_lib env)" and U: "uuid_law V P env opts"
    and D: "lake_laws V (ce_sql env) (co_LakeName opts) table (tm_partition meta)"
    and hive: "\<forall>u. \<forall>f\<in>set files. v_part V (output_abs opts meta u f) = v_cast V partVal"
    and batches: "\<forall>b\<in>set batches. b \<noteq> [] \<and> (\<forall>i\<in>set b. i < length files)"
    and disk: "\<forall>f\<in>set files. v_content V w (source_abs opts meta f) \<noteq> None"
    and sub: "files_rows (v_content V w) (map (\<lambda>i. source_abs opts meta (files ! i)) (concat batches))
      \<subseteq># v_live V w (co_LakeName opts, table, v_cast V partVal)"
    and run: "compactPartition env opts meta table partVal files batches w = (r, w')"
  shows "step V R {} w w'"
proof -
  let ?slot = "(co_LakeName opts, table, v_cast V partVal)"
  obtain m w1 where m: "merge_batches env opts meta partVal files batches ([], 0, no_partitionResult) w = (m, w1)" by (meson surj_pair)
  have M: "step V R {} w w1 \<and> (\<forall>ps n pr. m = Inr (ps, n, pr) \<longrightarrow>
      written_ok V w w1 ps \<and> (\<forall>p\<in>set ps. v_part V p = v_cast V partVal) \<and>
      int64 n = int64 (int (size (files_rows (v_content V w1) ps))) \<and>
      files_rows (v_content V w1) ps = files_rows (v_content V w) (map (\<lambda>i. source_abs opts meta (files ! i)) (concat batches)))"
    using merge_batches_ok [OF R O L U hive m batches disk step_refl [OF R]] by (simp add: written_ok_def)
  show ?thesis
  proof (cases "\<exists>ps n pr. m = Inr (ps, n, pr) \<and> ps \<noteq> []")
    case False
    with run m M show ?thesis by (auto simp: compactPartition_def split: sum.splits)
  next
    case True
    then obtain ps n pr where ps: "m = Inr (ps, n, pr)" "ps \<noteq> []" by blast
    let ?attempt = "\<lambda>v. swapPartition (ce_sql env) (co_LakeName opts) table (tm_partition meta) partVal n ps (ce_others env v)"
    let ?I = "\<lambda>v. step V R {} w1 v \<and> step V R {} w v \<and> written_ok V w v ps"
    obtain e w2 where t: "withRetryOnLocked (ce_others env) ?attempt w1 = (e, w2)" by (meson surj_pair)
    have rows: "files_rows (v_content V w1) ps = files_rows (v_content V w) (map (\<lambda>i. source_abs opts meta (files ! i)) (concat batches))"
      and part: "\<forall>p\<in>set ps. v_part V p = v_cast V partVal" and I1: "?I w1"
      using M ps step_refl [OF R] by simp_all
    have oth: "?I (ce_others env v)" if "?I v" for v
      using that step_trans_same [OF R _ others_step [OF O]] written_ok_step [OF _ others_step [OF O]] by blast
    have attempt: "step V R {} w v' \<and> (x \<noteq> None \<longrightarrow> ?I v')" if "?I v" "?attempt v = (x, v')" for v x v'
    proof -
      note o = oth [OF that(1)]
      have "files_rows (v_content V (ce_others env v)) ps = files_rows (v_content V w1) ps"
        using o I1 by (intro files_rows_step [of V R "{}"]) (auto simp: written_ok_def mine_def)
      also have "\<dots> \<subseteq># v_live V (ce_others env v) ?slot"
        using sub rows preorder_sub [OF R, of V "{}" w "ce_others env v" ?slot] o by (auto intro: subset_mset.order_trans)
      finally have s: "files_rows (v_content V (ce_others env v)) ps \<subseteq># v_live V (ce_others env v) ?slot" .
      show ?thesis
        using swap_attempt [OF R D _ _ part s that(2), of w] o step_trans_same [OF R, of V "{}" w1 "ce_others env v" v'] by blast
    qed
    have "\<exists>v x. ?I v \<and> ?attempt v = (x, w2) \<and> (e = x \<or> (\<exists>y. x = Some y \<and> e = Some y))"
      using t [unfolded withRetryOnLocked_loop] I1 attempt oth
      by (intro locked.last_attempt [of "ce_others env" ?attempt 3 w1 e w2 ?I]) blast+
    then obtain v x where v: "?I v" "?attempt v = (x, w2)" "e = x" by auto
    from attempt [OF v(1,2)] v(3) have fin: "step V R {} w w2" "e \<noteq> None \<Longrightarrow> ?I w2" by blast+
    have "w' = (if e = None then w2 else remove_all (ce_lib env) ps w2)"
      using run m ps t by (auto simp: compactPartition_def split: option.splits)
    then show ?thesis using fin cleanup_ok [OF R L, of w w2 ps] by auto
  qed
qed

subsection \<open>A table\<close>

text \<open>
  What the catalog says about a table: the files of a partition without row-level deletes are on disk and their
  rows are among the live rows of the partition. The remaining live rows of a partition are those that live in the
  catalog itself (inlined rows).
\<close>

definition catalog_law where
  "catalog_law V env opts table \<longleftrightarrow>
     (\<forall>w meta rows. readTableMeta (ce_md env) (co_LakeName opts) table w = Inr (Some meta) \<longrightarrow>
        md_files (ce_md env) (metadataSchema (co_LakeName opts)) (tableID meta) w = Inr rows \<longrightarrow>
        (\<forall>v. let fs = filter (\<lambda>f. partitionVal f = v) rows in
           \<not> partitionHasDeletes fs \<longrightarrow>
           (\<forall>f\<in>set fs. v_content V w (source_abs opts meta f) \<noteq> None) \<and>
           files_rows (v_content V w) (map (source_abs opts meta) fs) \<subseteq># v_live V w (co_LakeName opts, table, v_cast V v)))"

text \<open>
  The table's own key: DuckLake obeys its laws for the key that the catalog reports, and an output file lies
  in the directory of the partition of its source.
\<close>

definition key_law where
  "key_law V env opts table \<longleftrightarrow>
     (\<forall>w meta. readTableMeta (ce_md env) (co_LakeName opts) table w = Inr (Some meta) \<longrightarrow>
        (usable (tm_partition meta) \<longrightarrow> lake_laws V (ce_sql env) (co_LakeName opts) table (tm_partition meta)) \<and>
        (\<forall>rows. md_files (ce_md env) (metadataSchema (co_LakeName opts)) (tableID meta) w = Inr rows \<longrightarrow>
           (\<forall>u. \<forall>f\<in>set rows. v_part V (output_abs opts meta u f) = v_cast V (partitionVal f))))"

text \<open>Grouping: each group holds the rows of the query with its partition value.\<close>

lemma group_add_keys: "fst ` set (group_add f gs) = insert (partitionVal f) (fst ` set gs)"
proof (induction gs)
  case (Cons g gs)
  then show ?case by (cases g) (simp add: insert_commute)
qed simp

lemma group_add_distinct: "distinct (map fst gs) \<Longrightarrow> distinct (map fst (group_add f gs))"
proof (induction gs)
  case (Cons g gs)
  have "set (map fst (group_add f gs)) = insert (partitionVal f) (set (map fst gs))" using group_add_keys [of f gs] by simp
  with Cons show ?case by (cases g) auto
qed simp

lemma group_add_mem:
  "(v, fs') \<in> set (group_add f gs) \<Longrightarrow> distinct (map fst gs) \<Longrightarrow>
     (v \<noteq> partitionVal f \<and> (v, fs') \<in> set gs) \<or>
     (v = partitionVal f \<and> ((\<exists>fs. (v, fs) \<in> set gs \<and> fs' = fs @ [f]) \<or> (v \<notin> fst ` set gs \<and> fs' = [f])))"
proof (induction gs)
  case (Cons g gs)
  obtain a b where g: "g = (a, b)" by (cases g)
  show ?case
  proof (cases "a = partitionVal f")
    case True
    have "partitionVal f \<notin> fst ` set gs" using Cons.prems(2) g True by simp
    then have "v \<noteq> partitionVal f" if "(v, fs') \<in> set gs" using that by (force simp: image_iff)
    with Cons.prems g True show ?thesis by auto
  next
    case False
    then have "(v, fs') = (a, b) \<or> (v, fs') \<in> set (group_add f gs)" using Cons.prems(1) g by simp
    with Cons.IH Cons.prems(2) g False show ?thesis by auto
  qed
qed simp

lemma groups_filter:
  "distinct (map fst (fold group_add rows [])) \<and> fst ` set (fold group_add rows []) = partitionVal ` set rows \<and>
   (\<forall>(v, fs)\<in>set (fold group_add rows []). fs = filter (\<lambda>f. partitionVal f = v) rows)"
proof (induction rows rule: rev_induct)
  case Nil
  then show ?case by simp
next
  case (snoc f rows)
  let ?gs = "fold group_add rows []"
  have "fs = filter (\<lambda>g. partitionVal g = v) (rows @ [f])" if mem: "(v, fs) \<in> set (group_add f ?gs)" for v fs
  proof -
    consider "v \<noteq> partitionVal f" "(v, fs) \<in> set ?gs"
      | fs0 where "v = partitionVal f" "(v, fs0) \<in> set ?gs" "fs = fs0 @ [f]"
      | "v = partitionVal f" "v \<notin> fst ` set ?gs" "fs = [f]"
      using group_add_mem [OF mem] snoc by blast
    then show ?thesis
    proof cases
      case 3
      then have "v \<notin> partitionVal ` set rows" using snoc by simp
      then have "filter (\<lambda>g. partitionVal g = v) rows = []" by (force simp: filter_empty_conv)
      with 3 show ?thesis by simp
    qed (use snoc in fastforce)+
  qed
  then show ?case using snoc by (auto simp: group_add_keys group_add_distinct)
qed

lemma activeFilesByPartition_groups:
  assumes "activeFilesByPartition md lake tid w = Inr parts" "(v, fs) \<in> set parts"
  shows "\<exists>rows. md_files md (metadataSchema lake) tid w = Inr rows \<and> mset fs = mset (filter (\<lambda>f. partitionVal f = v) rows)"
proof -
  obtain rows where r: "md_files md (metadataSchema lake) tid w = Inr rows"
    using assms(1) by (auto simp: activeFilesByPartition_def split: sum.splits)
  then obtain gs where "(v, gs) \<in> set (fold group_add rows [])" "mset fs = mset gs"
    using assms by (auto simp: activeFilesByPartition_def)
  moreover from this have "gs = filter (\<lambda>f. partitionVal f = v) rows" using groups_filter [of rows] by blast
  ultimately show ?thesis using r by simp
qed

lemma planPartition_covers:
  assumes "planPartition sizes target = Some batches"
  shows "concat batches = [0..<length sizes] \<and> (\<forall>b\<in>set batches. b \<noteq> [] \<and> (\<forall>i\<in>set b. i < length sizes))"
proof -
  have b: "batches = plan_loop target sizes 0 [] 0"
    using assms by (auto simp: planPartition_def planBatches_def Let_def split: if_splits prod.splits)
  then have c: "concat batches = [0..<length sizes]" by (simp add: plan_loop_concat)
  moreover have "i < length sizes" if "b \<in> set batches" "i \<in> set b" for b i
  proof -
    have "i \<in> set (concat batches)" using that by auto
    with c show ?thesis by simp
  qed
  ultimately show ?thesis using b plan_loop_nonempty by blast
qed

text \<open>What the plan knows of one partition.\<close>

definition part_ok where
  "part_ok V env opts meta table wp part \<longleftrightarrow>
     (case part of (v, fs) \<Rightarrow>
        (\<forall>u. \<forall>f\<in>set fs. v_part V (output_abs opts meta u f) = v_cast V v) \<and>
        (\<not> partitionHasDeletes fs \<longrightarrow>
           (\<forall>f\<in>set fs. v_content V wp (source_abs opts meta f) \<noteq> None) \<and>
           files_rows (v_content V wp) (map (source_abs opts meta) fs) \<subseteq># v_live V wp (co_LakeName opts, table, v_cast V v)))"

lemma compact_part_ok:
  assumes R: "preorder R" and O: "others_law V P R (ce_others env)" and L: "parquet_laws V P (ce_lib env)" and U: "uuid_law V P env opts"
    and D: "lake_laws V (ce_sql env) (co_LakeName opts) table (tm_partition meta)"
    and part: "part_ok V env opts meta table wp part" and start: "step V R {} wp w"
    and run: "compact_part env opts meta table target part res w = (r, w')"
  shows "step V R {} wp w'"
proof -
  obtain v fs where p: "part = (v, fs)" by (cases part)
  note part = part [unfolded p part_ok_def prod.case]
  show ?thesis
  proof (cases "\<exists>batches x. \<not> partitionHasDeletes fs \<and> planPartition (map fileSizeBytes fs) target = Some batches \<and>
      compactPartition env opts meta table v fs batches w = (x, w')")
    case False
    with run p start show ?thesis
      by (auto simp: compact_part_def Let_def split: option.splits sum.splits if_splits prod.splits)
  next
    case True
    then obtain batches x where b: "\<not> partitionHasDeletes fs" "planPartition (map fileSizeBytes fs) target = Some batches"
      "compactPartition env opts meta table v fs batches w = (x, w')" by blast
    have bs: "concat batches = [0..<length fs]" "\<forall>b\<in>set batches. b \<noteq> [] \<and> (\<forall>i\<in>set b. i < length fs)"
      using planPartition_covers [OF b(2)] by simp_all
    have disk: "\<forall>f\<in>set fs. v_content V wp (source_abs opts meta f) \<noteq> None" using part b(1) by blast
    then have disk': "\<forall>f\<in>set fs. v_content V w (source_abs opts meta f) \<noteq> None" using start by (auto simp: step_def)
    have "map (\<lambda>i. source_abs opts meta (fs ! i)) [0..<length fs] = map (source_abs opts meta) fs"
      by (intro nth_equalityI) simp_all
    moreover have "files_rows (v_content V w) (map (source_abs opts meta) fs) = files_rows (v_content V wp) (map (source_abs opts meta) fs)"
      using disk by (intro files_rows_step [OF start]) auto
    moreover have "files_rows (v_content V wp) (map (source_abs opts meta) fs) \<subseteq># v_live V w (co_LakeName opts, table, v_cast V v)"
      using part b(1) preorder_sub [OF R start] by (blast intro: subset_mset.order_trans)
    ultimately have "files_rows (v_content V w) (map (\<lambda>i. source_abs opts meta (fs ! i)) (concat batches))
        \<subseteq># v_live V w (co_LakeName opts, table, v_cast V v)" by (simp only: bs(1))
    then have "step V R {} w w'"
      using part by (intro compactPartition_ok [OF R O L U D _ bs(2) disk' _ b(3)]) blast+
    then show ?thesis by (rule step_trans_same [OF R start])
  qed
qed

lemma compact_parts_ok:
  assumes R: "preorder R" and O: "others_law V P R (ce_others env)" and L: "parquet_laws V P (ce_lib env)" and U: "uuid_law V P env opts"
    and D: "lake_laws V (ce_sql env) (co_LakeName opts) table (tm_partition meta)"
    and parts: "\<forall>p\<in>set parts. part_ok V env opts meta table wp p" and start: "step V R {} wp w"
    and run: "compact_parts env opts meta table target parts res w = (r, w')"
  shows "step V R {} wp w'"
  using parts start run
proof (induction parts arbitrary: res w)
  case (Cons p parts)
  obtain x w1 where x: "compact_part env opts meta table target p res w = (x, w1)" by (meson surj_pair)
  have s: "step V R {} wp w1" using compact_part_ok [OF R O L U D _ Cons.prems(2) x] Cons.prems(1) by simp
  then show ?case
    using Cons.IH [OF _ s] Cons.prems x by (cases x) auto
qed simp

definition compaction_laws where
  "compaction_laws V P R env opts table \<longleftrightarrow>
     others_law V P R (ce_others env) \<and> parquet_laws V P (ce_lib env) \<and> uuid_law V P env opts \<and>
     catalog_law V env opts table \<and> key_law V env opts table"

lemma plan_table_cases:
  assumes "plan_table env opts table s = (e, w', vars)"
  shows "w' = ce_others env (fst s) \<and>
    (\<forall>meta parts. e = None \<longrightarrow> vars = PlanParts meta parts \<longrightarrow>
      readTableMeta (ce_md env) (co_LakeName opts) table w' = Inr (Some meta) \<and> usable (tm_partition meta) \<and>
      activeFilesByPartition (ce_md env) (co_LakeName opts) (tableID meta) w' = Inr parts)"
  using assms by (cases s) (auto simp: plan_table_def Let_def split: sum.splits option.splits if_splits)

text \<open>Compaction as a whole is a step that keeps \<open>R\<close>, whatever it returns.\<close>

lemma CompactTable_step:
  fixes env :: "('w, 'rd, 'tbl, 'ty) compact_env" and V :: "('w, 'p, 'r) lake_view"
  assumes R: "preorder R" and laws: "compaction_laws V P R env opts table" and shuffle: "\<forall>xs. set (shuffle xs) = set xs"
    and run: "CompactTable env shuffle opts table w = (r, w')"
  shows "step V R {} w w'"
proof -
  note O = laws [unfolded compaction_laws_def, THEN conjunct1]
  have L: "parquet_laws V P (ce_lib env)" and U: "uuid_law V P env opts" and C: "catalog_law V env opts table" and K: "key_law V env opts table"
    using laws by (simp_all add: compaction_laws_def)
  let ?lake = "co_LakeName opts" and ?I = "\<lambda>s. step V R {} w (fst s)"
  have oth: "step V R {} w (ce_others env v)" if "step V R {} w v" for v
    using step_trans_same [OF R that others_step [OF O]] .
  show ?thesis
  proof (cases "co_DB opts")
    case False
    with run R show ?thesis by (simp add: CompactTable_def step_refl)
  next
    case True
    obtain e w1 vars where p: "withRetryOnLocked (map_prod (ce_others env) id) (plan_table env opts table) (w, PlanSkip [] False) = (e, w1, vars)"
      by (metis prod_cases3)
    have keep: "?I s'" if "?I s" "plan_table env opts table s = (x, s')" for s x s'
      using plan_table_cases [of env opts table s x "fst s'" "snd s'"] that oth by simp
    have "\<exists>s e'. ?I s \<and> plan_table env opts table s = (e', w1, vars) \<and> (e = e' \<or> (\<exists>x. e' = Some x \<and> e = Some x))"
    proof (rule locked.last_attempt [OF p [unfolded withRetryOnLocked_loop]])
      show "?I (w, PlanSkip [] False)" using R by (simp add: step_refl)
      show "?I v'" if "?I v" "plan_table env opts table v = (Some x, v')" for v x v' using keep that by blast
      show "?I (map_prod (ce_others env) id v)" if "?I v" for v using oth that by (cases v) simp
    qed
    then obtain s where s: "?I s" "plan_table env opts table s = (e, w1, vars)" by auto
    have s1: "step V R {} w w1" using keep [OF s] by simp
    show ?thesis
    proof (cases "\<exists>meta parts. e = None \<and> vars = PlanParts meta parts")
      case False
      with run True p s1 show ?thesis by (cases vars) (auto simp: CompactTable_def split: option.splits)
    next
      case True
      then obtain meta parts where v: "e = None" "vars = PlanParts meta parts" by blast
      obtain target where go: "compact_parts env opts meta table target (shuffle parts) no_compact_result w1 = (r, w')"
        using run \<open>co_DB opts\<close> p v by (auto simp: CompactTable_def)
      have plan0: "readTableMeta (ce_md env) ?lake table w1 = Inr (Some meta) \<and> usable (tm_partition meta) \<and>
        activeFilesByPartition (ce_md env) ?lake (tableID meta) w1 = Inr parts"
        using plan_table_cases [OF s(2)] v by blast
      note plan = plan0 [THEN conjunct1] plan0 [THEN conjunct2, THEN conjunct1] plan0 [THEN conjunct2, THEN conjunct2]
      have D: "lake_laws V (ce_sql env) ?lake table (tm_partition meta)" using K plan(1,2) by (auto simp: key_law_def)
      have "part_ok V env opts meta table w1 q" if mem: "q \<in> set parts" for q
      proof -
        obtain val fs where q: "q = (val, fs)" by (cases q)
        then obtain rows where rows: "md_files (ce_md env) (metadataSchema ?lake) (tableID meta) w1 = Inr rows"
          "mset fs = mset (filter (\<lambda>f. partitionVal f = val) rows)"
          using activeFilesByPartition_groups [OF plan(3)] mem by blast
        let ?fs = "filter (\<lambda>f. partitionVal f = val) rows"
        have set_eq: "set fs = set ?fs" by (rule mset_eq_setD [OF rows(2)])
        then have del: "partitionHasDeletes fs = partitionHasDeletes ?fs" by (simp add: partitionHasDeletes_def list_ex_iff)
        have "mset (map (\<lambda>p. case v_content V w1 p of Some c \<Rightarrow> c | None \<Rightarrow> {#}) (map (source_abs opts meta) fs)) =
            mset (map (\<lambda>p. case v_content V w1 p of Some c \<Rightarrow> c | None \<Rightarrow> {#}) (map (source_abs opts meta) ?fs))"
          using rows(2) by (simp add: mset_map)
        then have sum_eq: "files_rows (v_content V w1) (map (source_abs opts meta) fs) = files_rows (v_content V w1) (map (source_abs opts meta) ?fs)"
          unfolding files_rows_def by (metis sum_mset_sum_list)
        have "\<forall>u. \<forall>f\<in>set rows. v_part V (output_abs opts meta u f) = v_cast V (partitionVal f)"
          using K plan(1) rows(1) by (auto simp: key_law_def)
        then have "\<forall>u. \<forall>f\<in>set fs. v_part V (output_abs opts meta u f) = v_cast V val" using set_eq by auto
        moreover have "\<not> partitionHasDeletes fs \<longrightarrow> (\<forall>f\<in>set fs. v_content V w1 (source_abs opts meta f) \<noteq> None) \<and>
            files_rows (v_content V w1) (map (source_abs opts meta) fs) \<subseteq># v_live V w1 (?lake, table, v_cast V val)"
          using C plan(1) rows(1) unfolding catalog_law_def Let_def del sum_eq set_eq by blast
        ultimately show ?thesis by (simp add: part_ok_def q)
      qed
      then have "step V R {} w1 w'"
        using shuffle by (intro compact_parts_ok [OF R O L U D _ step_refl [OF R] go]) simp
      then show ?thesis by (rule step_trans_same [OF R s1])
    qed
  qed
qed

text \<open>
  C8. Compaction never loses a row. Whatever the other goroutines do while the catalog lock is free, as long as
  they only add rows to the lake (the flush of the writer), every row of every table is still there when
  \<open>CompactTable\<close> returns, with whatever result or error, retries and partial failures included.
\<close>

theorem compaction_loses_nothing:
  fixes env :: "('w, 'rd, 'tbl, 'ty) compact_env" and V :: "('w, 'p, 'r) lake_view"
  assumes "compaction_laws V P rows_kept env opts table" "\<forall>xs. set (shuffle xs) = set xs"
  shows "v_live V w s \<subseteq># v_live V (snd (CompactTable env shuffle opts table w)) s"
proof -
  obtain r w' where run: "CompactTable env shuffle opts table w = (r, w')" by (meson surj_pair)
  from CompactTable_step [OF preorder_rows_kept assms run] run show ?thesis
    unfolding step_def rows_kept_def by (metis snd_conv)
qed

text \<open>
  C9. Compaction changes no row. When nobody else changes the lake meanwhile, the rows of every partition of every
  table are exactly the same after \<open>CompactTable\<close>, none lost and none duplicated, whether it succeeds, skips,
  defers or fails half-way.
\<close>

theorem compaction_is_invisible:
  fixes env :: "('w, 'rd, 'tbl, 'ty) compact_env" and V :: "('w, 'p, 'r) lake_view"
  assumes "compaction_laws V P (=) env opts table" "\<forall>xs. set (shuffle xs) = set xs"
  shows "v_live V (snd (CompactTable env shuffle opts table w)) = v_live V w"
proof -
  obtain r w' where run: "CompactTable env shuffle opts table w = (r, w')" by (meson surj_pair)
  from CompactTable_step [OF preorder_eq assms run] run show ?thesis by (simp add: step_def)
qed

end
