(* ===== verification/Lake_Mover.thy ===== *)
theory Lake_Mover
  imports Compaction_Safety
begin

text \<open>
  The native mover, \<^verbatim>\<open>src/storage/ducklake/mover\<close>: lake paths (\<^verbatim>\<open>paths.go\<close>), the files of a partition
  (\<^verbatim>\<open>metadata.go\<close>), the copiers (\<^verbatim>\<open>copy.go\<close>, \<^verbatim>\<open>s3.go\<close>, \<^verbatim>\<open>azure.go\<close>), the two transactions that register the
  copies and retire the source (\<^verbatim>\<open>register.go\<close>), and \<open>Move\<close> itself (\<^verbatim>\<open>move.go\<close>). What the package copies from the
  compactor (\<open>quoteIdent\<close>, \<open>tableRef\<close>, \<open>readTableMeta\<close>, \<open>readPartitionKey\<close>, \<open>hasInlinedData\<close>,
  \<open>withRetryOnLocked\<close>, the partition predicate) is the definition of Lake_Db and Lake_Compactor.

  The file system and the two cloud SDKs are parameters, records of operations on the world. \<open>me_others\<close>
  is what the rest of the program does while the mover does not hold the catalog lock. The theorems say that a
  move never loses a row, on every error path too, while the others add rows.
\<close>

subsection \<open>Paths\<close>

definition TrimRight1 :: "string \<Rightarrow> char \<Rightarrow> string" where
  "TrimRight1 s c = rev (dropWhile (\<lambda>x. x = c) (rev s))"

definition Trim1 :: "string \<Rightarrow> char \<Rightarrow> string" where
  "Trim1 s c = TrimRight1 (dropWhile (\<lambda>x. x = c) s) c"

definition TrimPrefix :: "string \<Rightarrow> string \<Rightarrow> string" where
  "TrimPrefix s p = (if HasPrefix s p then drop (length p) s else s)"

definition isS3Path :: "string \<Rightarrow> bool" where
  "isS3Path p = (HasPrefix p ''s3://'' \<or> HasPrefix p ''s3a://'')"

definition isAzurePath :: "string \<Rightarrow> bool" where
  "isAzurePath p = (HasPrefix p ''az://'' \<or> HasPrefix p ''azure://'')"

fun join_url :: "string \<Rightarrow> string list \<Rightarrow> string" where
  "join_url out [] = out"
| "join_url out (e # es) =
     (let t = Trim1 e SLASH in join_url (if t \<noteq> [] then out @ ''/'' @ t else out) es)"

definition joinLake :: "string \<Rightarrow> string list \<Rightarrow> string" where
  "joinLake base elems =
     (if isS3Path base \<or> isAzurePath base then join_url (TrimRight1 base SLASH) elems
      else path_Join (base # elems))"

definition fileAbs :: "string \<Rightarrow> string \<Rightarrow> string \<Rightarrow> int \<Rightarrow> string" where
  "fileAbs dataPath tblPath relPath isRel =
     (if isRel = 0 then relPath else joinLake dataPath [''main'', tblPath, relPath])"

text \<open>\<open>filepath.Base\<close> on Unix.\<close>

definition path_Base :: "string \<Rightarrow> string" where
  "path_Base p =
     (if p = [] then ''.''
      else let q = TrimRight1 p SLASH; b = rev (takeWhile (\<lambda>c. c \<noteq> SLASH) (rev q))
           in if b = [] then ''/'' else b)"

abbreviation BACKSLASH :: char where "BACKSLASH \<equiv> CHR 0x5C"

definition destRelPath :: "string \<Rightarrow> string \<Rightarrow> string \<Rightarrow> string \<Rightarrow> int \<Rightarrow> string" where
  "destRelPath srcRel srcAbs srcData tblPath isRel =
     (if isRel \<noteq> 0 \<and> TrimSpace srcRel \<noteq> [] then srcRel
      else
        let pre = joinLake srcData [''main'', tblPath];
            trimmed = TrimPrefix (ReplaceAll srcAbs BACKSLASH ''/'') (ReplaceAll pre BACKSLASH ''/'' @ ''/'')
        in if trimmed \<noteq> [] \<and> trimmed \<noteq> srcAbs then trimmed else path_Base srcAbs)"

definition destAbs :: "string \<Rightarrow> string \<Rightarrow> string \<Rightarrow> string" where
  "destAbs dstData tblPath rel = joinLake dstData [''main'', tblPath, rel]"

text \<open>Bucket and key of an object URL; both schemes of a provider are split the same way.\<close>

definition split_rest :: "string \<Rightarrow> (string \<times> string) option" where
  "split_rest rest =
     (case IndexByte rest SLASH of
        Some i \<Rightarrow>
          if i = 0 then Some (rest, [])
          else Some (take i rest, TrimPrefix (drop (Suc i) rest) ''/'')
      | None \<Rightarrow> if rest = [] then None else Some (rest, []))"

definition splitS3URL :: "string \<Rightarrow> (string \<times> string) option" where
  "splitS3URL u0 =
     (let u = TrimSpace u0 in
      if HasPrefix u ''s3://'' then split_rest (drop 5 u)
      else if HasPrefix u ''s3a://'' then split_rest (drop 6 u)
      else None)"

definition SplitAzureURL :: "string \<Rightarrow> (string \<times> string) option" where
  "SplitAzureURL u0 =
     (let u = TrimSpace u0 in
      if HasPrefix u ''az://'' then split_rest (drop 5 u)
      else if HasPrefix u ''azure://'' then split_rest (drop 8 u)
      else None)"

subsection \<open>The files of a partition\<close>

record moveFile =
  mf_path :: string
  mf_isRel :: int
  mf_records :: int
  mf_size :: int
  mf_deletes :: bool

definition partitionValueMatches :: "string \<Rightarrow> string \<Rightarrow> bool" where
  "partitionValueMatches stored want =
     (stored = want \<or> 10 \<le> length stored \<and> 10 \<le> length want \<and> take 10 stored = take 10 want)"

definition filesHaveDeletes :: "moveFile list \<Rightarrow> bool" where
  "filesHaveDeletes files = list_ex mf_deletes files"

definition sumRecords :: "moveFile list \<Rightarrow> int" where
  "sumRecords files = foldl (\<lambda>n f. int64 (n + mf_records f)) 0 files"

subsection \<open>Copiers\<close>

type_synonym 'w copier = "string \<Rightarrow> string \<Rightarrow> int \<Rightarrow> 'w op"

record S3Config =
  s3_Region :: string
  s3_AccessKey :: string
  s3_SecretKey :: string
  s3_Endpoint :: string
  s3_URLStyle :: string
  s3_UseSSL :: bool

record AzureConfig =
  az_AccountName :: string
  az_AccountKey :: string
  az_ConnectionString :: string
  az_Endpoint :: string

text \<open>
  The local files and the SDK calls. \<open>cs_copy\<close> is \<open>io.Copy\<close>, which returns the bytes written and an error;
  \<open>cs_aws\<close> loads the AWS configuration of a region with the static keys, if any; the uploads are given the client's
  settings.
\<close>

record 'w copy_sys =
  cs_ctx :: "'w \<Rightarrow> go_error option"
  cs_mkdir :: "string \<Rightarrow> 'w op"
  cs_open :: "string \<Rightarrow> 'w \<Rightarrow> go_error option"
  cs_create :: "string \<Rightarrow> 'w op"
  cs_copy :: "string \<Rightarrow> string \<Rightarrow> 'w \<Rightarrow> (int \<times> go_error option) \<times> 'w"
  cs_close :: "string \<Rightarrow> 'w op"
  cs_stat :: "string \<Rightarrow> 'w \<Rightarrow> go_error + int"
  cs_aws :: "string \<Rightarrow> (string \<times> string) option \<Rightarrow> go_error option"
  cs_s3_put :: "bool \<times> string \<Rightarrow> string \<Rightarrow> string \<Rightarrow> string \<Rightarrow> int option \<Rightarrow> 'w op"
  cs_az_conn :: "string \<Rightarrow> go_error option"
  cs_az_default :: "go_error option"
  cs_az_client :: "string \<Rightarrow> go_error option"
  cs_az_put :: "string \<Rightarrow> string \<Rightarrow> string \<Rightarrow> string \<Rightarrow> 'w op"

definition local_Copy :: "'w copy_sys \<Rightarrow> 'w copier" where
  "local_Copy cs src dst sz w =
     (case cs_ctx cs w of
        Some e \<Rightarrow> (Some e, w)
      | None \<Rightarrow>
      if isS3Path dst \<or> isAzurePath dst then (Some (errorf (''local copier cannot write '' @ dst)), w)
      else
     (case cs_mkdir cs (path_Dir dst) w of
        (Some e, w1) \<Rightarrow> (Some e, w1)
      | (None, w1) \<Rightarrow>
     (case cs_open cs src w1 of
        Some e \<Rightarrow> (Some e, w1)
      | None \<Rightarrow>
     (case cs_create cs dst w1 of
        (Some e, w2) \<Rightarrow> (Some e, w2)
      | (None, w2) \<Rightarrow>
     (case cs_copy cs dst src w2 of
        ((n, copyErr), w3) \<Rightarrow>
     (case cs_close cs dst w3 of
        (closeErr, w4) \<Rightarrow>
          (case copyErr of
             Some e \<Rightarrow> (Some e, w4)
           | None \<Rightarrow>
          (case closeErr of
             Some e \<Rightarrow> (Some e, w4)
           | None \<Rightarrow>
               if sz > 0 \<and> n \<noteq> sz
               then (Some (errorf (''copied '' @ FormatInt n @ '' bytes, catalog size '' @ FormatInt sz @ '': '' @ src)), w4)
               else (None, w4)))))))))"

definition s3PathStyle :: "string \<Rightarrow> string \<Rightarrow> bool" where
  "s3PathStyle endpoint urlStyle =
     (let style = ToLower (TrimSpace urlStyle) in
      if style = ''vhost'' then False
      else if style = ''path'' then True
      else TrimSpace endpoint \<noteq> [])"

definition endpoint_host :: "string \<Rightarrow> string" where
  "endpoint_host endpoint = TrimPrefix (TrimPrefix (TrimSpace endpoint) ''http://'') ''https://''"

definition s3BaseEndpoint :: "string \<Rightarrow> bool \<Rightarrow> string" where
  "s3BaseEndpoint endpoint useSSL =
     (let e = endpoint_host endpoint in
      if e = [] then [] else (if useSSL then ''https'' else ''http'') @ ''://'' @ e)"

definition s3_Copy :: "'w copy_sys \<Rightarrow> bool \<times> string \<Rightarrow> 'w copier" where
  "s3_Copy cs client src dst sz w =
     (case cs_ctx cs w of
        Some e \<Rightarrow> (Some e, w)
      | None \<Rightarrow>
     (case splitS3URL dst of
        Some (bucket, key) \<Rightarrow>
          if bucket = [] \<or> key = [] then (Some (errorf (''invalid s3 destination path '' @ [DQ] @ dst @ [DQ])), w)
          else
         (case cs_open cs src w of
            Some e \<Rightarrow> (Some e, w)
          | None \<Rightarrow>
         (case cs_s3_put cs client bucket key src (if sz > 0 then Some sz else None) w of
            (Some e, w1) \<Rightarrow> (Some (wrapf (''s3 upload '' @ dst @ '': '') e), w1)
          | (None, w1) \<Rightarrow> (None, w1)))
      | None \<Rightarrow> (Some (errorf (''invalid s3 destination path '' @ [DQ] @ dst @ [DQ])), w)))"

definition newS3Copier :: "'w copy_sys \<Rightarrow> S3Config \<Rightarrow> go_error + 'w copier" where
  "newS3Copier cs cfg =
     (let r = TrimSpace (s3_Region cfg); region = (if r = [] then ''us-east-1'' else r);
          endpoint = endpoint_host (s3_Endpoint cfg);
          ak = TrimSpace (s3_AccessKey cfg) in
      case cs_aws cs region (if ak \<noteq> [] then Some (ak, s3_SecretKey cfg) else None) of
        Some e \<Rightarrow> Inl (wrapf ''load aws config: '' e)
      | None \<Rightarrow> Inr (s3_Copy cs (s3PathStyle endpoint (s3_URLStyle cfg), s3BaseEndpoint endpoint (s3_UseSSL cfg))))"

definition buildAzureConnectionString :: "string \<Rightarrow> string \<Rightarrow> string \<Rightarrow> string" where
  "buildAzureConnectionString accountName accountKey endpoint =
     (let n = TrimSpace accountName; k = TrimSpace accountKey; e = TrimSpace endpoint in
      if e \<noteq> [] then ''AccountName='' @ n @ '';AccountKey='' @ k @ '';BlobEndpoint='' @ e @ '';''
      else ''DefaultEndpointsProtocol=https;AccountName='' @ n @ '';AccountKey='' @ k @ '';EndpointSuffix=core.windows.net'')"

definition azureServiceURL :: "string \<Rightarrow> string" where
  "azureServiceURL accountName = ''https://'' @ accountName @ ''.blob.core.windows.net/''"

definition azureBlobServiceURL :: "string \<Rightarrow> string \<Rightarrow> string" where
  "azureBlobServiceURL accountName endpoint =
     (let e = TrimSpace endpoint in
      if e = [] then azureServiceURL accountName
      else if \<not> HasSuffix e ''/'' then e @ ''/'' else e)"

text \<open>The client is named by the connection string or the service URL it was opened with.\<close>

definition azureBlobClient :: "'w copy_sys \<Rightarrow> AzureConfig \<Rightarrow> go_error + string" where
  "azureBlobClient cs cfg =
     (let connStr = TrimSpace (az_ConnectionString cfg); accountName = TrimSpace (az_AccountName cfg);
          accountKey = TrimSpace (az_AccountKey cfg); endpoint = TrimSpace (az_Endpoint cfg);
          conn = (\<lambda>s. case cs_az_conn cs s of Some e \<Rightarrow> Inl e | None \<Rightarrow> Inr s) in
      if connStr \<noteq> [] then conn connStr
      else if accountKey \<noteq> []
      then (if accountName = [] then Inl (errorf ''azure: account_name is required with account_key'')
            else conn (buildAzureConnectionString accountName accountKey endpoint))
      else if accountName = [] then Inl (errorf ''azure: account_name is required for credential_chain auth'')
      else
        case cs_az_default cs of
          Some e \<Rightarrow> Inl (wrapf ''azure: default credential chain: '' e)
        | None \<Rightarrow>
            let url = azureBlobServiceURL accountName endpoint in
            case cs_az_client cs url of Some e \<Rightarrow> Inl e | None \<Rightarrow> Inr url)"

definition azure_Copy :: "'w copy_sys \<Rightarrow> string \<Rightarrow> 'w copier" where
  "azure_Copy cs client src dst sz w =
     (let invalid = errorf (''invalid azure destination path '' @ [DQ] @ dst @ [DQ]);
          put = (\<lambda>container key.
            (case cs_az_put cs client container key src w of
               (Some e, w1) \<Rightarrow> (Some (wrapf (''azure upload '' @ dst @ '': '') e), w1)
             | (None, w1) \<Rightarrow> (None, w1))) in
      case cs_ctx cs w of
        Some e \<Rightarrow> (Some e, w)
      | None \<Rightarrow>
     (case SplitAzureURL dst of
        None \<Rightarrow> (Some invalid, w)
      | Some (container, key) \<Rightarrow>
      if container = [] \<or> key = [] then (Some invalid, w)
      else
     (case cs_open cs src w of
        Some e \<Rightarrow> (Some e, w)
      | None \<Rightarrow>
      if sz > 0
      then (case cs_stat cs src w of
              Inl e \<Rightarrow> (Some e, w)
            | Inr n \<Rightarrow>
                if n \<noteq> sz
                then (Some (errorf (''source is '' @ FormatInt n @ '' bytes, catalog size '' @ FormatInt sz @ '': '' @ src)), w)
                else put container key)
      else put container key)))"

definition newAzureCopier :: "'w copy_sys \<Rightarrow> AzureConfig \<Rightarrow> go_error + 'w copier" where
  "newAzureCopier cs cfg =
     (case azureBlobClient cs cfg of Inl e \<Rightarrow> Inl e | Inr client \<Rightarrow> Inr (azure_Copy cs client))"

definition no_S3Config :: S3Config where
  "no_S3Config = \<lparr>s3_Region = [], s3_AccessKey = [], s3_SecretKey = [], s3_Endpoint = [], s3_URLStyle = [], s3_UseSSL = False\<rparr>"

definition no_AzureConfig :: AzureConfig where
  "no_AzureConfig = \<lparr>az_AccountName = [], az_AccountKey = [], az_ConnectionString = [], az_Endpoint = []\<rparr>"

definition defaultCopier :: "'w copy_sys \<Rightarrow> string \<Rightarrow> S3Config option \<Rightarrow> AzureConfig option \<Rightarrow> go_error + 'w copier" where
  "defaultCopier cs dstDataPath s3cfg azurecfg =
     (if isS3Path dstDataPath then newS3Copier cs (case s3cfg of Some c \<Rightarrow> c | None \<Rightarrow> no_S3Config)
      else if isAzurePath dstDataPath then newAzureCopier cs (case azurecfg of Some c \<Rightarrow> c | None \<Rightarrow> no_AzureConfig)
      else Inr (local_Copy cs))"

subsection \<open>Registering the copies and retiring the source\<close>

definition count_partition :: "'w lake_sql \<Rightarrow> string \<Rightarrow> string \<Rightarrow> partitionKey \<Rightarrow> string \<Rightarrow> string \<Rightarrow> 'w \<Rightarrow> (go_error + int) \<times> 'w" where
  "count_partition sql lake table pk val what w =
     (case sql_count sql (tableRef lake table) (pk_predicate pk val) w of
        (Inl e, w1) \<Rightarrow> (Inl (wrapf (''count '' @ what @ '': '') e), w1)
      | (Inr n, w1) \<Rightarrow> (Inr n, w1))"

definition unusable_key :: "partitionKey \<Rightarrow> go_error" where
  "unusable_key pk =
     errorf (''unusable partition key column='' @ [DQ] @ columnName pk @ [DQ] @ '' transform='' @ [DQ] @ pk_transform pk @ [DQ] @
       '' type='' @ [DQ] @ columnType pk @ [DQ])"

definition register_body ::
  "'w lake_sql \<Rightarrow> string \<Rightarrow> string \<Rightarrow> partitionKey \<Rightarrow> string \<Rightarrow> string list \<Rightarrow> int \<Rightarrow> 'w op" where
  "register_body sql lake table pk val dests expectedRows w =
     (case count_partition sql lake table pk val ''destination before register'' w of
        (Inl e, w1) \<Rightarrow> (Some e, w1)
      | (Inr before, w1) \<Rightarrow>
      if before = expectedRows then sql_commit sql w1
      else if before > 0 \<and> before \<noteq> expectedRows
      then (Some (errorf (''destination partition '' @ val @ '' already has '' @ FormatInt before @ '' rows, expected '' @
                    FormatInt expectedRows)), w1)
      else
     (case sql_add sql (quoteLiteral lake) (quoteLiteral table) (map quoteLiteral dests) w1 of
        (Some e, w2) \<Rightarrow>
          (Some (if isColumnMappingErr e then sentinelf ErrFallback ('': '' @ err_msg e)
                 else wrapf ''register copied files: '' e), w2)
      | (None, w2) \<Rightarrow>
     (case count_partition sql lake table pk val ''destination after register'' w2 of
        (Inl e, w3) \<Rightarrow> (Some e, w3)
      | (Inr after, w3) \<Rightarrow>
      if after \<noteq> expectedRows
      then (Some (errorf (''refusing to commit destination partition '' @ val @ '': '' @ FormatInt after @
                    '' rows after add, expected '' @ FormatInt expectedRows)), w3)
      else
     (case sql_commit sql w3 of
        (Some e, w4) \<Rightarrow> (Some (wrapf ''commit register: '' e), w4)
      | (None, w4) \<Rightarrow> (None, w4)))))"

definition registerCopiedFiles ::
  "'w lake_sql \<Rightarrow> string \<Rightarrow> string \<Rightarrow> partitionKey \<Rightarrow> string \<Rightarrow> string list \<Rightarrow> int \<Rightarrow> 'w op" where
  "registerCopiedFiles sql dstLake table pk val dests expectedRows w =
     (if dests = [] then (Some (errorf ''no destination files to register''), w)
      else if \<not> usable pk then (Some (unusable_key pk), w)
      else with_tx sql ''begin register tx: '' (register_body sql dstLake table pk val dests expectedRows) w)"

definition retire_body :: "'w lake_sql \<Rightarrow> string \<Rightarrow> string \<Rightarrow> partitionKey \<Rightarrow> string \<Rightarrow> int \<Rightarrow> 'w op" where
  "retire_body sql lake table pk val expectedRows w =
     (case count_partition sql lake table pk val ''source before delete'' w of
        (Inl e, w1) \<Rightarrow> (Some e, w1)
      | (Inr before, w1) \<Rightarrow>
      if before = 0 then sql_commit sql w1
      else if before \<noteq> expectedRows
      then (Some (errorf (''source partition '' @ val @ '' changed during copy ('' @ FormatInt before @ '' rows, planned '' @
                    FormatInt expectedRows @ ''); leaving source in place'')), w1)
      else
     (case sql_delete sql (tableRef lake table) (pk_predicate pk val) w1 of
        (Some e, w2) \<Rightarrow> (Some (wrapf ''delete source partition: '' e), w2)
      | (None, w2) \<Rightarrow>
     (case count_partition sql lake table pk val ''source after delete'' w2 of
        (Inl e, w3) \<Rightarrow> (Some e, w3)
      | (Inr after, w3) \<Rightarrow>
      if after \<noteq> 0
      then (Some (errorf (''source partition '' @ val @ '' still has '' @ FormatInt after @ '' rows after delete'')), w3)
      else
     (case sql_commit sql w3 of
        (Some e, w4) \<Rightarrow> (Some (wrapf ''commit retire: '' e), w4)
      | (None, w4) \<Rightarrow> (None, w4)))))"

definition retireSourcePartition :: "'w lake_sql \<Rightarrow> string \<Rightarrow> string \<Rightarrow> partitionKey \<Rightarrow> string \<Rightarrow> int \<Rightarrow> 'w op" where
  "retireSourcePartition sql srcLake table pk val expectedRows w =
     (if \<not> usable pk then (Some (unusable_key pk), w)
      else with_tx sql ''begin retire tx: '' (retire_body sql srcLake table pk val expectedRows) w)"

subsection \<open>Moving a partition\<close>

record 'w move_opts =
  mo_DB :: bool
  mo_SrcLake :: string
  mo_DstLake :: string
  mo_SrcDataPath :: string
  mo_DstDataPath :: string
  mo_TableName :: string
  mo_Partition :: string
  mo_Copier :: "'w copier option"
  mo_S3 :: "S3Config option"
  mo_Azure :: "AzureConfig option"
  mo_BeforeRegister :: "'w op option"

text \<open>
  \<open>me_funcs\<close> counts the functions named \<^verbatim>\<open>ducklake_add_data_files\<close>; \<open>me_files\<close> is the query of the active files,
  each with its stored partition value.
\<close>

record 'w mover_env =
  me_sql :: "'w lake_sql"
  me_md :: "'w lake_md"
  me_funcs :: "'w \<Rightarrow> go_error + int"
  me_files :: "string \<Rightarrow> int \<Rightarrow> 'w \<Rightarrow> go_error + (moveFile \<times> string) list"
  me_sys :: "'w copy_sys"
  me_others :: "'w \<Rightarrow> 'w"

record move_result =
  FilesCopied :: nat
  RowsMoved :: int
  BytesCopied :: int

definition fallback :: "string \<Rightarrow> go_error" where
  "fallback reason = sentinelf ErrFallback ('': '' @ reason)"

definition addDataFilesSupported :: "'w mover_env \<Rightarrow> 'w \<Rightarrow> bool \<times> string" where
  "addDataFilesSupported env w =
     (case me_funcs env w of
        Inl e \<Rightarrow> (False, ''cannot probe duckdb_functions(): '' @ err_msg e)
      | Inr n \<Rightarrow>
          if n = 0 then (False, ''ducklake_add_data_files is not available in the loaded ducklake extension'')
          else (True, []))"

definition partitionFiles :: "'w mover_env \<Rightarrow> string \<Rightarrow> int \<Rightarrow> string \<Rightarrow> 'w \<Rightarrow> go_error + moveFile list" where
  "partitionFiles env lake tid val w =
     (case me_files env (metadataSchema lake) tid w of
        Inl e \<Rightarrow> Inl (wrapf ''read active files: '' e)
      | Inr rows \<Rightarrow> Inr (map fst (filter (\<lambda>(f, pv). partitionValueMatches pv val) rows)))"

text \<open>The closure that plans under the lock; the variables it captures are the second component.\<close>

definition plan_move :: "'w mover_env \<Rightarrow> 'w move_opts \<Rightarrow> ('w \<times> (tableMeta \<times> moveFile list) option) op" where
  "plan_move env opts s =
     (case s of (w0, vars) \<Rightarrow>
     (let w = me_others env w0; md = me_md env; lake = mo_SrcLake opts in
     (case readTableMeta md lake (mo_TableName opts) w of
        Inl e \<Rightarrow> (Some e, w, vars)
      | Inr None \<Rightarrow> (Some (fallback ''source table not found''), w, vars)
      | Inr (Some meta) \<Rightarrow>
      if \<not> usable (tm_partition meta)
      then (Some (fallback (''table is not partitioned by a single identity column (column='' @ [DQ] @
              columnName (tm_partition meta) @ [DQ] @ '' transform='' @ [DQ] @ pk_transform (tm_partition meta) @ [DQ] @
              '' type='' @ [DQ] @ columnType (tm_partition meta) @ [DQ] @ '')'')), w, vars)
      else
     (case hasInlinedData md lake w of
        Inl e \<Rightarrow> (Some e, w, vars)
      | Inr inlined \<Rightarrow>
      if inlined then (Some (fallback ''source lake still holds inlined rows''), w, vars)
      else
     (case partitionFiles env lake (tableID meta) (mo_Partition opts) w of
        Inl e \<Rightarrow> (Some e, w, vars)
      | Inr files \<Rightarrow> (None, w, Some (meta, files)))))))"

definition move_src :: "'w move_opts \<Rightarrow> tableMeta \<Rightarrow> moveFile \<Rightarrow> string" where
  "move_src opts meta f = fileAbs (mo_SrcDataPath opts) (tablePath meta) (mf_path f) (mf_isRel f)"

definition move_dst :: "'w move_opts \<Rightarrow> tableMeta \<Rightarrow> moveFile \<Rightarrow> string" where
  "move_dst opts meta f =
     destAbs (mo_DstDataPath opts) (tablePath meta)
       (destRelPath (mf_path f) (move_src opts meta f) (mo_SrcDataPath opts) (tablePath meta) (mf_isRel f))"

definition RARROW :: string where
  "RARROW = [CHR 0x20, CHR 0xE2, CHR 0x86, CHR 0x92, CHR 0x20]"

fun copy_files ::
  "'w mover_env \<Rightarrow> 'w move_opts \<Rightarrow> 'w copier \<Rightarrow> tableMeta \<Rightarrow> moveFile list \<Rightarrow> string list \<times> int \<Rightarrow> 'w \<Rightarrow>
    (go_error + (string list \<times> int)) \<times> 'w" where
  "copy_files env opts cp meta [] acc w = (Inr acc, w)"
| "copy_files env opts cp meta (f # fs) (copied, bytes) w =
     (case cs_ctx (me_sys env) w of
        Some e \<Rightarrow> (Inl e, w)
      | None \<Rightarrow>
     (let src = move_src opts meta f; dst = move_dst opts meta f in
     (case cp src dst (mf_size f) (me_others env w) of
        (Some e, w1) \<Rightarrow> (Inl (wrapf (''copy '' @ src @ RARROW @ dst @ '': '') e), w1)
      | (None, w1) \<Rightarrow> copy_files env opts cp meta fs (copied @ [dst], int64 (bytes + mf_size f)) w1)))"

definition before_register :: "'w mover_env \<Rightarrow> 'w move_opts \<Rightarrow> 'w op" where
  "before_register env opts w =
     (case mo_BeforeRegister opts of
        None \<Rightarrow> (None, w)
      | Some fn \<Rightarrow>
          (case fn (me_others env w) of
             (Some e, w1) \<Rightarrow> (Some (wrapf ''refresh destination credentials before register: '' e), w1)
           | (None, w1) \<Rightarrow> (None, w1)))"

text \<open>Everything after the planning closure.\<close>

definition move_files ::
  "'w mover_env \<Rightarrow> 'w move_opts \<Rightarrow> 'w copier \<Rightarrow> tableMeta \<Rightarrow> moveFile list \<Rightarrow> 'w \<Rightarrow> (go_error + move_result) \<times> 'w" where
  "move_files env opts cp meta files w =
     (if files = [] then (Inl (fallback ''no parquet files for partition (inlined or empty)''), w)
      else if filesHaveDeletes files then (Inl (fallback ''partition has row-level delete files''), w)
      else
     (let expected = sumRecords files; pk = tm_partition meta; nap = me_others env in
     (case copy_files env opts cp meta files ([], 0) w of
        (Inl e, w1) \<Rightarrow> (Inl e, w1)
      | (Inr (copied, bytes), w1) \<Rightarrow>
     (case before_register env opts w1 of
        (Some e, w2) \<Rightarrow> (Inl e, w2)
      | (None, w2) \<Rightarrow>
     (case withRetryOnLocked nap
             (\<lambda>v. registerCopiedFiles (me_sql env) (mo_DstLake opts) (mo_TableName opts) pk (mo_Partition opts) copied expected (nap v)) w2 of
        (Some e, w3) \<Rightarrow> (Inl e, w3)
      | (None, w3) \<Rightarrow>
     (case withRetryOnLocked nap
             (\<lambda>v. retireSourcePartition (me_sql env) (mo_SrcLake opts) (mo_TableName opts) pk (mo_Partition opts) expected (nap v)) w3 of
        (Some e, w4) \<Rightarrow> (Inl (wrapf ''copied and registered, source delete pending: '' e), w4)
      | (None, w4) \<Rightarrow> (Inr \<lparr>FilesCopied = length copied, RowsMoved = expected, BytesCopied = bytes\<rparr>, w4)))))))"

definition Move :: "'w mover_env \<Rightarrow> 'w move_opts \<Rightarrow> 'w \<Rightarrow> (go_error + move_result) \<times> 'w" where
  "Move env opts w =
     (if \<not> mo_DB opts then (Inl (errorf ''mover: no database handle''), w)
      else if mo_TableName opts = [] \<or> mo_Partition opts = []
      then (Inl (errorf ''mover: table and partition are required''), w)
      else if isS3Path (mo_SrcDataPath opts) \<or> isAzurePath (mo_SrcDataPath opts)
      then (Inl (fallback ''source data_path is remote''), w)
      else
     (case addDataFilesSupported env w of
        (False, reason) \<Rightarrow> (Inl (fallback reason), w)
      | (True, _) \<Rightarrow>
     (case (case mo_Copier opts of
              Some cp \<Rightarrow> Inr cp
            | None \<Rightarrow> defaultCopier (me_sys env) (mo_DstDataPath opts) (mo_S3 opts) (mo_Azure opts)) of
        Inl e \<Rightarrow> (Inl e, w)
      | Inr cp \<Rightarrow>
     (case withRetryOnLocked (map_prod (me_others env) id) (plan_move env opts) (w, None) of
        (Some e, w1, _) \<Rightarrow> (Inl e, w1)
      | (None, w1, None) \<Rightarrow> (Inl (fallback ''no parquet files for partition (inlined or empty)''), w1)
      | (None, w1, Some (meta, files)) \<Rightarrow> move_files env opts cp meta files w1))))"

end
