(* ===== verification/Mover_Safety.thy ===== *)
theory Mover_Safety
  imports Lake_Mover
begin

text \<open>
  A native move loses no row. The hypotheses are the documented behaviour of DuckLake (\<open>lake_laws\<close>) and of the
  copiers (\<open>copier_law\<close>), what the catalog says of the files of a partition (\<open>move_catalog_law\<close>), and what
  the rest of the program may do meanwhile: add rows, but none to the destination partition (\<open>others_add\<close>).
\<close>

subsection \<open>The two transactions\<close>






subsection \<open>Hypotheses\<close>





text \<open>A copier touches the destination file only; when it succeeds the file holds what the source holds.\<close>

definition copier_law :: "('w, 'p, 'r) lake_view \<Rightarrow> 'w copier \<Rightarrow> bool" where
  "copier_law V cp \<longleftrightarrow>
     (\<forall>src dst n w e w'. dst \<notin> v_refs V w \<longrightarrow> src \<noteq> dst \<longrightarrow> cp src dst n w = (e, w') \<longrightarrow>
        on_file V dst w w' \<and> (e = None \<longrightarrow> v_content V w' dst = v_content V w src))"





subsection \<open>Copying\<close>









subsection \<open>The move\<close>

















subsection \<open>Local copies\<close>

text \<open>The local file system: opening reads, creating truncates, \<open>io.Copy\<close> without an error has copied everything.\<close>

definition local_fs_laws :: "('w, 'p, 'r) lake_view \<Rightarrow> 'w copy_sys \<Rightarrow> bool" where
  "local_fs_laws V cs \<longleftrightarrow>
     (\<forall>p w. same_world V w (snd (cs_mkdir cs p w))) \<and> (\<forall>p w. same_world V w (snd (cs_close cs p w))) \<and>
     (\<forall>p w. p \<notin> v_refs V w \<longrightarrow> on_file V p w (snd (cs_create cs p w))) \<and>
     (\<forall>src dst w n e w'. dst \<notin> v_refs V w \<longrightarrow> src \<noteq> dst \<longrightarrow> cs_copy cs dst src w = ((n, e), w') \<longrightarrow>
        on_file V dst w w' \<and> (e = None \<longrightarrow> v_content V w' dst = v_content V w src))"

lemma local_copier_law:
  assumes L: "local_fs_laws V cs"
  shows "copier_law V (local_Copy cs)"
  unfolding copier_law_def
proof (intro allI impI)
  fix src dst n w e w'
  assume fresh: "dst \<notin> v_refs V w" and ne: "src \<noteq> dst" and run: "local_Copy cs src dst n w = (e, w')"
  obtain e1 w1 where 1: "cs_mkdir cs (path_Dir dst) w = (e1, w1)" by (meson surj_pair)
  obtain e2 w2 where 2: "cs_create cs dst w1 = (e2, w2)" by (meson surj_pair)
  obtain k e3 w3 where 3: "cs_copy cs dst src w2 = ((k, e3), w3)" by (metis surj_pair)
  obtain e4 w4 where 4: "cs_close cs dst w3 = (e4, w4)" by (meson surj_pair)
  have s1: "same_world V w w1" and s4: "same_world V w3 w4" using L 1 4 unfolding local_fs_laws_def by (metis snd_conv)+
  have r1: "dst \<notin> v_refs V w1" using fresh s1 by (simp add: same_world_def)
  then have f2: "on_file V dst w1 w2" using L 2 unfolding local_fs_laws_def by (metis snd_conv)
  then have r2: "dst \<notin> v_refs V w2" using r1 by (simp add: on_file_def)
  then have f3: "on_file V dst w2 w3" "e3 = None \<longrightarrow> v_content V w3 dst = v_content V w2 src"
    using L ne 3 unfolding local_fs_laws_def by blast+
  have w2: "on_file V dst w w2" using f2 s1 by (auto simp: on_file_def same_world_def)
  have w4: "on_file V dst w w4" using w2 f3(1) s4 by (auto simp: on_file_def same_world_def)
  have w1: "on_file V dst w w1" using s1 by (auto simp: on_file_def same_world_def)
  have src: "v_content V w2 src = v_content V w src" using w2 ne by (auto simp: on_file_def)
  have "w' \<in> {w, w1, w2, w4} \<and> (e = None \<longrightarrow> w' = w4 \<and> e3 = None)"
    using run 1 2 3 4 by (auto simp: local_Copy_def split: option.splits if_splits)
  moreover have "on_file V dst w w" by (simp add: on_file_def)
  ultimately show "on_file V dst w w' \<and> (e = None \<longrightarrow> v_content V w' dst = v_content V w src)"
    using w1 w2 w4 f3(2) s4 src by (auto simp: same_world_def)
qed

text \<open>Between local volumes, relative paths with different components keep different destinations.\<close>

lemma rooted_not_remote: "rooted p \<Longrightarrow> \<not> isS3Path p \<and> \<not> isAzurePath p"
  by (cases p) (auto simp: rooted_def isS3Path_def isAzurePath_def)

lemma move_dst_distinct:
  assumes root: "rooted (mo_DstDataPath opts)" "plain_path (mo_DstDataPath opts)" "plain_path (tablePath meta)"
    and rel: "\<forall>f\<in>set fs. mf_isRel f \<noteq> 0 \<and> TrimSpace (mf_path f) \<noteq> [] \<and> plain_path (mf_path f)"
    and "distinct (map (\<lambda>f. comps (mf_path f)) fs)"
  shows "distinct (map (move_dst opts meta) fs)"
proof -
  let ?d = "comps (mo_DstDataPath opts) @ [''main''] @ comps (tablePath meta)"
  have "move_dst opts meta f = SLASH # Join (?d @ comps (mf_path f)) [SLASH]" if "f \<in> set fs" for f
    using that rel path_Join_rooted [OF root, of "mf_path f"] rooted_not_remote [OF root(1)]
    by (simp add: move_dst_def destAbs_def destRelPath_def joinLake_def)
  moreover have "comps (SLASH # Join (?d @ comps (mf_path f)) [SLASH]) = ?d @ comps (mf_path f)" for f
    using comps_parts by (subst comps_slash, intro comps_Join) (auto simp: plain_path_def)
  ultimately have "comps (mf_path f) = comps (mf_path g)" if "f \<in> set fs" "g \<in> set fs" "move_dst opts meta f = move_dst opts meta g" for f g
    using that by (metis same_append_eq)
  with assms(5) show ?thesis unfolding distinct_map inj_on_def by blast
qed

end
