(* ===== verification/Lake_Date.thy ===== *)
theory Lake_Date
  imports Main
begin

text \<open>
  The \<open>date\<close> column (\<open>storage/ducklake/hep_adapter.go\<close>: \<open>fastDuckDate\<close>). A time is its nanoseconds
  since the Unix epoch and the offset of its location in seconds; a date is the number of a day,
  counted from 1 January of year 1. \<open>Year\<close> and \<open>YearDay\<close> are those of Go's proleptic Gregorian
  calendar, computed by the cycles of 400, 100, 4 and 1 years as the package \<open>time\<close> does.

  The cache is two atomic variables that are read and written one after the other; the concurrent
  calls are modelled action by action.
\<close>

subsection \<open>The calendar\<close>

record go_time =
  nanos :: int
  zone :: int

definition ns_per_day :: int where
  "ns_per_day = 86400 * 10 ^ 9"

definition utc_day :: "go_time \<Rightarrow> int" where
  "utc_day ts = nanos ts div ns_per_day + 719162"

definition local_day :: "go_time \<Rightarrow> int" where
  "local_day ts = (nanos ts + zone ts * 10 ^ 9) div ns_per_day + 719162"

definition year_and_day :: "int \<Rightarrow> int \<times> int" where
  "year_and_day d =
     (let n400 = d div 146097; r = d mod 146097;
          n100 = min 3 (r div 36524); r1 = r - 36524 * n100;
          n4 = r1 div 1461; r2 = r1 - 1461 * n4;
          n1 = min 3 (r2 div 365)
      in (400 * n400 + 100 * n100 + 4 * n4 + n1 + 1, r2 - 365 * n1 + 1))"

definition Year :: "go_time \<Rightarrow> int" where
  "Year ts = fst (year_and_day (local_day ts))"

definition YearDay :: "go_time \<Rightarrow> int" where
  "YearDay ts = snd (year_and_day (local_day ts))"

subsection \<open>The cache\<close>

record date_cache =
  cachedDuckDate :: "int option"
  cachedDateDay :: int

definition no_date :: date_cache where
  "no_date = \<lparr>cachedDuckDate = None, cachedDateDay = 0\<rparr>"

definition dayKey :: "go_time \<Rightarrow> int" where
  "dayKey ts = YearDay ts * 1000 + Year ts mod 1000"

definition fastDuckDate :: "go_time \<Rightarrow> date_cache \<Rightarrow> int \<times> date_cache" where
  "fastDuckDate ts c =
     (let miss = (utc_day ts, \<lparr>cachedDuckDate = Some (utc_day ts), cachedDateDay = dayKey ts\<rparr>)
      in if dayKey ts = cachedDateDay c
         then (case cachedDuckDate c of Some v \<Rightarrow> (v, c) | None \<Rightarrow> miss)
         else miss)"

fun fastDuckDates :: "go_time list \<Rightarrow> date_cache \<Rightarrow> int list" where
  "fastDuckDates [] c = []"
| "fastDuckDates (ts # tss) c = (let (d, c') = fastDuckDate ts c in d # fastDuckDates tss c')"

subsection \<open>The key determines the day\<close>

lemma radix: "0 \<le> x \<Longrightarrow> x < q \<Longrightarrow> (q * p + x) div q = p" "0 \<le> x \<Longrightarrow> x < q \<Longrightarrow> (q * p + x) mod q = x"
  for p q x :: int
  by simp_all

lemma capped:
  fixes r q :: int
  assumes "0 < q" and "0 \<le> r" and "r \<le> 4 * q"
  shows "0 \<le> min 3 (r div q) \<and> min 3 (r div q) \<le> 3 \<and> 0 \<le> r - q * min 3 (r div q) \<and> r - q * min 3 (r div q) \<le> q"
proof -
  have r: "r = q * (r div q) + r mod q" "0 \<le> r mod q" "r mod q < q" "0 \<le> r div q"
    using assms by (simp_all add: pos_imp_zdiv_nonneg_iff)
  show ?thesis
  proof (cases "r div q \<le> 3")
    case True
    then show ?thesis using r by (simp add: minus_mult_div_eq_mod less_imp_le)
  next
    case False
    then have "q * 3 \<le> q * (r div q)" using assms(1) by (intro mult_left_mono) auto
    then have "q * 3 \<le> r" using r(1,2) by linarith
    with False assms show ?thesis by (simp add: min_def)
  qed
qed

lemma year_and_day_cycle:
  assumes "year_and_day d = (y, k)"
  shows "1 \<le> k \<and> k \<le> 366 \<and>
    d = 146097 * ((y - 1) div 400) + 36524 * ((y - 1) mod 400 div 100) + 1461 * ((y - 1) mod 100 div 4)
        + 365 * ((y - 1) mod 4) + k - 1"
proof -
  define n400 where "n400 = d div 146097"
  define r where "r = d mod 146097"
  define n100 where "n100 = min 3 (r div 36524)"
  define r1 where "r1 = r - 36524 * n100"
  define n4 where "n4 = r1 div 1461"
  define r2 where "r2 = r1 - 1461 * n4"
  define n1 where "n1 = min 3 (r2 div 365)"
  have eq: "year_and_day d = (400 * n400 + 100 * n100 + 4 * n4 + n1 + 1, r2 - 365 * n1 + 1)"
    unfolding year_and_day_def Let_def n1_def r2_def n4_def r1_def n100_def r_def n400_def by (rule refl)
  have y: "y = 400 * n400 + 100 * n100 + 4 * n4 + n1 + 1" and k: "k = r2 - 365 * n1 + 1"
    using assms unfolding eq by simp_all
  have r: "0 \<le> r" "r < 146097" "d = 146097 * n400 + r"
    by (simp_all add: r_def n400_def)
  have n100: "0 \<le> n100 \<and> n100 \<le> 3 \<and> 0 \<le> r1 \<and> r1 \<le> 36524"
    unfolding r1_def n100_def using r(1,2) by (intro capped) simp_all
  have n4: "0 \<le> n4" "n4 \<le> 24" "0 \<le> r2" "r2 < 1461"
    using n100 by (auto simp: n4_def r2_def minus_mult_div_eq_mod)
  have n1: "0 \<le> n1 \<and> n1 \<le> 3 \<and> 0 \<le> r2 - 365 * n1 \<and> r2 - 365 * n1 \<le> 365"
    unfolding n1_def using n4 by (intro capped) simp_all
  have y1: "y - 1 = 400 * n400 + (100 * n100 + (4 * n4 + n1))"
    and y2: "y - 1 = 100 * (4 * n400 + n100) + (4 * n4 + n1)"
    and y3: "y - 1 = 4 * (100 * n400 + 25 * n100 + n4) + n1"
    unfolding y by simp_all
  have a: "(y - 1) div 400 = n400" "(y - 1) mod 400 = 100 * n100 + (4 * n4 + n1)"
    unfolding y1 by (rule radix; use n100 n4 n1 in linarith)+
  have b: "(y - 1) mod 400 div 100 = n100"
    unfolding a by (rule radix; use n4 n1 in linarith)
  have c: "(y - 1) mod 100 = 4 * n4 + n1"
    unfolding y2 by (rule radix; use n4 n1 in linarith)
  have d: "(y - 1) mod 100 div 4 = n4"
    unfolding c by (rule radix; use n1 in linarith)
  have e: "(y - 1) mod 4 = n1"
    unfolding y3 by (rule radix; use n1 in linarith)
  have "d = 146097 * n400 + 36524 * n100 + 1461 * n4 + 365 * n1 + k - 1"
    unfolding k r2_def r1_def r(3) by simp
  moreover have "1 \<le> k" "k \<le> 366" using n1 k by simp_all
  ultimately show ?thesis unfolding a(1) b d e by blast
qed

lemma thousands:
  assumes "a * 1000 + u = b * 1000 + v" and "0 \<le> u" "u < 1000" "0 \<le> v" "v < 1000"
  shows "a = b \<and> u = (v :: int)"
  using assms radix [of u 1000 a] radix [of v 1000 b] by (simp add: mult.commute)

lemma same_key_same_day:
  assumes key: "dayKey ts = dayKey ts'" and span: "Y \<le> Year ts" "Year ts < Y + 1000" "Y \<le> Year ts'" "Year ts' < Y + 1000"
  shows "local_day ts = local_day ts'"
proof -
  have yd: "year_and_day (local_day t) = (Year t, YearDay t)" for t
    by (simp add: Year_def YearDay_def)
  have m: "0 \<le> Year t mod 1000" "Year t mod 1000 < 1000" for t by simp_all
  have "YearDay ts = YearDay ts'" "Year ts mod 1000 = Year ts' mod 1000"
    using thousands [OF key [unfolded dayKey_def] m [of ts] m [of ts']] by simp_all
  moreover have "Year ts = Year ts'"
  proof (rule ccontr)
    assume "Year ts \<noteq> Year ts'"
    moreover have "1000 dvd Year ts - Year ts'"
      using \<open>Year ts mod 1000 = Year ts' mod 1000\<close> by (simp add: mod_eq_dvd_iff)
    ultimately have "\<bar>1000\<bar> \<le> \<bar>Year ts - Year ts'\<bar>" by (intro dvd_imp_le_int) simp_all
    with span show False by simp
  qed
  ultimately show ?thesis
    using year_and_day_cycle [OF yd [of ts]] year_and_day_cycle [OF yd [of ts']] by simp
qed

lemma key_positive: "1000 \<le> dayKey ts"
proof -
  have "1 \<le> YearDay ts"
    using year_and_day_cycle [of "local_day ts" "Year ts" "YearDay ts"] by (simp add: Year_def YearDay_def)
  moreover have "0 \<le> Year ts mod 1000" by simp
  ultimately show ?thesis unfolding dayKey_def by linarith
qed

definition in_span :: "int \<Rightarrow> go_time \<Rightarrow> bool" where
  "in_span Y ts \<longleftrightarrow> zone ts = 0 \<and> Y \<le> Year ts \<and> Year ts < Y + 1000"

definition date_cache_ok :: "int \<Rightarrow> date_cache \<Rightarrow> bool" where
  "date_cache_ok Y c \<longleftrightarrow>
     c = no_date \<or> (\<exists>ts. in_span Y ts \<and> c = \<lparr>cachedDuckDate = Some (utc_day ts), cachedDateDay = dayKey ts\<rparr>)"

lemma fastDuckDate_day:
  assumes "in_span Y ts" and "date_cache_ok Y c"
  shows "fst (fastDuckDate ts c) = utc_day ts \<and> date_cache_ok Y (snd (fastDuckDate ts c))"
proof -
  have utc: "local_day t = utc_day t" if "in_span Y t" for t
    using that by (simp add: in_span_def local_day_def utc_day_def)
  from assms(2) consider "c = no_date"
    | t where "in_span Y t" "c = \<lparr>cachedDuckDate = Some (utc_day t), cachedDateDay = dayKey t\<rparr>"
    by (auto simp: date_cache_ok_def)
  then show ?thesis
  proof cases
    case 1
    with key_positive [of ts] assms(1) show ?thesis
      by (auto simp: fastDuckDate_def no_date_def date_cache_ok_def Let_def)
  next
    case 2
    show ?thesis
    proof (cases "dayKey ts = dayKey t")
      case True
      then have "local_day ts = local_day t"
        using assms(1) 2(1) by (intro same_key_same_day [of ts t Y]) (auto simp: in_span_def)
      with True 2 assms utc show ?thesis by (simp add: fastDuckDate_def Let_def)
    next
      case False
      with 2 assms(1) show ?thesis by (auto simp: fastDuckDate_def Let_def date_cache_ok_def)
    qed
  qed
qed

text \<open>
  Called by one goroutine at a time, the date cache is invisible: for UTC times, as the decoder
  makes them, whose years lie within a thousand years, every call returns the UTC day of its own time,
  whatever the order of the days and whatever was cached before.
\<close>

theorem sequential_dates_right:
  assumes "\<forall>ts\<in>set tss. in_span Y ts" and "date_cache_ok Y c"
  shows "fastDuckDates tss c = map utc_day tss"
  using assms
proof (induction tss arbitrary: c)
  case (Cons ts tss)
  then show ?case
    using fastDuckDate_day [of Y ts c] by (auto simp: split_def Let_def)
qed simp

subsection \<open>Concurrent calls\<close>

text \<open>The actions of a call: load and compare the key, load the date, store the date, store the key.\<close>

datatype date_pc = Begin go_time | Matched go_time | Missed go_time | Stored go_time | Returned go_time int

fun date_action :: "date_pc \<times> date_cache \<Rightarrow> date_pc \<times> date_cache" where
  "date_action (Begin ts, c) = (if dayKey ts = cachedDateDay c then Matched ts else Missed ts, c)"
| "date_action (Matched ts, c) = (case cachedDuckDate c of Some v \<Rightarrow> Returned ts v | None \<Rightarrow> Missed ts, c)"
| "date_action (Missed ts, c) = (Stored ts, c\<lparr>cachedDuckDate := Some (utc_day ts)\<rparr>)"
| "date_action (Stored ts, c) = (Returned ts (utc_day ts), c\<lparr>cachedDateDay := dayKey ts\<rparr>)"
| "date_action (Returned ts d, c) = (Returned ts d, c)"

fun date_schedule :: "nat list \<Rightarrow> date_pc list \<times> date_cache \<Rightarrow> date_pc list \<times> date_cache" where
  "date_schedule [] s = s"
| "date_schedule (i # is) (pcs, c) =
     (let (pc, c') = date_action (pcs ! i, c) in date_schedule is (pcs[i := pc], c'))"

lemma call_alone:
  "fst (date_schedule [0, 0, 0, 0] ([Begin ts], c)) = [Returned ts (fst (fastDuckDate ts c))]"
  by (simp add: fastDuckDate_def split: option.splits)

text \<open>
  Two goroutines that meet at midnight leave the cache wrong: when the date of one call and the
  key of the other are the last ones stored, the cache holds the key of the earlier day with the date
  of the later one, and every following packet of the earlier day is filed under the wrong date.
\<close>

theorem date_cache_race:
  "\<exists>schedule a b c.
     in_span 2000 a \<and> in_span 2000 b \<and> in_span 2000 c \<and> utc_day b = utc_day a + 1 \<and> utc_day c = utc_day a \<and>
     fst (date_schedule schedule ([Begin a, Begin b, Begin c], no_date))
       = [Returned a (utc_day a), Returned b (utc_day b), Returned c (utc_day c + 1)]"
proof -
  let ?a = "\<lparr>nanos = 20454 * ns_per_day - 1, zone = 0\<rparr>"
  let ?b = "\<lparr>nanos = 20454 * ns_per_day, zone = 0\<rparr>"
  let ?c = "\<lparr>nanos = 20454 * ns_per_day - 2, zone = 0\<rparr>"
  have "fst (date_schedule [0, 1, 0, 1, 1, 0, 2, 2] ([Begin ?a, Begin ?b, Begin ?c], no_date))
       = [Returned ?a (utc_day ?a), Returned ?b (utc_day ?b), Returned ?c (utc_day ?c + 1)]"
    by code_simp
  moreover have "in_span 2000 ?a \<and> in_span 2000 ?b \<and> in_span 2000 ?c \<and> utc_day ?b = utc_day ?a + 1 \<and> utc_day ?c = utc_day ?a"
    by code_simp
  ultimately show ?thesis by blast
qed

theorem sequential_dates_right_witness:
  "fastDuckDates [\<lparr>nanos = 20454 * ns_per_day, zone = 0\<rparr>, \<lparr>nanos = 5 * ns_per_day + 7, zone = 0\<rparr>] no_date = [739616, 719167]"
proof -
  have "\<forall>ts\<in>set [\<lparr>nanos = 20454 * ns_per_day, zone = 0\<rparr>, \<lparr>nanos = 5 * ns_per_day + 7, zone = 0\<rparr>]. in_span 1900 ts"
    by code_simp
  from sequential_dates_right [OF this, of no_date] show ?thesis
    by (simp add: date_cache_ok_def utc_day_def ns_per_day_def)
qed

end
