(* ===== verification/Lake_Tiering.thy ===== *)
theory Lake_Tiering
  imports Mover_Safety Lake_Date
begin

text \<open>
  Moving partitions between volumes: \<^verbatim>\<open>MovePartition\<close> and \<^verbatim>\<open>DeletePartition\<close> of
  \<^verbatim>\<open>storage/ducklake/tiered_storage.go\<close> with both engines, and the age-based passes of \<^verbatim>\<open>writer/tiering.go\<close>.

  DuckDB is the record \<open>tier_sql\<close>: each statement takes the table names and the bound date. A statement is atomic, so the catalog
  lock around it changes only what the others may do meanwhile; they act before each statement
  (\<open>me_others\<close>). The goroutines of a pass run one partition each; the model runs them in the order in which they are
  spawned, and what another one does meanwhile belongs to the others.
\<close>

subsection \<open>Volumes and the manager\<close>

datatype VolumeType = VolumeTypeLocal | VolumeTypeS3 | VolumeTypeAzure

record volume =
  vol_Name :: string
  vol_Type :: VolumeType
  vol_Path :: string
  vol_Priority :: int
  MaxDataAgeDays :: int
  MaxSizeGB :: int
  LakeName :: string
  vol_S3 :: S3Config
  vol_Azure :: AzureConfig
  OverrideDataPath :: bool
  CatalogPath :: string

record 'w tier_sql =
  tq_count :: "string \<Rightarrow> string \<Rightarrow> 'w \<Rightarrow> (go_error + int) \<times> 'w"
  tq_insert :: "string \<Rightarrow> string \<Rightarrow> string \<Rightarrow> 'w op"
  tq_delete :: "string \<Rightarrow> string \<Rightarrow> 'w op"
  tq_tables :: "string \<Rightarrow> 'w \<Rightarrow> go_error + string list"
  tq_older :: "string \<Rightarrow> int \<Rightarrow> 'w \<Rightarrow> go_error + string list"
  tq_exists :: "string \<Rightarrow> string \<Rightarrow> 'w \<Rightarrow> go_error + int"
  tq_columns :: "string \<Rightarrow> string \<Rightarrow> 'w \<Rightarrow> go_error + (string \<times> string) list"
  tq_exec :: "string \<Rightarrow> 'w op"

record 'w tier_manager =
  tsm_MoveEngine :: string
  tsm_Postgres :: bool
  tsm_sql :: "'w tier_sql"
  tsm_mover :: "'w mover_env"
  tsm_refresh :: "volume \<Rightarrow> 'w op"

abbreviation tsm_others :: "'w tier_manager \<Rightarrow> 'w \<Rightarrow> 'w" where
  "tsm_others tsm \<equiv> me_others (tsm_mover tsm)"

definition lake_fqn :: "string \<Rightarrow> string \<Rightarrow> string" where
  "lake_fqn lake tbl = lake @ ''.main.'' @ tbl"

datatype partitionMoveAction = partitionMoveNone | partitionMoveCopy | partitionMoveDeleteSourceOnly | partitionMoveReplaceDest

definition partitionMovePlan :: "int \<Rightarrow> int \<Rightarrow> go_error + partitionMoveAction" where
  "partitionMovePlan srcCount dstCount =
     (if srcCount < 0 \<or> dstCount < 0
      then Inl (errorf (''invalid partition row counts: source_rows='' @ FormatInt srcCount @
                  '' destination_rows='' @ FormatInt dstCount))
      else if srcCount = 0 then Inr partitionMoveNone
      else if dstCount = 0 then Inr partitionMoveCopy
      else if dstCount = srcCount then Inr partitionMoveDeleteSourceOnly
      else Inr partitionMoveReplaceDest)"

definition partitionRowCount :: "'w tier_manager \<Rightarrow> string \<Rightarrow> string \<Rightarrow> 'w \<Rightarrow> (go_error + int) \<times> 'w" where
  "partitionRowCount tsm tbl date w = tq_count (tsm_sql tsm) tbl date (tsm_others tsm w)"

text \<open>\<open>execWithRetry\<close> of a statement: the others run before each attempt and during the pauses.\<close>

definition exec_stmt :: "'w tier_manager \<Rightarrow> 'w op \<Rightarrow> 'w op" where
  "exec_stmt tsm stmt = execWithRetry (tsm_others tsm) (\<lambda>v. stmt (tsm_others tsm v))"

definition MoveEngine :: "'w tier_manager \<Rightarrow> string" where
  "MoveEngine tsm = (if EqualFold (TrimSpace (tsm_MoveEngine tsm)) ''native'' then ''native'' else ''duckdb'')"

definition IsRemoteLakeDataPath :: "string \<Rightarrow> bool" where
  "IsRemoteLakeDataPath p = (isS3Path p \<or> isAzurePath p)"

definition useNativeMove :: "'w tier_manager \<Rightarrow> volume \<Rightarrow> volume \<Rightarrow> bool" where
  "useNativeMove tsm srcVol dstVol =
     (if tsm_Postgres tsm then False
      else if MoveEngine tsm \<noteq> ''native'' then False
      else if IsRemoteLakeDataPath (vol_Path srcVol) then False
      else True)"

definition nativeMoveOptions :: "'w tier_manager \<Rightarrow> string \<Rightarrow> string \<Rightarrow> volume \<Rightarrow> volume \<Rightarrow> 'w move_opts" where
  "nativeMoveOptions tsm tableName date srcVol dstVol =
     (let opts = \<lparr>mo_DB = True, mo_SrcLake = LakeName srcVol, mo_DstLake = LakeName dstVol, mo_SrcDataPath = vol_Path srcVol,
            mo_DstDataPath = vol_Path dstVol, mo_TableName = tableName, mo_Partition = date, mo_Copier = None,
            mo_S3 = None, mo_Azure = None, mo_BeforeRegister = None\<rparr> in
      if vol_Type dstVol = VolumeTypeS3 \<or> isS3Path (vol_Path dstVol)
      then opts\<lparr>mo_S3 := Some (vol_S3 dstVol), mo_BeforeRegister := Some (tsm_refresh tsm dstVol)\<rparr>
      else if vol_Type dstVol = VolumeTypeAzure \<or> isAzurePath (vol_Path dstVol)
      then opts\<lparr>mo_Azure := Some (vol_Azure dstVol), mo_BeforeRegister := Some (tsm_refresh tsm dstVol)\<rparr>
      else opts)"

definition movePartitionNative :: "'w tier_manager \<Rightarrow> string \<Rightarrow> string \<Rightarrow> volume \<Rightarrow> volume \<Rightarrow> 'w op" where
  "movePartitionNative tsm tableName date srcVol dstVol w =
     (case Move (tsm_mover tsm) (nativeMoveOptions tsm tableName date srcVol dstVol) w of
        (Inl e, w1) \<Rightarrow> (Some e, w1)
      | (Inr res, w1) \<Rightarrow> (None, w1))"

definition deleteSourcePartition :: "'w tier_manager \<Rightarrow> string \<Rightarrow> string \<Rightarrow> 'w op" where
  "deleteSourcePartition tsm srcTable date w =
     (case exec_stmt tsm (tq_delete (tsm_sql tsm) srcTable date) w of
        (Some e, w1) \<Rightarrow> (Some (wrapf ''source delete failed after copy: '' e), w1)
      | (None, w1) \<Rightarrow> (None, w1))"

definition discardIncompleteDestination :: "'w tier_manager \<Rightarrow> string \<Rightarrow> string \<Rightarrow> 'w op" where
  "discardIncompleteDestination tsm dstTable date w =
     (case exec_stmt tsm (tq_delete (tsm_sql tsm) dstTable date) w of
        (Some e, w1) \<Rightarrow> (Some (wrapf ''failed to discard incomplete destination partition: '' e), w1)
      | (None, w1) \<Rightarrow> (None, w1))"

definition movePartitionDuckDB :: "'w tier_manager \<Rightarrow> string \<Rightarrow> string \<Rightarrow> string \<Rightarrow> 'w op" where
  "movePartitionDuckDB tsm srcTable dstTable date w =
     (case exec_stmt tsm (tq_insert (tsm_sql tsm) dstTable srcTable date) w of
        (Some e, w1) \<Rightarrow> (Some (wrapf ''failed to insert into destination: '' e), w1)
      | (None, w1) \<Rightarrow> deleteSourcePartition tsm srcTable date w1)"

text \<open>The copy, after the destination partition is known to be empty.\<close>

definition copy_partition :: "'w tier_manager \<Rightarrow> string \<Rightarrow> string \<Rightarrow> volume \<Rightarrow> volume \<Rightarrow> 'w op" where
  "copy_partition tsm tableName date srcVol dstVol w =
     (let duckdb = movePartitionDuckDB tsm (lake_fqn (LakeName srcVol) tableName) (lake_fqn (LakeName dstVol) tableName) date in
      if useNativeMove tsm srcVol dstVol
      then (case movePartitionNative tsm tableName date srcVol dstVol w of
              (None, w1) \<Rightarrow> (None, w1)
            | (Some e, w1) \<Rightarrow> if ErrFallback \<notin> set (err_is e) then (Some e, w1) else duckdb w1)
      else duckdb w)"

definition MovePartition :: "'w tier_manager \<Rightarrow> string \<Rightarrow> string \<Rightarrow> volume \<Rightarrow> volume \<Rightarrow> 'w op" where
  "MovePartition tsm tableName date srcVol dstVol w =
     (let srcTable = lake_fqn (LakeName srcVol) tableName; dstTable = lake_fqn (LakeName dstVol) tableName in
     (case tsm_refresh tsm dstVol w of (_, w1) \<Rightarrow>
     (case partitionRowCount tsm srcTable date w1 of
        (Inl e, w2) \<Rightarrow> (Some (wrapf ''failed to count source partition rows: '' e), w2)
      | (Inr srcCount, w2) \<Rightarrow>
     (case partitionRowCount tsm dstTable date w2 of
        (Inl e, w3) \<Rightarrow> (Some (wrapf ''failed to count destination partition rows: '' e), w3)
      | (Inr dstCount, w3) \<Rightarrow>
      if srcCount = 0 then (None, w3)
      else
     (case partitionMovePlan srcCount dstCount of
        Inl e \<Rightarrow> (Some e, w3)
      | Inr partitionMoveDeleteSourceOnly \<Rightarrow> deleteSourcePartition tsm srcTable date w3
      | Inr partitionMoveReplaceDest \<Rightarrow>
          (case discardIncompleteDestination tsm dstTable date w3 of
             (Some e, w4) \<Rightarrow> (Some e, w4)
           | (None, w4) \<Rightarrow> copy_partition tsm tableName date srcVol dstVol w4)
      | Inr _ \<Rightarrow> copy_partition tsm tableName date srcVol dstVol w3)))))"

definition DeletePartition :: "'w tier_manager \<Rightarrow> string \<Rightarrow> string \<Rightarrow> volume \<Rightarrow> 'w op" where
  "DeletePartition tsm tableName date vol w =
     (let tableFQN = lake_fqn (LakeName vol) tableName in
     (case partitionRowCount tsm tableFQN date w of
        (Inl e, w1) \<Rightarrow> (Some (wrapf ''failed to count partition rows: '' e), w1)
      | (Inr n, w1) \<Rightarrow>
      if n = 0 then (None, w1)
      else
     (case exec_stmt tsm (tq_delete (tsm_sql tsm) tableFQN date) w1 of
        (Some e, w2) \<Rightarrow> (Some (wrapf ''failed to delete partition: '' e), w2)
      | (None, w2) \<Rightarrow> (None, w2))))"

definition volumeMaintenanceSQL :: "string \<Rightarrow> int \<Rightarrow> string list" where
  "volumeMaintenanceSQL lakeName snapshotOlderThanSec =
     (let sec = (if snapshotOlderThanSec \<le> 0 then 3600 else snapshotOlderThanSec); q = [SQ] @ lakeName @ [SQ] in
      [''CALL ducklake_expire_snapshots('' @ q @ '', older_than => CAST(NOW() - INTERVAL '' @ [SQ] @ FormatInt sec @ '' seconds'' @ [SQ] @
         '' AS TIMESTAMPTZ))'',
       ''CALL ducklake_cleanup_old_files('' @ q @ '', cleanup_all => true)'',
       ''CALL ducklake_delete_orphaned_files('' @ q @ '', cleanup_all => true)''])"

subsection \<open>Days\<close>

text \<open>
  \<open>time.Parse\<close> with the layout \<^verbatim>\<open>2006-01-02\<close>; the result is the number of the day as in Lake_Date.
\<close>

definition leap_year :: "int \<Rightarrow> bool" where
  "leap_year y = (y mod 4 = 0 \<and> (y mod 100 \<noteq> 0 \<or> y mod 400 = 0))"

definition month_days :: "int \<Rightarrow> int list" where
  "month_days y = [31, if leap_year y then 29 else 28, 31, 30, 31, 30, 31, 31, 30, 31, 30, 31]"

definition civil_day :: "int \<Rightarrow> nat \<Rightarrow> nat \<Rightarrow> int" where
  "civil_day y m d =
     365 * (y - 1) + (y - 1) div 4 - (y - 1) div 100 + (y - 1) div 400 + sum_list (take (m - 1) (month_days y)) + int d - 1"

definition parse_day :: "string \<Rightarrow> int option" where
  "parse_day s =
     (if length s = 10 \<and> s ! 4 = CHR ''-'' \<and> s ! 7 = CHR ''-''
      then case (Atoi_digits 0 (take 4 s), Atoi_digits 0 (take 2 (drop 5 s)), Atoi_digits 0 (drop 8 s)) of
             (Some y, Some m, Some d) \<Rightarrow>
               if 1 \<le> m \<and> m \<le> 12 \<and> 1 \<le> d \<and> int d \<le> month_days (int y) ! (m - 1) then Some (civil_day (int y) m d) else None
           | _ \<Rightarrow> None
      else None)"

definition partitionDayUTC :: "string \<Rightarrow> int option" where
  "partitionDayUTC raw0 = (let raw = TrimSpace raw0 in if length raw < 10 then None else parse_day (take 10 raw))"

definition partitionStillOpen :: "string \<Rightarrow> go_time \<Rightarrow> bool" where
  "partitionStillOpen raw now = (case partitionDayUTC raw of None \<Rightarrow> False | Some day \<Rightarrow> \<not> day < utc_day now)"

text \<open>\<open>time.Now().AddDate(0, 0, -n)\<close>, formatted as a date in the location of \<open>now\<close>.\<close>

definition cutoffDate :: "go_time \<Rightarrow> int \<Rightarrow> int" where
  "cutoffDate now n = local_day now - n"

subsection \<open>The tiering service\<close>

definition finalVolumeForExpire :: "volume option list \<Rightarrow> volume option" where
  "finalVolumeForExpire volumes =
     (if length volumes = 0 then None
      else case last volumes of
             None \<Rightarrow> None
           | Some v \<Rightarrow> if MaxDataAgeDays v \<le> 0 then None else Some v)"

datatype moveFailNotice = moveFailFirst | moveFailRepeat | moveFailSilent

definition moveFailKey :: "string \<Rightarrow> string \<Rightarrow> string" where
  "moveFailKey table date = table @ [CHR 0x00] @ date"

type_synonym move_fails = "string \<rightharpoonup> nat"

definition recordMoveFailure :: "move_fails \<Rightarrow> string \<Rightarrow> string \<Rightarrow> moveFailNotice \<times> move_fails" where
  "recordMoveFailure fails table date =
     (let key = moveFailKey table date; n = Suc (case fails key of Some k \<Rightarrow> k | None \<Rightarrow> 0) in
      (if n = 1 then moveFailFirst else if n = 2 then moveFailRepeat else moveFailSilent, fails(key \<mapsto> n)))"

definition clearMoveFailure :: "move_fails \<Rightarrow> string \<Rightarrow> string \<Rightarrow> move_fails" where
  "clearMoveFailure fails table date = fails(moveFailKey table date := None)"

text \<open>Queries of tables and columns; the whitespace of the SQL texts is not kept.\<close>

definition create_table_sql :: "string \<Rightarrow> string \<Rightarrow> (string \<times> string) list \<Rightarrow> string" where
  "create_table_sql srcTable dstTable columns =
     (if columns = [] then ''CREATE TABLE IF NOT EXISTS '' @ dstTable @ '' AS SELECT * FROM '' @ srcTable @ '' WHERE 1=0''
      else ''CREATE TABLE IF NOT EXISTS '' @ dstTable @ '' ('' @ Join (map (\<lambda>(n, t). n @ '' '' @ t) columns) '', '' @ '')'')"

definition ensureTableExists :: "'w tier_manager \<Rightarrow> volume \<Rightarrow> volume \<Rightarrow> string \<Rightarrow> 'w op" where
  "ensureTableExists tsm srcVol dstVol tableName w0 =
     (let sql = tsm_sql tsm; w = tsm_others tsm w0;
          srcTable = lake_fqn (LakeName srcVol) tableName; dstTable = lake_fqn (LakeName dstVol) tableName in
      case tq_exists sql (LakeName dstVol) tableName w of
        Inl e \<Rightarrow> (Some (wrapf ''failed to check table existence: '' e), w)
      | Inr n \<Rightarrow>
      if n > 0 then (None, w)
      else
     (case tq_columns sql (LakeName srcVol) tableName w of
        Inl e \<Rightarrow> (Some (wrapf ''failed to get source table columns: '' e), w)
      | Inr columns \<Rightarrow>
     (case tq_exec sql (create_table_sql srcTable dstTable columns) (tsm_others tsm w) of
        (Some e, w1) \<Rightarrow> (Some (wrapf ''failed to create table in destination: '' e), w1)
      | (None, w1) \<Rightarrow>
          if ''date'' \<in> set (map fst columns)
          then (None, snd (tq_exec sql (''ALTER TABLE '' @ dstTable @ '' SET PARTITIONED BY (date)'') (tsm_others tsm w1)))
          else (None, w1))))"

text \<open>What a goroutine of a pass does with its partition; the state is the world and the failure counts.\<close>

definition move_one ::
  "'w tier_manager \<Rightarrow> volume \<Rightarrow> volume \<Rightarrow> string \<Rightarrow> string \<Rightarrow> 'w \<times> move_fails \<times> nat \<Rightarrow> 'w \<times> move_fails \<times> nat" where
  "move_one tsm srcVol dstVol table date s =
     (case s of (w, fails, moved) \<Rightarrow>
     (case ensureTableExists tsm srcVol dstVol table w of
        (Some e, w1) \<Rightarrow> (w1, fails, moved)
      | (None, w1) \<Rightarrow>
     (case MovePartition tsm table date srcVol dstVol w1 of
        (Some e, w2) \<Rightarrow> (w2, snd (recordMoveFailure fails table date), moved)
      | (None, w2) \<Rightarrow> (w2, clearMoveFailure fails table date, Suc moved))))"

fun over_tables ::
  "'w tier_manager \<Rightarrow> volume \<Rightarrow> int \<Rightarrow> (string \<Rightarrow> string \<Rightarrow> 'w \<times> 's \<Rightarrow> 'w \<times> 's) \<Rightarrow> string list \<Rightarrow> 'w \<times> 's \<Rightarrow> 'w \<times> 's" where
  "over_tables tsm vol cutoff act [] s = s"
| "over_tables tsm vol cutoff act (t # ts) s =
     (let w = tsm_others tsm (fst s) in
      case tq_older (tsm_sql tsm) (lake_fqn (LakeName vol) t) cutoff w of
        Inl e \<Rightarrow> over_tables tsm vol cutoff act ts (w, snd s)
      | Inr dates \<Rightarrow> over_tables tsm vol cutoff act ts (fold (act t) dates (w, snd s)))"

definition moveOldPartitions ::
  "'w tier_manager \<Rightarrow> volume \<Rightarrow> volume \<Rightarrow> go_time \<Rightarrow> 'w \<times> move_fails \<Rightarrow> (go_error + nat) \<times> 'w \<times> move_fails" where
  "moveOldPartitions tsm srcVol dstVol now s =
     (let w = tsm_others tsm (fst s) in
      case tq_tables (tsm_sql tsm) (LakeName srcVol) w of
        Inl e \<Rightarrow> (Inl (wrapf ''failed to get table names: '' e), w, snd s)
      | Inr tables \<Rightarrow>
         (case over_tables tsm srcVol (cutoffDate now (MaxDataAgeDays srcVol)) (move_one tsm srcVol dstVol) tables (w, snd s, 0) of
            (w1, fails, moved) \<Rightarrow> (Inr moved, w1, fails)))"

definition expire_one :: "'w tier_manager \<Rightarrow> volume \<Rightarrow> string \<Rightarrow> string \<Rightarrow> 'w \<times> nat \<Rightarrow> 'w \<times> nat" where
  "expire_one tsm vol table date s =
     (case DeletePartition tsm table date vol (fst s) of
        (Some e, w1) \<Rightarrow> (w1, snd s)
      | (None, w1) \<Rightarrow> (w1, Suc (snd s)))"

definition expireOldPartitions :: "'w tier_manager \<Rightarrow> volume \<Rightarrow> go_time \<Rightarrow> 'w \<Rightarrow> (go_error + nat) \<times> 'w" where
  "expireOldPartitions tsm vol now w0 =
     (let w = tsm_others tsm w0 in
      case tq_tables (tsm_sql tsm) (LakeName vol) w of
        Inl e \<Rightarrow> (Inl (wrapf ''failed to get table names: '' e), w)
      | Inr tables \<Rightarrow>
         (case over_tables tsm vol (cutoffDate now (MaxDataAgeDays vol)) (expire_one tsm vol) tables (w, 0) of
            (w1, expired) \<Rightarrow> (Inr expired, w1)))"

end
