(* ===== verification/Tiering_Safety.thy ===== *)
theory Tiering_Safety
  imports Lake_Tiering
begin

text \<open>
  What a tiering move does to the rows: the exact result of \<open>MovePartition\<close> when nobody else writes the two
  partitions, what the native engine guarantees while others write, and what the DuckDB engine does not.
\<close>

subsection \<open>Hypotheses\<close>

definition hot_slot :: "('w, 'p, 'r) lake_view \<Rightarrow> string \<Rightarrow> string \<Rightarrow> volume \<Rightarrow> 'p slot" where
  "hot_slot V table date vol = (LakeName vol, table, v_cast V date)"

text \<open>
  A statement of DuckDB is all or nothing: the count is the number of rows of the partition, \<^verbatim>\<open>DELETE\<close> empties it,
  \<^verbatim>\<open>INSERT \<dots> SELECT\<close> adds the rows of the source partition to the destination. Recreating a secret changes no rows.
\<close>

definition stmt_laws :: "('w, 'p, 'r) lake_view \<Rightarrow> 'w tier_sql \<Rightarrow> string \<Rightarrow> string \<Rightarrow> volume \<Rightarrow> bool" where
  "stmt_laws V sql table date vol \<longleftrightarrow>
     (\<forall>w r w'. tq_count sql (lake_fqn (LakeName vol) table) date w = (r, w') \<longrightarrow>
        v_live V w' = v_live V w \<and> (\<forall>n. r = Inr n \<longrightarrow> n = int (size (v_live V w (hot_slot V table date vol))))) \<and>
     (\<forall>w e w'. tq_delete sql (lake_fqn (LakeName vol) table) date w = (e, w') \<longrightarrow>
        v_live V w' = (if e = None then (v_live V w)(hot_slot V table date vol := {#}) else v_live V w))"

definition tier_laws :: "('w, 'p, 'r) lake_view \<Rightarrow> 'w tier_manager \<Rightarrow> string \<Rightarrow> string \<Rightarrow> volume \<Rightarrow> volume \<Rightarrow> bool" where
  "tier_laws V tsm table date src dst \<longleftrightarrow>
     LakeName src \<noteq> LakeName dst \<and> stmt_laws V (tsm_sql tsm) table date src \<and> stmt_laws V (tsm_sql tsm) table date dst \<and>
     (\<forall>w. v_live V (snd (tsm_refresh tsm dst w)) = v_live V w) \<and>
     (\<forall>w e w'. tq_insert (tsm_sql tsm) (lake_fqn (LakeName dst) table) (lake_fqn (LakeName src) table) date w = (e, w') \<longrightarrow>
        v_live V w' = (if e = None
          then (v_live V w)(hot_slot V table date dst := v_live V w (hot_slot V table date dst) + v_live V w (hot_slot V table date src))
          else v_live V w))"



subsection \<open>Statements\<close>



lemma tier_lawsD:
  assumes "tier_laws V tsm table date src dst"
  shows "hot_slot V table date src \<noteq> hot_slot V table date dst"
    "v \<in> {src, dst} \<Longrightarrow> tq_count (tsm_sql tsm) (lake_fqn (LakeName v) table) date w = (r, w') \<Longrightarrow>
       v_live V w' = v_live V w \<and> (\<forall>n. r = Inr n \<longrightarrow> n = int (size (v_live V w (hot_slot V table date v))))"
    "v \<in> {src, dst} \<Longrightarrow> tq_delete (tsm_sql tsm) (lake_fqn (LakeName v) table) date w = (e, w') \<Longrightarrow>
       v_live V w' = (if e = None then (v_live V w)(hot_slot V table date v := {#}) else v_live V w)"
    "v_live V (snd (tsm_refresh tsm dst w)) = v_live V w"
    "tq_insert (tsm_sql tsm) (lake_fqn (LakeName dst) table) (lake_fqn (LakeName src) table) date w = (e, w') \<Longrightarrow>
       v_live V w' = (if e = None
         then (v_live V w)(hot_slot V table date dst := v_live V w (hot_slot V table date dst) + v_live V w (hot_slot V table date src))
         else v_live V w)"
proof -
  note L = assms [unfolded tier_laws_def]
  have st: "v \<in> {src, dst} \<Longrightarrow> stmt_laws V (tsm_sql tsm) table date v" using L by blast
  show "hot_slot V table date src \<noteq> hot_slot V table date dst" using L by (simp add: hot_slot_def)
  show "v \<in> {src, dst} \<Longrightarrow> tq_count (tsm_sql tsm) (lake_fqn (LakeName v) table) date w = (r, w') \<Longrightarrow>
       v_live V w' = v_live V w \<and> (\<forall>n. r = Inr n \<longrightarrow> n = int (size (v_live V w (hot_slot V table date v))))"
    using conjunct1 [OF st [unfolded stmt_laws_def], rule_format] by simp
  show "v \<in> {src, dst} \<Longrightarrow> tq_delete (tsm_sql tsm) (lake_fqn (LakeName v) table) date w = (e, w') \<Longrightarrow>
       v_live V w' = (if e = None then (v_live V w)(hot_slot V table date v := {#}) else v_live V w)"
    using conjunct2 [OF st [unfolded stmt_laws_def], rule_format] by simp
  show "v_live V (snd (tsm_refresh tsm dst w)) = v_live V w" using L by simp
  show "tq_insert (tsm_sql tsm) (lake_fqn (LakeName dst) table) (lake_fqn (LakeName src) table) date w = (e, w') \<Longrightarrow>
       v_live V w' = (if e = None
         then (v_live V w)(hot_slot V table date dst := v_live V w (hot_slot V table date dst) + v_live V w (hot_slot V table date src))
         else v_live V w)" using conjunct2 [OF conjunct2 [OF conjunct2 [OF conjunct2 [OF L]]], rule_format] by simp
qed







subsection \<open>While others write\<close>

lemma exec_stmt_first: "stmt (tsm_others tsm w) = (None, w1) \<Longrightarrow> exec_stmt tsm stmt w = (None, w1)"
  unfolding exec_stmt_def execWithRetry_loop by (subst exec.loop_Suc) simp

text \<open>
  C13. The DuckDB engine loses rows that arrive between its two statements: it copies what the partition holds when
  the \<^verbatim>\<open>INSERT\<close> runs and deletes what it holds when the \<^verbatim>\<open>DELETE\<close> runs, without comparing the two. The rows \<open>late\<close> that were
  flushed into the partition in between are in neither volume afterwards, and the move reports success.
\<close>

theorem duckdb_move_drops_late_rows:
  assumes laws: "tier_laws V tsm table date src dst"
    and dst: "\<forall>w. v_live V (tsm_others tsm w) (LakeName dst, table, v_cast V date) = v_live V w (LakeName dst, table, v_cast V date)"
    and insert: "tq_insert (tsm_sql tsm) (lake_fqn (LakeName dst) table) (lake_fqn (LakeName src) table) date (tsm_others tsm w) = (None, w1)"
    and delete: "tq_delete (tsm_sql tsm) (lake_fqn (LakeName src) table) date (tsm_others tsm w1) = (None, w')"
    and late: "v_live V (tsm_others tsm w1) (LakeName src, table, v_cast V date) = v_live V w1 (LakeName src, table, v_cast V date) + late"
  shows "movePartitionDuckDB tsm (lake_fqn (LakeName src) table) (lake_fqn (LakeName dst) table) date w = (None, w') \<and>
    v_live V w' (LakeName src, table, v_cast V date) = {#} \<and>
    v_live V w' (LakeName dst, table, v_cast V date) + late =
      v_live V w (LakeName dst, table, v_cast V date) + v_live V (tsm_others tsm w1) (LakeName src, table, v_cast V date)"
proof -
  note ne = tier_lawsD(1) [OF laws, unfolded hot_slot_def]
  have i: "v_live V w1 = (v_live V (tsm_others tsm w))((LakeName dst, table, v_cast V date) :=
      v_live V (tsm_others tsm w) (LakeName dst, table, v_cast V date) + v_live V (tsm_others tsm w) (LakeName src, table, v_cast V date))"
    using tier_lawsD(5) [OF laws insert] by (simp add: hot_slot_def)
  have d: "v_live V w' = (v_live V (tsm_others tsm w1))((LakeName src, table, v_cast V date) := {#})"
    using tier_lawsD(3) [OF laws _ delete] by (simp add: hot_slot_def)
  have "movePartitionDuckDB tsm (lake_fqn (LakeName src) table) (lake_fqn (LakeName dst) table) date w = (None, w')"
    using exec_stmt_first [where stmt = "tq_insert (tsm_sql tsm) (lake_fqn (LakeName dst) table) (lake_fqn (LakeName src) table) date", OF insert]
      exec_stmt_first [where stmt = "tq_delete (tsm_sql tsm) (lake_fqn (LakeName src) table) date", OF delete]
    by (simp add: movePartitionDuckDB_def deleteSourcePartition_def)
  moreover have "v_live V w1 (LakeName src, table, v_cast V date) = v_live V (tsm_others tsm w) (LakeName src, table, v_cast V date)"
    using i ne by simp
  moreover have "v_live V w' (LakeName dst, table, v_cast V date) =
      v_live V w (LakeName dst, table, v_cast V date) + v_live V (tsm_others tsm w) (LakeName src, table, v_cast V date)"
    using d i ne dst by simp
  ultimately show ?thesis using d late by simp
qed

subsection \<open>Which days are moved\<close>

lemma local_day_bounds:
  assumes "- 86400 < zone now" "zone now < 86400"
  shows "local_day now \<le> utc_day now + 1" "zone now \<le> 0 \<Longrightarrow> local_day now \<le> utc_day now"
proof -
  have k: "0 < ns_per_day" by (simp add: ns_per_day_def)
  have "zone now * 10 ^ 9 \<le> ns_per_day" using assms by (simp add: ns_per_day_def)
  then have "(nanos now + zone now * 10 ^ 9) div ns_per_day \<le> (nanos now + ns_per_day) div ns_per_day"
    using k by (intro zdiv_mono1) auto
  moreover have "(nanos now + ns_per_day) div ns_per_day = nanos now div ns_per_day + 1" using k by (intro div_add_self2) simp
  ultimately show "local_day now \<le> utc_day now + 1" by (simp only: local_day_def utc_day_def)
  assume "zone now \<le> 0"
  then have "(nanos now + zone now * 10 ^ 9) div ns_per_day \<le> nanos now div ns_per_day"
    using k by (intro zdiv_mono1) (auto simp: mult_nonpos_nonneg)
  then show "local_day now \<le> utc_day now" by (simp add: local_day_def utc_day_def)
qed

text \<open>
  C14. The age-based pass is meant to leave the day alone that is still being written. It does so in time zones up to
  UTC, and everywhere when partitions are kept for at least two days. East of UTC with \<open>MaxDataAgeDays = 1\<close> it does not:
  partitions are cut at UTC midnight but the cutoff is a local date, so after local midnight the pass selects a partition
  that \<open>partitionStillOpen\<close> calls open.
\<close>

theorem age_pass_selects_open_day:
  assumes "1 \<le> age" "- 86400 < z" "z < 86400"
  shows "(\<exists>n raw day. partitionDayUTC raw = Some day \<and> day \<le> cutoffDate \<lparr>nanos = n, zone = z\<rparr> age \<and>
      partitionStillOpen raw \<lparr>nanos = n, zone = z\<rparr>) \<longleftrightarrow> age = 1 \<and> 0 < z"
proof
  assume "\<exists>n raw day. partitionDayUTC raw = Some day \<and> day \<le> cutoffDate \<lparr>nanos = n, zone = z\<rparr> age \<and>
      partitionStillOpen raw \<lparr>nanos = n, zone = z\<rparr>"
  then obtain n raw day where "partitionDayUTC raw = Some day" "day \<le> cutoffDate \<lparr>nanos = n, zone = z\<rparr> age"
    "partitionStillOpen raw \<lparr>nanos = n, zone = z\<rparr>" by blast
  then have "utc_day \<lparr>nanos = n, zone = z\<rparr> \<le> local_day \<lparr>nanos = n, zone = z\<rparr> - age"
    by (simp add: partitionStillOpen_def cutoffDate_def)
  with local_day_bounds [of "\<lparr>nanos = n, zone = z\<rparr>"] assms show "age = 1 \<and> 0 < z" by fastforce
next
  assume z: "age = 1 \<and> 0 < z"
  let ?raw = "''2026-10-20T00:00:00Z''"
  let ?n = "20747 * ns_per_day - 1"
  have day: "partitionDayUTC ?raw = Some 739908" by code_simp
  have k: "0 < ns_per_day" by (simp add: ns_per_day_def)
  have z1: "0 \<le> z * 10 ^ 9 - 1" "z * 10 ^ 9 - 1 < ns_per_day" using z assms by (simp_all add: ns_per_day_def)
  have "(?n + z * 10 ^ 9) div ns_per_day = 20747"
    using radix(1) [OF z1, of 20747] by (simp add: algebra_simps)
  then have l: "local_day \<lparr>nanos = ?n, zone = z\<rparr> = 739909" by (simp add: local_day_def)
  have "?n div ns_per_day = 20746" using radix(1) [of "ns_per_day - 1" ns_per_day 20746] k by (simp add: algebra_simps)
  then have u: "utc_day \<lparr>nanos = ?n, zone = z\<rparr> = 739908" by (simp add: utc_day_def)
  have "partitionDayUTC ?raw = Some 739908 \<and> 739908 \<le> cutoffDate \<lparr>nanos = ?n, zone = z\<rparr> age \<and>
      partitionStillOpen ?raw \<lparr>nanos = ?n, zone = z\<rparr>"
    using day l u z by (simp add: cutoffDate_def partitionStillOpen_def)
  then show "\<exists>n raw day. partitionDayUTC raw = Some day \<and> day \<le> cutoffDate \<lparr>nanos = n, zone = z\<rparr> age \<and>
      partitionStillOpen raw \<lparr>nanos = n, zone = z\<rparr>" by blast
qed

end
