(* ===== verification/Compaction_Example.thy ===== *)
theory Compaction_Example
  imports Compaction_Safety
begin

text \<open>
  A small lake that satisfies the hypotheses of the compaction theorems: one table with one partition, its
  files an association list, its rows a multiset of numbers. The compactor merges the two files of \<open>demo_world\<close>.
\<close>

record demo_lake =
  d_rows :: "nat multiset"
  d_refs :: "string list"
  d_files :: "(string \<times> nat multiset) list"
  d_saved :: "nat multiset \<times> string list"
  d_pending :: "nat multiset"

definition demo_live :: "nat multiset \<Rightarrow> unit slot \<Rightarrow> nat multiset" where
  "demo_live m s = (if fst s = ''lake'' \<and> fst (snd s) = ''calls'' then m else {#})"

definition demo_view :: "(demo_lake, unit, nat) lake_view" where
  "demo_view =
     \<lparr>v_live = \<lambda>w. demo_live (d_rows w), v_refs = \<lambda>w. set (d_refs w), v_content = \<lambda>w. map_of (d_files w),
      v_saved = \<lambda>w. (demo_live (fst (d_saved w)), set (snd (d_saved w))), v_cast = \<lambda>_. (), v_part = \<lambda>_. ()\<rparr>"

definition demo_sql :: "demo_lake lake_sql" where
  "demo_sql =
     \<lparr>sql_conn = \<lambda>w. (None, w), sql_threads = \<lambda>w. (None, w), sql_begin = \<lambda>w. (None, w\<lparr>d_saved := (d_rows w, d_refs w)\<rparr>),
      sql_count = \<lambda>ref pred w. (if int (size (d_rows w)) < 2 ^ 63 then Inr (int (size (d_rows w))) else Inl (errorf ''overflow''), w),
      sql_delete = \<lambda>ref pred w. (None, w\<lparr>d_rows := {#}, d_refs := []\<rparr>),
      sql_add = \<lambda>l t ps w.
        (let fs = map unquote ps in
         if list_all (\<lambda>f. map_of (d_files w) f \<noteq> None) fs
         then (None, w\<lparr>d_rows := d_rows w + files_rows (map_of (d_files w)) fs, d_refs := d_refs w @ fs\<rparr>)
         else (Some (errorf ''no such file''), w)),
      sql_commit = \<lambda>w. (None, w), sql_rollback = \<lambda>w. w\<lparr>d_rows := fst (d_saved w), d_refs := snd (d_saved w)\<rparr>, sql_close = \<lambda>w. w\<rparr>"

lemma demo_live_upd: "(demo_live m)((''lake'', ''calls'', ()) := n) = demo_live n"
  by (auto simp: demo_live_def fun_eq_iff)

lemma demo_files_rows: "files_rows m (filter (\<lambda>p. v_part demo_view p = v) ps) = files_rows m ps"
  by (simp add: demo_view_def)

lemma demo_lake_laws: "lake_laws demo_view demo_sql ''lake'' ''calls'' pk"
proof -
  have "tx_laws demo_view demo_sql"
    by (auto simp: tx_laws_def demo_sql_def demo_view_def same_world_def)
  moreover have "count_law demo_view demo_sql ''lake'' ''calls'' pk"
    by (auto simp: count_law_def demo_sql_def demo_view_def same_world_def demo_live_def split: if_splits)
  moreover have "delete_law demo_view demo_sql ''lake'' ''calls'' pk"
    by (auto simp: delete_law_def demo_sql_def demo_view_def demo_live_upd)
  moreover have "add_law demo_view demo_sql ''lake'' ''calls''"
    by (auto simp: add_law_def demo_sql_def demo_view_def added_rows_def demo_live_def Let_def comp_def list_all_iff split: if_splits)
  ultimately show ?thesis by (simp add: lake_laws_def)
qed

text \<open>
  C10. The swap compares row counts only. Whenever it commits, the partition holds exactly the rows of the merged
  files, so rows that entered the partition after the files were read are gone if as many others were deleted in
  the meantime: the count is the only link between what was merged and what is retired.
\<close>

theorem swap_trusts_row_count:
  assumes "lake_laws V sql lake tbl pk" "swapPartition sql lake tbl pk val n ps w = (None, w')"
    and "\<forall>p\<in>set ps. v_part V p = v_cast V val"
  shows "v_live V w' = (v_live V w)((lake, tbl, v_cast V val) := files_rows (v_content V w) ps) \<and>
    int (size (v_live V w (lake, tbl, v_cast V val))) = n"
  using swapPartition_cases [OF assms] by simp

definition demo_changed :: demo_lake where
  "demo_changed = \<lparr>d_rows = {#1, 2, 4#}, d_refs = [''/a''], d_files = [(''/m'', {#1, 2, 3#}), (''/a'', {#1, 2, 3#})],
     d_saved = ({#}, []), d_pending = {#}\<rparr>"

definition demo_pk :: partitionKey where
  "demo_pk = \<lparr>columnName = ''date'', columnType = ''date'', pk_transform = ''identity''\<rparr>"

lemma demo_swap:
  "\<exists>w'. swapPartition demo_sql ''lake'' ''calls'' demo_pk ''1'' 3 [''/m''] demo_changed = (None, w')"
  by (simp add: swapPartition_def with_tx_def swap_body_def count_rows_def demo_sql_def demo_changed_def Let_def files_rows_def)

text \<open>Row 4 is lost and row 3 is back.\<close>

theorem swap_trusts_row_count_witness:
  "\<exists>w'. swapPartition demo_sql ''lake'' ''calls'' demo_pk ''1'' 3 [''/m''] demo_changed = (None, w') \<and>
    v_live demo_view demo_changed (''lake'', ''calls'', ()) = {#1, 2, 4#} \<and>
    v_live demo_view w' (''lake'', ''calls'', ()) = {#1, 2, 3#}"
proof -
  obtain w' where w': "swapPartition demo_sql ''lake'' ''calls'' demo_pk ''1'' 3 [''/m''] demo_changed = (None, w')"
    using demo_swap by blast
  have "v_live demo_view w' (''lake'', ''calls'', ()) = {#1, 2, 3#}"
    using swap_trusts_row_count [OF demo_lake_laws w'] by (simp add: demo_view_def demo_changed_def files_rows_def)
  with w' show ?thesis by (auto simp: demo_view_def demo_changed_def demo_live_def)
qed

subsection \<open>A table with two files\<close>

definition demo_opts :: compact_opts where
  "demo_opts = \<lparr>co_DB = True, co_LakeName = ''lake'', co_DataPath = ''/data'', co_TargetFileSizeBytes = 100,
     co_MaxRowGroupBytes = 0, co_MinAge = 0\<rparr>"

definition demo_file :: "int \<Rightarrow> string \<Rightarrow> int \<Rightarrow> sourceFile" where
  "demo_file i p n = \<lparr>dataFileID = i, sf_path = p, pathIsRel = 1, recordCount = n, fileSizeBytes = 10, rowIDStart = Some i,
     partitionVal = ''1'', hasDeletes = False, ageSec = None\<rparr>"

definition demo_files :: "sourceFile list" where
  "demo_files = [demo_file 1 ''date=1/a.parquet'' 2, demo_file 2 ''date=1/b.parquet'' 1]"

definition demo_paths :: "string list" where
  "demo_paths = [''/data/main/calls/date=1/a.parquet'', ''/data/main/calls/date=1/b.parquet'']"

definition demo_md :: "demo_lake lake_md" where
  "demo_md =
     \<lparr>md_table = \<lambda>_ _ _. Inr (Some (1, ''calls'')), md_keys = \<lambda>_ _ _. Inr [demo_pk], md_orphans = \<lambda>_ _ _. Inr 0, md_inlined = \<lambda>_ _. Inr 0,
      md_files = \<lambda>_ _ w. Inr (if list_all (\<lambda>p. map_of (d_files w) p \<noteq> None) demo_paths \<and>
        files_rows (map_of (d_files w)) demo_paths \<subseteq># d_rows w then demo_files else [])\<rparr>"

definition demo_lib :: "(demo_lake, nat multiset, nat multiset, unit) parquet_lib" where
  "demo_lib =
     \<lparr>pq_open = \<lambda>p w. (case map_of (d_files w) p of Some m \<Rightarrow> Inr m | None \<Rightarrow> Inl (errorf ''no such file'')),
      pq_groups = \<lambda>_. 1, pq_group_bytes = \<lambda>m _. int (size m), pq_codec = \<lambda>_. None, pq_columns = \<lambda>_. [], pq_arrow = \<lambda>_. None,
      pq_schema = \<lambda>_. Inr [], pq_is_binary = \<lambda>_. False, pq_json_type = Inr (), pq_to_parquet = \<lambda>_ _. Inr [],
      pq_read = \<lambda>m _. Inr m, pq_num_rows = \<lambda>m. int (size m), pq_retype = \<lambda>m _ _. Inr m,
      fs_create = \<lambda>p w. (None, w\<lparr>d_files := (p, {#}) # d_files w\<rparr>), fw_open = \<lambda>_ _ p w. (None, w\<lparr>d_pending := {#}\<rparr>),
      fw_write = \<lambda>p m _ w. (None, w\<lparr>d_pending := d_pending w + m\<rparr>),
      fw_close = \<lambda>p w. (None, w\<lparr>d_files := (p, d_pending w) # d_files w\<rparr>),
      fs_remove = \<lambda>p w. w\<lparr>d_files := filter (\<lambda>(q, _). q \<noteq> p) (d_files w)\<rparr>,
      fs_size = \<lambda>_ _. Inr 0, fs_tail = \<lambda>_ _. Inr ''0000PAR1''\<rparr>"

definition demo_pview :: "(demo_lake, nat multiset, nat multiset, nat) parquet_view" where
  "demo_pview = \<lparr>pv_pending = d_pending, pv_group = \<lambda>m _. m, pv_rows = \<lambda>m. m\<rparr>"

text \<open>A name longer than every path of the world is fresh.\<close>

definition demo_uuid :: "demo_lake \<Rightarrow> string" where
  "demo_uuid w = replicate (Suc (foldr (max \<circ> length) (d_refs w @ map fst (d_files w)) 0)) (CHR ''u'')"

definition demo_env :: "(demo_lake \<Rightarrow> demo_lake) \<Rightarrow> (demo_lake, nat multiset, nat multiset, unit) compact_env" where
  "demo_env others =
     \<lparr>ce_sql = demo_sql, ce_md = demo_md, ce_lib = demo_lib, ce_uuid = \<lambda>w. (demo_uuid w, w), ce_ctx = \<lambda>_. None, ce_others = others\<rparr>"

definition demo_meta :: tableMeta where
  "demo_meta = \<lparr>tableID = 1, tablePath = ''calls'', tm_partition = demo_pk\<rparr>"

lemma demo_readTableMeta: "readTableMeta demo_md lake table w = Inr (Some demo_meta)"
  by (simp add: readTableMeta_def readPartitionKey_def demo_md_def demo_meta_def)

lemma demo_lake: "co_LakeName demo_opts = ''lake''"
  by (simp add: demo_opts_def)

lemma demo_md_files: "md_files demo_md lake tid w =
   Inr (if list_all (\<lambda>p. map_of (d_files w) p \<noteq> None) demo_paths \<and>
     files_rows (map_of (d_files w)) demo_paths \<subseteq># d_rows w then demo_files else [])"
  by (simp add: demo_md_def)

lemma demo_source: "map (source_abs demo_opts demo_meta) demo_files = demo_paths"
  by code_simp

lemma map_of_filter_key: "map_of (filter (\<lambda>(q, _). q \<noteq> p) xs) q = (if q = p then None else map_of xs q)"
  by (induction xs) auto

lemma demo_parquet_laws: "parquet_laws demo_view demo_pview demo_lib"
  unfolding parquet_laws_def
  by (intro conjI) (auto simp: demo_view_def demo_pview_def demo_lib_def on_file_def map_of_filter_key split: option.splits)

lemma demo_fresh:
  assumes "last_comp (''ducklake-'' @ demo_uuid w @ ''.parquet'') p"
  shows "p \<notin> set (d_refs w) \<and> map_of (d_files w) p = None"
proof -
  have "length (demo_uuid w) < length p" using last_comp_length [OF assms] by simp
  then have "foldr (max \<circ> length) (d_refs w @ map fst (d_files w)) 0 < length p" by (simp add: demo_uuid_def)
  moreover have "length q \<le> foldr (max \<circ> length) qs 0" if "q \<in> set qs" for q :: string and qs
    using that by (induction qs) auto
  ultimately have "p \<notin> set (d_refs w @ map fst (d_files w))" by (metis not_le)
  then show ?thesis by (auto simp: map_of_eq_None_iff)
qed

lemma demo_laws:
  assumes "others_law demo_view demo_pview R others"
  shows "compaction_laws demo_view demo_pview R (demo_env others) demo_opts ''calls''"
proof -
  have "SLASH \<notin> set (demo_uuid w)" for w by (simp add: demo_uuid_def)
  then have "uuid_law demo_view demo_pview (demo_env others) demo_opts"
    using demo_fresh output_abs_last by (auto simp: uuid_law_def demo_env_def demo_view_def same_world_def)
  moreover have "catalog_law demo_view (demo_env others) demo_opts ''calls''"
  proof -
    have "filter (\<lambda>f. partitionVal f = v) demo_files = (if v = ''1'' then demo_files else [])" for v
      by (simp add: demo_files_def demo_file_def)
    moreover have "\<forall>f\<in>set demo_files. source_abs demo_opts demo_meta f \<in> set demo_paths"
      using demo_source by (metis image_eqI set_map)
    ultimately show ?thesis
      by (auto simp: catalog_law_def demo_env_def demo_readTableMeta demo_md_files demo_view_def demo_source Let_def list_all_iff
          demo_live_def demo_lake)
  qed
  moreover have "key_law demo_view (demo_env others) demo_opts ''calls''"
    using demo_lake_laws by (simp add: key_law_def demo_env_def demo_opts_def demo_view_def)
  ultimately show ?thesis using assms demo_parquet_laws by (simp add: compaction_laws_def demo_env_def)
qed

definition demo_world :: demo_lake where
  "demo_world = \<lparr>d_rows = {#1, 2, 3#}, d_refs = demo_paths, d_files = zip demo_paths [{#1, 2#}, {#3#}], d_saved = ({#}, []), d_pending = {#}\<rparr>"

lemma demo_alone: "others_law demo_view demo_pview (=) (\<lambda>w. w)"
  by (simp add: others_law_def step_def)

text \<open>Alone, the compactor merges the two files into one.\<close>

definition demo_out :: string where
  "demo_out = output_abs demo_opts demo_meta (demo_uuid demo_world) (hd demo_files)"

definition demo_merged :: demo_lake where
  "demo_merged = demo_world\<lparr>d_files := (demo_out, {#1, 2, 3#}) # (demo_out, {#}) # d_files demo_world, d_pending := {#1, 2, 3#}\<rparr>"

lemma demo_out_fresh: "demo_out \<notin> set demo_paths"
proof -
  have "SLASH \<notin> set (demo_uuid demo_world)" by (simp add: demo_uuid_def)
  from demo_fresh [OF output_abs_last [OF this]] show ?thesis by (simp add: demo_out_def demo_world_def)
qed

lemma demo_merge:
  "merge_batches (demo_env (\<lambda>w. w)) demo_opts demo_meta ''1'' demo_files [[0, 1]] ([], 0, no_partitionResult) demo_world =
     (Inr ([demo_out], 3, \<lparr>pr_filesMerged = 2, pr_filesCreated = 1\<rparr>), demo_merged)"
proof -
  have src: "map (\<lambda>i. source_abs demo_opts demo_meta (demo_files ! i)) [0, 1] = demo_paths"
    using demo_source by (simp add: demo_files_def)
  have out: "output_abs demo_opts demo_meta (demo_uuid demo_world) (demo_files ! 0) = demo_out"
    by (simp add: demo_out_def demo_files_def)
  have rc: "recordCount (demo_files ! 0) = 2" "recordCount (demo_files ! Suc 0) = 1"
    by (simp_all add: demo_files_def demo_file_def)
  obtain a b where ab: "demo_paths = [a, b]" "a \<noteq> b" by (simp add: demo_paths_def)
  have rows: "map_of (d_files demo_world) a = Some {#1, 2#}" "map_of (d_files demo_world) b = Some {#3#}"
    unfolding demo_world_def ab(1) using ab(2) by simp_all
  have "mergeParquetFiles demo_lib (\<lambda>w. w) demo_paths demo_out demo_world =
      (Inr \<lparr>mr_recordCount = 3, mr_fileSizeBytes = 0, mr_footerSize = int (be_val (rev ''0000''))\<rparr>, demo_merged)"
    using ab(2) rows demo_out_fresh unfolding ab(1)
    by (simp add: eq_commute [of _ demo_out] mergeParquetFiles_def demo_lib_def Let_def jsonAnnotatedSchema_def jsonLogicalColumns_def verifyRoundTrip_def
        readParquetFooterSize_def int64_def demo_merged_def)
  then show ?thesis
    using src by (simp add: demo_env_def out rc sum64_def int64_def no_partitionResult_def Let_def)
qed

lemma demo_swapped:
  "fst (swapPartition demo_sql ''lake'' ''calls'' demo_pk ''1'' 3 [demo_out] demo_merged) = None"
  by (simp add: swapPartition_def with_tx_def swap_body_def count_rows_def demo_sql_def demo_merged_def demo_world_def Let_def files_rows_def)

lemma demo_plan:
  "plan_table (demo_env (\<lambda>w. w)) demo_opts ''calls'' (demo_world, PlanSkip [] False) =
     (None, demo_world, PlanParts demo_meta [(''1'', demo_files)])"
  by code_simp

lemma demo_batches: "planPartition (map fileSizeBytes demo_files) 100 = Some [[0, 1]]"
  by code_simp

lemma demo_checks: "partitionHasDeletes demo_files = False"
  by code_simp

lemma demo_env_simps:
  "ce_sql (demo_env f) = demo_sql" "ce_others (demo_env f) = f" "ce_ctx (demo_env f) w = None" "ce_lib (demo_env f) = demo_lib"
  "co_DB demo_opts" "co_LakeName demo_opts = ''lake''" "co_TargetFileSizeBytes demo_opts = 100" "co_MinAge demo_opts = 0"
  "co_MaxRowGroupBytes demo_opts = 0" "tm_partition demo_meta = demo_pk"
  by (simp_all add: demo_env_def demo_opts_def demo_meta_def)

lemma retry_first:
  assumes "fn w = (None, x)"
  shows "withRetryOnLocked f fn w = (None, x)"
  unfolding withRetryOnLocked_loop locked.loop_Suc assms by simp

lemma demo_compacts:
  "cr_PartitionsCompacted (fst (fst (CompactTable (demo_env (\<lambda>w. w)) id demo_opts ''calls'' demo_world))) = 1"
proof -
  obtain w' where w': "swapPartition demo_sql ''lake'' ''calls'' demo_pk ''1'' 3 [demo_out] demo_merged = (None, w')"
    using demo_swapped by (metis prod.collapse)
  have "compactPartition (demo_env (\<lambda>w. w)) demo_opts demo_meta ''calls'' ''1'' demo_files [[0, 1]] demo_world =
      (Inr \<lparr>pr_filesMerged = 2, pr_filesCreated = 1\<rparr>, w')"
    unfolding compactPartition_def demo_merge
    by (simp add: demo_env_simps retry_first [where fn = "swapPartition demo_sql ''lake'' ''calls'' demo_pk ''1'' 3 [demo_out]", OF w'])
  then show ?thesis
    by (simp add: CompactTable_def demo_env_simps retry_first [where fn = "plan_table (demo_env (\<lambda>w. w)) demo_opts ''calls''", OF demo_plan] compact_part_def demo_checks demo_batches
        no_compact_result_def Let_def)
qed

text \<open>A writer that flushes one more row whenever it can.\<close>

definition demo_flush :: "demo_lake \<Rightarrow> demo_lake" where
  "demo_flush w = w\<lparr>d_rows := add_mset 9 (d_rows w)\<rparr>"

lemma demo_flushing: "others_law demo_view demo_pview rows_kept demo_flush"
  by (simp add: others_law_def step_def rows_kept_def demo_flush_def demo_view_def demo_pview_def demo_live_def)

theorem compaction_is_invisible_witness:
  "v_live demo_view (snd (CompactTable (demo_env (\<lambda>w. w)) id demo_opts ''calls'' demo_world)) = v_live demo_view demo_world \<and>
   cr_PartitionsCompacted (fst (fst (CompactTable (demo_env (\<lambda>w. w)) id demo_opts ''calls'' demo_world))) = 1"
  using compaction_is_invisible [OF demo_laws [OF demo_alone], of id demo_world] demo_compacts by simp

theorem compaction_loses_nothing_witness:
  "{#1, 2, 3#} \<subseteq># v_live demo_view (snd (CompactTable (demo_env demo_flush) id demo_opts ''calls'' demo_world)) (''lake'', ''calls'', ())"
  using compaction_loses_nothing [OF demo_laws [OF demo_flushing], of id demo_world "(''lake'', ''calls'', ())"]
  by (simp add: demo_view_def demo_live_def demo_world_def)

end
