(* ===== verification/Tiering_Example.thy ===== *)
theory Tiering_Example
  imports Tiering_Safety Compaction_Example
begin

text \<open>
  Two small volumes that satisfy the hypotheses of the tiering theorems: a hot lake and a cold lake with one table of one
  partition, whose rows are numbers. On them the moves are executed, with a writer that may add a row before
  every statement.
\<close>

record demo_tier =
  dt_hot :: "nat multiset"
  dt_cold :: "nat multiset"
  dt_refs :: "string list"
  dt_files :: "(string \<times> nat multiset) list"
  dt_saved :: "nat multiset \<times> nat multiset \<times> string list"

definition dt_live :: "nat multiset \<Rightarrow> nat multiset \<Rightarrow> unit slot \<Rightarrow> nat multiset" where
  "dt_live h c s =
     (if fst (snd s) = ''calls'' then (if fst s = ''hot'' then h else if fst s = ''cold'' then c else {#}) else {#})"

definition dt_view :: "(demo_tier, unit, nat) lake_view" where
  "dt_view =
     \<lparr>v_live = \<lambda>w. dt_live (dt_hot w) (dt_cold w), v_refs = \<lambda>w. set (dt_refs w), v_content = \<lambda>w. map_of (dt_files w),
      v_saved = \<lambda>w. (dt_live (fst (dt_saved w)) (fst (snd (dt_saved w))), set (snd (snd (dt_saved w)))),
      v_cast = \<lambda>_. (), v_part = \<lambda>_. ()\<rparr>"

lemma dt_live_simps [simp]: "dt_live h c (''hot'', ''calls'', u) = h" "dt_live h c (''cold'', ''calls'', u) = c"
  by (simp_all add: dt_live_def)

lemma dt_live_upd:
  "(dt_live h c)((''hot'', ''calls'', ()) := n) = dt_live n c" "(dt_live h c)((''cold'', ''calls'', ()) := n) = dt_live h n"
  by (auto simp: dt_live_def fun_eq_iff)

subsection \<open>The native engine's surroundings\<close>

definition dt_sql :: "demo_tier lake_sql" where
  "dt_sql =
     \<lparr>sql_conn = \<lambda>w. (None, w), sql_threads = \<lambda>w. (None, w),
      sql_begin = \<lambda>w. (None, w\<lparr>dt_saved := (dt_hot w, dt_cold w, dt_refs w)\<rparr>),
      sql_count = \<lambda>ref pred w.
        (let n = int (size (if ref = tableRef ''hot'' ''calls'' then dt_hot w else dt_cold w))
         in if n < 2 ^ 63 then Inr n else Inl (errorf ''overflow''), w),
      sql_delete = \<lambda>ref pred w. (None, if ref = tableRef ''hot'' ''calls'' then w\<lparr>dt_hot := {#}\<rparr> else w\<lparr>dt_cold := {#}\<rparr>),
      sql_add = \<lambda>l t ps w.
        (let fs = map unquote ps; rows = files_rows (map_of (dt_files w)) fs in
         if list_all (\<lambda>f. map_of (dt_files w) f \<noteq> None) fs
         then (None, if l = quoteLiteral ''hot'' then w\<lparr>dt_hot := dt_hot w + rows, dt_refs := dt_refs w @ fs\<rparr>
                     else w\<lparr>dt_cold := dt_cold w + rows, dt_refs := dt_refs w @ fs\<rparr>)
         else (Some (errorf ''no such file''), w)),
      sql_commit = \<lambda>w. (None, w),
      sql_rollback = \<lambda>w. (case dt_saved w of (h, c, r) \<Rightarrow> w\<lparr>dt_hot := h, dt_cold := c, dt_refs := r\<rparr>), sql_close = \<lambda>w. w\<rparr>"



definition dt_file :: moveFile where
  "dt_file = \<lparr>mf_path = ''date=1/a.parquet'', mf_isRel = 1, mf_records = 2, mf_size = 0, mf_deletes = False\<rparr>"

definition dt_src :: string where "dt_src = ''/h/main/calls/date=1/a.parquet''"
definition dt_dst :: string where "dt_dst = ''/c/main/calls/date=1/a.parquet''"

definition dt_sys :: "demo_tier copy_sys" where
  "dt_sys =
     \<lparr>cs_ctx = \<lambda>_. None, cs_mkdir = \<lambda>_ w. (None, w),
      cs_open = \<lambda>p w. (if map_of (dt_files w) p = None then Some (errorf ''no such file'') else None),
      cs_create = \<lambda>p w. (None, w\<lparr>dt_files := (p, {#}) # dt_files w\<rparr>),
      cs_copy = \<lambda>d s w. (case map_of (dt_files w) s of
         Some m \<Rightarrow> ((0, None), w\<lparr>dt_files := (d, m) # dt_files w\<rparr>) | None \<Rightarrow> ((0, Some (errorf ''no such file'')), w)),
      cs_close = \<lambda>_ w. (None, w), cs_stat = \<lambda>_ _. Inr 0, cs_aws = \<lambda>_ _. None,
      cs_s3_put = \<lambda>_ _ _ _ _ w. (None, w), cs_az_conn = \<lambda>_. None, cs_az_default = None, cs_az_client = \<lambda>_. None,
      cs_az_put = \<lambda>_ _ _ _ w. (None, w)\<rparr>"


text \<open>The catalog reports the file while the hot lake consists of it and the copy is not registered.\<close>

definition dt_md :: "demo_tier lake_md" where
  "dt_md =
     \<lparr>md_table = \<lambda>_ _ _. Inr (Some (1, ''calls'')), md_keys = \<lambda>_ _ _. Inr [demo_pk], md_orphans = \<lambda>_ _ _. Inr 0,
      md_inlined = \<lambda>_ _. Inr 0, md_files = \<lambda>_ _ _. Inr []\<rparr>"

definition dt_env :: "(demo_tier \<Rightarrow> demo_tier) \<Rightarrow> demo_tier mover_env" where
  "dt_env others =
     \<lparr>me_sql = dt_sql, me_md = dt_md, me_funcs = \<lambda>_. Inr 1,
      me_files = \<lambda>_ _ w. Inr (if map_of (dt_files w) dt_src = Some (dt_hot w) \<and> size (dt_hot w) = 2 \<and> dt_dst \<notin> set (dt_refs w)
        then [(dt_file, ''1'')] else []),
      me_sys = dt_sys, me_others = others\<rparr>"




lemma dt_env_simps:
  "me_sql (dt_env f) = dt_sql" "me_md (dt_env f) = dt_md" "me_sys (dt_env f) = dt_sys" "me_others (dt_env f) = f" "me_funcs (dt_env f) w = Inr 1"
  by (simp_all add: dt_env_def)














subsection \<open>The DuckDB engine\<close>

definition dt_tier_sql :: "demo_tier tier_sql" where
  "dt_tier_sql =
     \<lparr>tq_count = \<lambda>t d w. (Inr (int (size (if t = ''hot.main.calls'' then dt_hot w else dt_cold w))), w),
      tq_insert = \<lambda>t s d w. (None, w\<lparr>dt_cold := dt_cold w + dt_hot w\<rparr>),
      tq_delete = \<lambda>t d w. (None, if t = ''hot.main.calls'' then w\<lparr>dt_hot := {#}\<rparr> else w\<lparr>dt_cold := {#}\<rparr>),
      tq_tables = \<lambda>_ _. Inr [''calls''], tq_older = \<lambda>_ _ _. Inr [''1''], tq_exists = \<lambda>_ _ _. Inr 1,
      tq_columns = \<lambda>_ _ _. Inr [], tq_exec = \<lambda>_ w. (None, w)\<rparr>"

definition dt_volume :: "string \<Rightarrow> string \<Rightarrow> volume" where
  "dt_volume lake path =
     \<lparr>vol_Name = lake, vol_Type = VolumeTypeLocal, vol_Path = path, vol_Priority = 0, MaxDataAgeDays = 1, MaxSizeGB = 0,
      LakeName = lake, vol_S3 = no_S3Config, vol_Azure = no_AzureConfig, OverrideDataPath = False, CatalogPath = []\<rparr>"

definition dt_hot_vol :: volume where "dt_hot_vol = dt_volume ''hot'' ''/h''"
definition dt_cold_vol :: volume where "dt_cold_vol = dt_volume ''cold'' ''/c''"

definition dt_manager :: "string \<Rightarrow> demo_tier mover_env \<Rightarrow> demo_tier tier_manager" where
  "dt_manager engine env =
     \<lparr>tsm_MoveEngine = engine, tsm_Postgres = False, tsm_sql = dt_tier_sql, tsm_mover = env, tsm_refresh = \<lambda>_ w. (None, w)\<rparr>"

lemma dt_tables: "lake_fqn (LakeName dt_hot_vol) ''calls'' = ''hot.main.calls''" "lake_fqn (LakeName dt_cold_vol) ''calls'' = ''cold.main.calls''"
  "LakeName dt_hot_vol = ''hot''" "LakeName dt_cold_vol = ''cold''"
  "lake_fqn ''hot'' ''calls'' = ''hot.main.calls''" "lake_fqn ''cold'' ''calls'' = ''cold.main.calls''"
  by (simp_all add: lake_fqn_def dt_hot_vol_def dt_cold_vol_def dt_volume_def)

lemma dt_tier_laws: "tier_laws dt_view (dt_manager engine env) ''calls'' d dt_hot_vol dt_cold_vol"
  by (auto simp: tier_laws_def stmt_laws_def dt_tables hot_slot_def dt_manager_def dt_tier_sql_def dt_view_def dt_live_upd
      add.commute split: if_splits)

definition dt_world :: "nat multiset \<Rightarrow> nat multiset \<Rightarrow> demo_tier" where
  "dt_world h c = \<lparr>dt_hot = h, dt_cold = c, dt_refs = [], dt_files = [], dt_saved = ({#}, {#}, [])\<rparr>"

lemma dt_fields:
  "tsm_sql (dt_manager e env) = dt_tier_sql" "tsm_mover (dt_manager e env) = env" "tsm_refresh (dt_manager e env) v w = (None, w)"
  by (simp_all add: dt_manager_def)




lemma dt_ops:
  "tq_count dt_tier_sql t d w = (Inr (int (size (if t = ''hot.main.calls'' then dt_hot w else dt_cold w))), w)"
  "tq_insert dt_tier_sql t s d w = (None, w\<lparr>dt_cold := dt_cold w + dt_hot w\<rparr>)"
  "tq_delete dt_tier_sql t d w = (None, if t = ''hot.main.calls'' then w\<lparr>dt_hot := {#}\<rparr> else w\<lparr>dt_cold := {#}\<rparr>)"
  by (simp_all add: dt_tier_sql_def)



text \<open>A writer that flushes row 9 before each statement.\<close>

definition dt_flush :: "demo_tier \<Rightarrow> demo_tier" where
  "dt_flush w = w\<lparr>dt_hot := add_mset 9 (dt_hot w)\<rparr>"

theorem duckdb_move_drops_late_rows_witness:
  "\<exists>w'. movePartitionDuckDB (dt_manager ''duckdb'' (dt_env dt_flush)) ''hot.main.calls'' ''cold.main.calls'' ''1'' (dt_world {#1#} {#}) = (None, w') \<and>
    dt_hot w' = {#} \<and> dt_cold w' + {#9#} = {#1, 9, 9#}"
proof -
  let ?tsm = "dt_manager ''duckdb'' (dt_env dt_flush)" and ?w = "dt_world {#1#} {#}"
  let ?w1 = "(dt_flush ?w)\<lparr>dt_cold := {#9, 1#}\<rparr>" and ?w2 = "(dt_flush ?w)\<lparr>dt_cold := {#9, 1#}, dt_hot := {#}\<rparr>"
  have "movePartitionDuckDB ?tsm (lake_fqn (LakeName dt_hot_vol) ''calls'') (lake_fqn (LakeName dt_cold_vol) ''calls'') ''1'' ?w = (None, ?w2) \<and>
    v_live dt_view ?w2 (LakeName dt_hot_vol, ''calls'', v_cast dt_view ''1'') = {#} \<and>
    v_live dt_view ?w2 (LakeName dt_cold_vol, ''calls'', v_cast dt_view ''1'') + {#9#} =
      v_live dt_view ?w (LakeName dt_cold_vol, ''calls'', v_cast dt_view ''1'') +
      v_live dt_view (tsm_others ?tsm ?w1) (LakeName dt_hot_vol, ''calls'', v_cast dt_view ''1'')"
    by (rule duckdb_move_drops_late_rows [OF dt_tier_laws, where ?w1.0 = ?w1])
      (simp_all add: dt_tables dt_fields dt_env_simps dt_ops dt_view_def dt_flush_def dt_world_def)
  then show ?thesis
    by (simp add: dt_tables dt_fields dt_env_simps dt_view_def dt_flush_def dt_world_def)
qed

theorem age_pass_selects_open_day_witness:
  "\<exists>n raw day. partitionDayUTC raw = Some day \<and> day \<le> cutoffDate \<lparr>nanos = n, zone = 3600\<rparr> 1 \<and> partitionStillOpen raw \<lparr>nanos = n, zone = 3600\<rparr>"
  using age_pass_selects_open_day [of 1 3600] by simp

end
