(* ===== verification/Table_Writer.thy ===== *)
theory Table_Writer
  imports Homer_Prelude "HOL-Library.Multiset"
begin

text \<open>
  The double-buffered writer of one lake table (\<open>storage/ducklake/tables.go\<close>: \<open>TableWriter\<close> with
  \<open>Write\<close>, \<open>flushBatch\<close>, \<open>lockActiveMem\<close>, \<open>SwapAndFlush\<close>, \<open>Close\<close>, \<open>flushWorker\<close>,
  \<open>flushSlotDirect\<close>, \<open>copyAndClearSlot\<close>; the same steps run in \<open>flushAll\<close> and \<open>flushQueueWorker\<close>
  of \<open>ducklake.go\<close>, where the queue holds 64 jobs instead of 2).

  Several goroutines call \<open>Write\<close> and \<open>SwapAndFlush\<close> while one worker copies a buffer table to the
  lake. A state holds the shared fields, the two reader/writer locks, the catalog mutex, the free
  connections of the pool, the queue and a program counter for every goroutine; an event is one
  atomic action of one of them, so the runs of \<open>tw_step\<close> are exactly the interleavings. A statement
  of DuckDB (the append of a batch, \<open>INSERT ... SELECT\<close>, \<open>TRUNCATE\<close>) is one action, and its failure
  is an event of its own. What the writer has put in the lake is a multiset of rows: other writers
  of the table (the compactor) rewrite files but keep rows, and are seen here only as holders of the
  catalog mutex and of connections.
\<close>

subsection \<open>Errors of a flush\<close>

definition isFlushRetriableError :: "string \<Rightarrow> bool" where
  "isFlushRetriableError errStr =
     (if errStr = '''' then False
      else if Contains errStr ''NoSuchBucket'' then False
      else if Contains errStr ''InvalidAccessKeyId'' \<or> Contains errStr ''SignatureDoesNotMatch'' then False
      else if Contains errStr ''database is locked'' \<or> Contains errStr ''Could not set lock''
              \<or> Contains errStr ''catalog'' \<or> Contains errStr ''transaction conflict'' then True
      else if Contains errStr ''HTTP Error'' then True
      else False)"

definition isDuckDBFatalError :: "string \<Rightarrow> bool" where
  "isDuckDBFatalError errStr =
     (Contains errStr ''database has been invalidated'' \<or> Contains errStr ''FATAL Error''
      \<or> Contains errStr ''failed to pin block'')"

definition flushMaxRetries :: nat where
  "flushMaxRetries = 5"

subsection \<open>The state\<close>

text \<open>What a goroutine does when its \<open>flushBatch\<close> returns: go back to the caller of \<open>Write\<close>, go on
  with the swap of \<open>SwapAndFlush\<close>, or go on with the close of the queue in \<open>Close\<close>.\<close>

datatype after = Return | ThenSwap | ThenClose

datatype 'r pc =
    Idle
  | Drain after
  | Took after "'r list"
  | Want after "'r list" nat
  | Locked after "'r list" nat
  | Holding after "'r list" nat
  | Appending after "'r list" nat
  | CloseConn after nat
  | RUnlock after nat
  | SwapNow
  | Swapping nat
  | Send nat
  | CloseQueue
  | AwaitWorker
  | Panicked

text \<open>The worker: \<open>WCatalog\<close> asks for the catalog mutex, \<open>WSlot\<close> is about to call and \<open>WWait\<close> waits in
  \<open>Lock\<close> of the slot, \<open>WExec\<close> runs the \<open>INSERT\<close>, \<open>WRelease\<close> gives the catalog mutex back, \<open>WTrunc\<close>
  runs the \<open>TRUNCATE\<close>, \<open>WUnlock\<close> returns from \<open>copyAndClearSlot\<close>. The second argument is the
  attempt, the third the result of the \<open>INSERT\<close>: its error, or the number of rows it copied.\<close>

datatype wpc =
    WIdle
  | WCatalog nat nat
  | WSlot nat nat
  | WWait nat nat
  | WExec nat nat
  | WRelease nat nat "string + nat"
  | WTrunc nat nat nat
  | WUnlock nat nat "string + nat"
  | WExited

datatype owner = Free | ByWorker | ByOther

record 'r table_writer =
  batch :: "'r list"
  activeIdx :: nat
  mem :: "nat \<Rightarrow> 'r multiset"
  lake :: "'r multiset"
  rlock :: "nat \<Rightarrow> nat set"
  wlock :: "nat \<Rightarrow> bool"
  catalogMu :: owner
  conns :: nat
  others :: nat
  flushCh :: "nat list"
  closed :: bool
  threads :: "'r pc list"
  worker :: wpc
  fatal :: bool

record writer_config =
  batchSize :: nat
  queueCap :: nat
  sharedCatalog :: bool

definition new_writer :: "nat \<Rightarrow> nat \<Rightarrow> 'r table_writer" where
  "new_writer n pool =
     \<lparr>batch = [], activeIdx = 0, mem = (\<lambda>_. {#}), lake = {#}, rlock = (\<lambda>_. {}), wlock = (\<lambda>_. False),
      catalogMu = Free, conns = pool, others = 0, flushCh = [], closed = False,
      threads = replicate n Idle, worker = WIdle, fatal = False\<rparr>"

subsection \<open>The goroutines\<close>

text \<open>\<open>Write\<close>: append under \<open>batchMu\<close>, and flush when the batch is full.\<close>

definition Write :: "writer_config \<Rightarrow> nat \<Rightarrow> 'r \<Rightarrow> 'r table_writer \<Rightarrow> 'r table_writer" where
  "Write c t v s =
     (let b = batch s @ [v]
      in s\<lparr>batch := b,
           threads := (threads s)[t := if batchSize c \<le> length b then Drain Return else Idle]\<rparr>)"

text \<open>What follows \<open>flushBatch\<close>, its error being logged or returned.\<close>

fun flushed :: "after \<Rightarrow> 'r pc" where
  "flushed Return = Idle"
| "flushed ThenSwap = SwapNow"
| "flushed ThenClose = CloseQueue"

abbreviation go_to :: "'r table_writer \<Rightarrow> nat \<Rightarrow> 'r pc \<Rightarrow> 'r table_writer" where
  "go_to s t p \<equiv> s\<lparr>threads := (threads s)[t := p]\<rparr>"

text \<open>A call of \<open>Lock\<close> that waits for readers keeps new readers out (Go's \<open>RWMutex\<close>).\<close>

definition lock_pending :: "wpc \<Rightarrow> nat \<Rightarrow> bool" where
  "lock_pending w slot = (case w of WWait k _ \<Rightarrow> k = slot | _ \<Rightarrow> False)"

text \<open>The next action of goroutine \<open>t\<close>; \<open>None\<close> when it has to wait or has none.\<close>

definition thread_step :: "writer_config \<Rightarrow> nat \<Rightarrow> 'r table_writer \<Rightarrow> 'r table_writer option" where
  "thread_step c t s =
     (case threads s ! t of
        Idle \<Rightarrow> None
      | Drain a \<Rightarrow>
          if batch s = [] then Some (go_to s t (flushed a))
          else Some (go_to (s\<lparr>batch := []\<rparr>) t (Took a (batch s)))
      | Took a rows \<Rightarrow> Some (go_to s t (Want a rows (activeIdx s)))
      | Want a rows slot \<Rightarrow>
          if wlock s slot \<or> lock_pending (worker s) slot then None
          else Some (go_to (s\<lparr>rlock := (rlock s)(slot := insert t (rlock s slot))\<rparr>) t (Locked a rows slot))
      | Locked a rows slot \<Rightarrow>
          if activeIdx s = slot then Some (go_to s t (Holding a rows slot))
          else Some (go_to (s\<lparr>rlock := (rlock s)(slot := rlock s slot - {t})\<rparr>) t (Took a rows))
      | Holding a rows slot \<Rightarrow>
          if conns s = 0 then None
          else Some (go_to (s\<lparr>conns := conns s - 1\<rparr>) t (Appending a rows slot))
      | Appending a rows slot \<Rightarrow>
          Some (go_to (s\<lparr>mem := (mem s)(slot := mem s slot + mset rows)\<rparr>) t (CloseConn a slot))
      | CloseConn a slot \<Rightarrow> Some (go_to (s\<lparr>conns := conns s + 1\<rparr>) t (RUnlock a slot))
      | RUnlock a slot \<Rightarrow>
          Some (go_to (s\<lparr>rlock := (rlock s)(slot := rlock s slot - {t})\<rparr>) t (flushed a))
      | SwapNow \<Rightarrow> Some (go_to s t (Swapping (activeIdx s)))
      | Swapping old \<Rightarrow> Some (go_to (s\<lparr>activeIdx := 1 - old\<rparr>) t (Send old))
      | Send old \<Rightarrow>
          if closed s then Some (go_to s t Panicked)
          else if length (flushCh s) < queueCap c then
            Some (go_to (s\<lparr>flushCh := flushCh s @ [old]\<rparr>) t Idle)
          else None
      | CloseQueue \<Rightarrow>
          if closed s then Some (go_to s t Panicked) else Some (go_to (s\<lparr>closed := True\<rparr>) t AwaitWorker)
      | AwaitWorker \<Rightarrow> (case worker s of WExited \<Rightarrow> Some (go_to s t Idle) | _ \<Rightarrow> None)
      | Panicked \<Rightarrow> None)"

text \<open>The failures inside \<open>flushBatch\<close>: no connection, or an error of the appender. The appender is
  closed on its error path, so the first \<open>k\<close> rows may have reached the buffer table; the others are
  dropped with the recycled slice.\<close>

definition conn_fails :: "nat \<Rightarrow> 'r table_writer \<Rightarrow> 'r table_writer option" where
  "conn_fails t s =
     (case threads s ! t of Holding a rows slot \<Rightarrow> Some (go_to s t (RUnlock a slot)) | _ \<Rightarrow> None)"

definition append_fails :: "nat \<Rightarrow> nat \<Rightarrow> 'r table_writer \<Rightarrow> 'r table_writer option" where
  "append_fails t k s =
     (case threads s ! t of
        Appending a rows slot \<Rightarrow>
          Some (go_to (s\<lparr>mem := (mem s)(slot := mem s slot + mset (take k rows))\<rparr>) t (CloseConn a slot))
      | _ \<Rightarrow> None)"

subsection \<open>The flush worker\<close>

text \<open>\<open>flushSlotDirect\<close> after one attempt: done, retry after a back-off, or give the slot up.\<close>

definition next_attempt :: "nat \<Rightarrow> nat \<Rightarrow> string + nat \<Rightarrow> wpc" where
  "next_attempt slot attempt res =
     (case res of
        Inr rows \<Rightarrow> WIdle
      | Inl err \<Rightarrow>
          if \<not> isFlushRetriableError err \<or> attempt = flushMaxRetries then WIdle
          else WCatalog slot (attempt + 1))"

definition worker_step :: "writer_config \<Rightarrow> 'r table_writer \<Rightarrow> 'r table_writer option" where
  "worker_step c s =
     (case worker s of
        WIdle \<Rightarrow>
          (case flushCh s of
             [] \<Rightarrow> if closed s then Some (s\<lparr>worker := WExited\<rparr>) else None
           | slot # rest \<Rightarrow> Some (s\<lparr>flushCh := rest, worker := WCatalog slot 0\<rparr>))
      | WCatalog slot n \<Rightarrow>
          if \<not> sharedCatalog c then Some (s\<lparr>worker := WSlot slot n\<rparr>)
          else if catalogMu s = Free then Some (s\<lparr>catalogMu := ByWorker, worker := WSlot slot n\<rparr>)
          else None
      | WSlot slot n \<Rightarrow> Some (s\<lparr>worker := WWait slot n\<rparr>)
      | WWait slot n \<Rightarrow>
          if rlock s slot = {} then Some (s\<lparr>wlock := (wlock s)(slot := True), worker := WExec slot n\<rparr>)
          else None
      | WExec slot n \<Rightarrow>
          if conns s = 0 then None
          else Some (s\<lparr>lake := lake s + mem s slot, worker := WRelease slot n (Inr (size (mem s slot)))\<rparr>)
      | WRelease slot n res \<Rightarrow>
          Some (s\<lparr>catalogMu := if sharedCatalog c then Free else catalogMu s,
                  worker := (case res of
                               Inl err \<Rightarrow> WUnlock slot n res
                             | Inr rows \<Rightarrow> if 0 < rows then WTrunc slot n rows else WUnlock slot n res)\<rparr>)
      | WTrunc slot n rows \<Rightarrow>
          if conns s = 0 then None
          else Some (s\<lparr>mem := (mem s)(slot := {#}), worker := WUnlock slot n (Inr rows)\<rparr>)
      | WUnlock slot n res \<Rightarrow>
          Some (s\<lparr>wlock := (wlock s)(slot := False), worker := next_attempt slot n res,
                  fatal := (fatal s \<or> (case res of Inr _ \<Rightarrow> False
                                       | Inl err \<Rightarrow> next_attempt slot n res = WIdle \<and> isDuckDBFatalError err))\<rparr>)
      | WExited \<Rightarrow> None)"

definition insert_fails :: "string \<Rightarrow> 'r table_writer \<Rightarrow> 'r table_writer option" where
  "insert_fails err s =
     (case worker s of WExec slot n \<Rightarrow> Some (s\<lparr>worker := WRelease slot n (Inl err)\<rparr>) | _ \<Rightarrow> None)"

text \<open>A failed \<open>TRUNCATE\<close> is logged; the flush still counts as done.\<close>

definition truncate_fails :: "'r table_writer \<Rightarrow> 'r table_writer option" where
  "truncate_fails s =
     (case worker s of WTrunc slot n rows \<Rightarrow> Some (s\<lparr>worker := WUnlock slot n (Inr rows)\<rparr>) | _ \<Rightarrow> None)"

subsection \<open>Events and runs\<close>

datatype 'r event =
    Wr nat 'r
  | Swap nat
  | Close nat
  | Run nat
  | ConnFails nat
  | AppendFails nat nat
  | Work
  | InsertFails string
  | TruncateFails
  | OtherLocks
  | OtherUnlocks
  | OtherTakesConn
  | OtherGivesConn

definition idle :: "'r table_writer \<Rightarrow> nat \<Rightarrow> bool" where
  "idle s t = (case threads s ! t of Idle \<Rightarrow> True | _ \<Rightarrow> False)"

fun tw_step :: "writer_config \<Rightarrow> 'r event \<Rightarrow> 'r table_writer \<Rightarrow> 'r table_writer option" where
  "tw_step c (Wr t v) s = (if t < length (threads s) \<and> idle s t then Some (Write c t v s) else None)"
| "tw_step c (Swap t) s = (if t < length (threads s) \<and> idle s t then Some (go_to s t (Drain ThenSwap)) else None)"
| "tw_step c (Close t) s = (if t < length (threads s) \<and> idle s t then Some (go_to s t (Drain ThenClose)) else None)"
| "tw_step c (Run t) s = (if t < length (threads s) then thread_step c t s else None)"
| "tw_step c (ConnFails t) s = (if t < length (threads s) then conn_fails t s else None)"
| "tw_step c (AppendFails t k) s = (if t < length (threads s) then append_fails t k s else None)"
| "tw_step c Work s = worker_step c s"
| "tw_step c (InsertFails err) s = insert_fails err s"
| "tw_step c TruncateFails s = truncate_fails s"
| "tw_step c OtherLocks s = (if sharedCatalog c \<and> catalogMu s = Free then Some (s\<lparr>catalogMu := ByOther\<rparr>) else None)"
| "tw_step c OtherUnlocks s = (if catalogMu s = ByOther then Some (s\<lparr>catalogMu := Free\<rparr>) else None)"
| "tw_step c OtherTakesConn s =
     (if conns s = 0 then None else Some (s\<lparr>conns := conns s - 1, others := others s + 1\<rparr>))"
| "tw_step c OtherGivesConn s =
     (if others s = 0 then None else Some (s\<lparr>conns := conns s + 1, others := others s - 1\<rparr>))"

fun tw_run :: "writer_config \<Rightarrow> 'r event list \<Rightarrow> 'r table_writer \<Rightarrow> 'r table_writer option" where
  "tw_run c [] s = Some s"
| "tw_run c (e # es) s = (case tw_step c e s of None \<Rightarrow> None | Some s' \<Rightarrow> tw_run c es s')"

text \<open>The states the code can be in.\<close>

inductive reachable :: "writer_config \<Rightarrow> nat \<Rightarrow> nat \<Rightarrow> 'r table_writer \<Rightarrow> bool" for c n pool where
  start: "reachable c n pool (new_writer n pool)"
| next_state: "reachable c n pool s \<Longrightarrow> tw_step c e s = Some s' \<Longrightarrow> reachable c n pool s'"

lemma reachable_run: "reachable c n pool s \<Longrightarrow> tw_run c es s = Some s' \<Longrightarrow> reachable c n pool s'"
  by (induction es arbitrary: s) (auto split: option.splits intro: next_state)

subsection \<open>Locks, connections and slots\<close>

fun holds :: "'r pc \<Rightarrow> nat \<Rightarrow> bool" where
  "holds (Locked a rows slot) i \<longleftrightarrow> slot = i"
| "holds (Holding a rows slot) i \<longleftrightarrow> slot = i"
| "holds (Appending a rows slot) i \<longleftrightarrow> slot = i"
| "holds (CloseConn a slot) i \<longleftrightarrow> slot = i"
| "holds (RUnlock a slot) i \<longleftrightarrow> slot = i"
| "holds _ i \<longleftrightarrow> False"

fun has_conn :: "'r pc \<Rightarrow> bool" where
  "has_conn (Appending a rows slot) \<longleftrightarrow> True"
| "has_conn (CloseConn a slot) \<longleftrightarrow> True"
| "has_conn _ \<longleftrightarrow> False"

fun w_holds :: "wpc \<Rightarrow> nat \<Rightarrow> bool" where
  "w_holds (WExec slot n) i \<longleftrightarrow> slot = i"
| "w_holds (WRelease slot n res) i \<longleftrightarrow> slot = i"
| "w_holds (WTrunc slot n rows) i \<longleftrightarrow> slot = i"
| "w_holds (WUnlock slot n res) i \<longleftrightarrow> slot = i"
| "w_holds _ i \<longleftrightarrow> False"

fun w_catalog :: "wpc \<Rightarrow> bool" where
  "w_catalog (WSlot slot n) \<longleftrightarrow> True"
| "w_catalog (WWait slot n) \<longleftrightarrow> True"
| "w_catalog (WExec slot n) \<longleftrightarrow> True"
| "w_catalog (WRelease slot n res) \<longleftrightarrow> True"
| "w_catalog _ \<longleftrightarrow> False"

definition lock_inv :: "(nat \<Rightarrow> nat set) \<Rightarrow> (nat \<Rightarrow> bool) \<Rightarrow> 'r pc list \<Rightarrow> wpc \<Rightarrow> bool" where
  "lock_inv r w ths wk \<longleftrightarrow>
     (\<forall>i t. t \<in> r i \<longleftrightarrow> t < length ths \<and> holds (ths ! t) i) \<and>
     (\<forall>i. w i \<longleftrightarrow> w_holds wk i) \<and>
     (\<forall>i. w i \<longrightarrow> r i = {})"

abbreviation locks_ok :: "'r table_writer \<Rightarrow> bool" where
  "locks_ok s \<equiv> lock_inv (rlock s) (wlock s) (threads s) (worker s)"

definition conn_users :: "'r pc list \<Rightarrow> nat" where
  "conn_users ths = (\<Sum>p\<leftarrow>ths. if has_conn p then 1 else 0)"

definition conns_ok :: "nat \<Rightarrow> 'r table_writer \<Rightarrow> bool" where
  "conns_ok pool s \<longleftrightarrow> conns s + others s + conn_users (threads s) = pool"

definition catalog_ok :: "writer_config \<Rightarrow> 'r table_writer \<Rightarrow> bool" where
  "catalog_ok c s \<longleftrightarrow>
     (if sharedCatalog c then catalogMu s = ByWorker \<longleftrightarrow> w_catalog (worker s) else catalogMu s = Free)"

text \<open>The count the \<open>INSERT\<close> reported is the size of the slot for as long as it is locked.\<close>

definition copied_ok :: "'r table_writer \<Rightarrow> bool" where
  "copied_ok s \<longleftrightarrow>
     (case worker s of
        WRelease slot n (Inr rows) \<Rightarrow> rows = size (mem s slot)
      | WTrunc slot n rows \<Rightarrow> rows = size (mem s slot)
      | _ \<Rightarrow> True)"

subsection \<open>The actions, one by one\<close>

lemma thread_stepE:
  assumes "thread_step c t s = Some s'"
  obtains
    (nothing) a where "threads s ! t = Drain a" "batch s = []" "s' = go_to s t (flushed a)"
  | (take) a where "threads s ! t = Drain a" "s' = go_to (s\<lparr>batch := []\<rparr>) t (Took a (batch s))"
  | (look) a rows where "threads s ! t = Took a rows" "s' = go_to s t (Want a rows (activeIdx s))"
  | (lock) a rows slot where "threads s ! t = Want a rows slot" "\<not> wlock s slot"
      "s' = go_to (s\<lparr>rlock := (rlock s)(slot := insert t (rlock s slot))\<rparr>) t (Locked a rows slot)"
  | (confirm) a rows slot where "threads s ! t = Locked a rows slot" "activeIdx s = slot"
      "s' = go_to s t (Holding a rows slot)"
  | (again) a rows slot where "threads s ! t = Locked a rows slot" "activeIdx s \<noteq> slot"
      "s' = go_to (s\<lparr>rlock := (rlock s)(slot := rlock s slot - {t})\<rparr>) t (Took a rows)"
  | (conn) a rows slot where "threads s ! t = Holding a rows slot" "0 < conns s"
      "s' = go_to (s\<lparr>conns := conns s - 1\<rparr>) t (Appending a rows slot)"
  | (store) a rows slot where "threads s ! t = Appending a rows slot"
      "s' = go_to (s\<lparr>mem := (mem s)(slot := mem s slot + mset rows)\<rparr>) t (CloseConn a slot)"
  | (unconn) a slot where "threads s ! t = CloseConn a slot"
      "s' = go_to (s\<lparr>conns := conns s + 1\<rparr>) t (RUnlock a slot)"
  | (unlock) a slot where "threads s ! t = RUnlock a slot"
      "s' = go_to (s\<lparr>rlock := (rlock s)(slot := rlock s slot - {t})\<rparr>) t (flushed a)"
  | (load) "threads s ! t = SwapNow" "s' = go_to s t (Swapping (activeIdx s))"
  | (swap) old where "threads s ! t = Swapping old" "s' = go_to (s\<lparr>activeIdx := 1 - old\<rparr>) t (Send old)"
  | (send) old where "threads s ! t = Send old" "\<not> closed s" "length (flushCh s) < queueCap c"
      "s' = go_to (s\<lparr>flushCh := flushCh s @ [old]\<rparr>) t Idle"
  | (panic) "threads s ! t = CloseQueue \<or> (\<exists>old. threads s ! t = Send old)" "closed s" "s' = go_to s t Panicked"
  | (closing) "threads s ! t = CloseQueue" "\<not> closed s" "s' = go_to (s\<lparr>closed := True\<rparr>) t AwaitWorker"
  | (ended) "threads s ! t = AwaitWorker" "worker s = WExited" "s' = go_to s t Idle"
proof (cases "threads s ! t")
  case (Drain a)
  show thesis
  proof (cases "batch s = []")
    case True
    show thesis
      by (rule nothing [of a]) (use assms Drain True in \<open>auto simp: thread_step_def\<close>)
  next
    case False
    show thesis
      by (rule take [of a]) (use assms Drain False in \<open>auto simp: thread_step_def\<close>)
  qed
next
  case (Took a rows)
  with assms show thesis by (auto simp: thread_step_def split: if_splits wpc.splits intro: look)
next
  case (Want a rows slot)
  with assms show thesis by (auto simp: thread_step_def split: if_splits wpc.splits intro: lock)
next
  case (Locked a rows slot)
  with assms show thesis by (auto simp: thread_step_def split: if_splits wpc.splits intro: confirm again)
next
  case (Holding a rows slot)
  with assms show thesis by (auto simp: thread_step_def split: if_splits wpc.splits intro: conn)
next
  case (Appending a rows slot)
  with assms show thesis by (auto simp: thread_step_def split: if_splits wpc.splits intro: store)
next
  case (CloseConn a slot)
  with assms show thesis by (auto simp: thread_step_def split: if_splits wpc.splits intro: unconn)
next
  case (RUnlock a slot)
  with assms show thesis by (auto simp: thread_step_def split: if_splits wpc.splits intro: unlock)
next
  case SwapNow
  with assms show thesis by (auto simp: thread_step_def split: if_splits wpc.splits intro: load)
next
  case (Swapping old)
  with assms show thesis by (auto simp: thread_step_def split: if_splits wpc.splits intro: swap)
next
  case (Send old)
  with assms show thesis by (auto simp: thread_step_def split: if_splits wpc.splits intro: send panic)
next
  case CloseQueue
  with assms show thesis by (auto simp: thread_step_def split: if_splits wpc.splits intro: closing panic)
next
  case AwaitWorker
  with assms show thesis by (auto simp: thread_step_def split: if_splits wpc.splits intro: ended)
next
  case Idle
  with assms show thesis by (simp add: thread_step_def)
next
  case Panicked
  with assms show thesis by (simp add: thread_step_def)
qed

lemma worker_stepE:
  assumes "worker_step c s = Some s'"
  obtains
    (exit) "worker s = WIdle" "flushCh s = []" "closed s" "s' = s\<lparr>worker := WExited\<rparr>"
  | (job) slot rest where "worker s = WIdle" "flushCh s = slot # rest"
      "s' = s\<lparr>flushCh := rest, worker := WCatalog slot 0\<rparr>"
  | (nocat) slot n where "worker s = WCatalog slot n" "\<not> sharedCatalog c" "s' = s\<lparr>worker := WSlot slot n\<rparr>"
  | (cat) slot n where "worker s = WCatalog slot n" "sharedCatalog c" "catalogMu s = Free"
      "s' = s\<lparr>catalogMu := ByWorker, worker := WSlot slot n\<rparr>"
  | (call) slot n where "worker s = WSlot slot n" "s' = s\<lparr>worker := WWait slot n\<rparr>"
  | (acquire) slot n where "worker s = WWait slot n" "rlock s slot = {}"
      "s' = s\<lparr>wlock := (wlock s)(slot := True), worker := WExec slot n\<rparr>"
  | (insert) slot n where "worker s = WExec slot n" "0 < conns s"
      "s' = s\<lparr>lake := lake s + mem s slot, worker := WRelease slot n (Inr (size (mem s slot)))\<rparr>"
  | (release) slot n res where "worker s = WRelease slot n res"
      "s' = s\<lparr>catalogMu := if sharedCatalog c then Free else catalogMu s,
              worker := (case res of
                           Inl err \<Rightarrow> WUnlock slot n res
                         | Inr rows \<Rightarrow> if 0 < rows then WTrunc slot n rows else WUnlock slot n res)\<rparr>"
  | (truncate) slot n rows where "worker s = WTrunc slot n rows" "0 < conns s"
      "s' = s\<lparr>mem := (mem s)(slot := {#}), worker := WUnlock slot n (Inr rows)\<rparr>"
  | (finish) slot n res where "worker s = WUnlock slot n res"
      "s' = s\<lparr>wlock := (wlock s)(slot := False), worker := next_attempt slot n res,
              fatal := (fatal s \<or> (case res of Inr _ \<Rightarrow> False
                                   | Inl err \<Rightarrow> next_attempt slot n res = WIdle \<and> isDuckDBFatalError err))\<rparr>"
proof (cases "worker s")
  case WIdle
  with assms show thesis by (auto simp: worker_step_def split: if_splits list.splits intro: exit job)
next
  case (WCatalog slot n)
  with assms show thesis by (auto simp: worker_step_def split: if_splits list.splits intro: nocat cat)
next
  case (WSlot slot n)
  with assms show thesis by (auto simp: worker_step_def split: if_splits list.splits intro: call)
next
  case (WWait slot n)
  with assms show thesis by (auto simp: worker_step_def split: if_splits list.splits intro: acquire)
next
  case (WExec slot n)
  with assms show thesis by (auto simp: worker_step_def split: if_splits list.splits intro: insert)
next
  case (WRelease slot n res)
  with assms show thesis by (auto simp: worker_step_def split: if_splits list.splits intro: release)
next
  case (WTrunc slot n rows)
  with assms show thesis by (auto simp: worker_step_def split: if_splits list.splits intro: truncate)
next
  case (WUnlock slot n res)
  with assms show thesis by (auto simp: worker_step_def split: if_splits list.splits intro: finish)
next
  case WExited
  with assms show thesis by (simp add: worker_step_def)
qed

lemma idle_iff: "idle s t \<longleftrightarrow> threads s ! t = Idle"
  by (auto simp: idle_def split: pc.splits)

lemma conn_fails_Some:
  "conn_fails t s = Some s' \<longleftrightarrow>
     (\<exists>a rows slot. threads s ! t = Holding a rows slot \<and> s' = go_to s t (RUnlock a slot))"
  by (auto simp: conn_fails_def split: pc.splits)

lemma append_fails_Some:
  "append_fails t k s = Some s' \<longleftrightarrow>
     (\<exists>a rows slot. threads s ! t = Appending a rows slot \<and>
        s' = go_to (s\<lparr>mem := (mem s)(slot := mem s slot + mset (take k rows))\<rparr>) t (CloseConn a slot))"
  by (auto simp: append_fails_def split: pc.splits)

lemma insert_fails_Some:
  "insert_fails err s = Some s' \<longleftrightarrow>
     (\<exists>slot n. worker s = WExec slot n \<and> s' = s\<lparr>worker := WRelease slot n (Inl err)\<rparr>)"
  by (auto simp: insert_fails_def split: wpc.splits)

lemma truncate_fails_Some:
  "truncate_fails s = Some s' \<longleftrightarrow>
     (\<exists>slot n rows. worker s = WTrunc slot n rows \<and> s' = s\<lparr>worker := WUnlock slot n (Inr rows)\<rparr>)"
  by (auto simp: truncate_fails_def split: wpc.splits)

text \<open>The remaining events: a call of an operation, a failure, or somebody else.\<close>

lemma tw_stepE:
  assumes "tw_step c e s = Some s'"
  obtains
    (run) t where "e = Run t" "t < length (threads s)" "thread_step c t s = Some s'"
  | (work) "e = Work" "worker_step c s = Some s'"
  | (wr) t v where "e = Wr t v" "t < length (threads s)" "threads s ! t = Idle"
      "s' = go_to (s\<lparr>batch := batch s @ [v]\<rparr>) t
              (if batchSize c \<le> length (batch s @ [v]) then Drain Return else Idle)"
  | (call) t a where "e = Swap t \<and> a = ThenSwap \<or> e = Close t \<and> a = ThenClose" "t < length (threads s)"
      "threads s ! t = Idle" "s' = go_to s t (Drain a)"
  | (noconn) t a rows slot where "e = ConnFails t" "t < length (threads s)"
      "threads s ! t = Holding a rows slot" "s' = go_to s t (RUnlock a slot)"
  | (noappend) t k a rows slot where "e = AppendFails t k" "t < length (threads s)"
      "threads s ! t = Appending a rows slot"
      "s' = go_to (s\<lparr>mem := (mem s)(slot := mem s slot + mset (take k rows))\<rparr>) t (CloseConn a slot)"
  | (noinsert) err slot n where "e = InsertFails err" "worker s = WExec slot n"
      "s' = s\<lparr>worker := WRelease slot n (Inl err)\<rparr>"
  | (notruncate) slot n rows where "e = TruncateFails" "worker s = WTrunc slot n rows"
      "s' = s\<lparr>worker := WUnlock slot n (Inr rows)\<rparr>"
  | (olock) "e = OtherLocks" "sharedCatalog c" "catalogMu s = Free" "s' = s\<lparr>catalogMu := ByOther\<rparr>"
  | (ounlock) "e = OtherUnlocks" "catalogMu s = ByOther" "s' = s\<lparr>catalogMu := Free\<rparr>"
  | (otake) "e = OtherTakesConn" "0 < conns s" "s' = s\<lparr>conns := conns s - 1, others := others s + 1\<rparr>"
  | (ogive) "e = OtherGivesConn" "0 < others s" "s' = s\<lparr>conns := conns s + 1, others := others s - 1\<rparr>"
proof (cases e)
  case (Wr t v)
  show thesis
    by (rule wr [of t v]) (use assms Wr in \<open>auto simp: Write_def Let_def idle_iff split: if_split_asm\<close>)
next
  case (Swap t)
  show thesis
    by (rule call [of t ThenSwap]) (use assms Swap in \<open>auto simp: idle_iff split: if_split_asm\<close>)
next
  case (Close t)
  show thesis
    by (rule call [of t ThenClose]) (use assms Close in \<open>auto simp: idle_iff split: if_split_asm\<close>)
next
  case (Run t)
  show thesis
    by (rule run [of t]) (use assms Run in \<open>auto split: if_split_asm\<close>)
next
  case (ConnFails t)
  with assms show thesis
    by (auto simp: conn_fails_Some split: if_split_asm intro: noconn)
next
  case (AppendFails t k)
  with assms show thesis
    by (auto simp: append_fails_Some split: if_split_asm intro: noappend)
next
  case Work
  with assms show thesis
    by (auto split: if_split_asm intro: work)
next
  case (InsertFails err)
  with assms show thesis
    by (auto simp: insert_fails_Some split: if_split_asm intro: noinsert)
next
  case TruncateFails
  with assms show thesis
    by (auto simp: truncate_fails_Some split: if_split_asm intro: notruncate)
next
  case OtherLocks
  show thesis
    by (rule olock) (use assms OtherLocks in \<open>auto split: if_split_asm\<close>)
next
  case OtherUnlocks
  show thesis
    by (rule ounlock) (use assms OtherUnlocks in \<open>auto split: if_split_asm\<close>)
next
  case OtherTakesConn
  show thesis
    by (rule otake) (use assms OtherTakesConn in \<open>auto split: if_split_asm\<close>)
next
  case OtherGivesConn
  show thesis
    by (rule ogive) (use assms OtherGivesConn in \<open>auto split: if_split_asm\<close>)
qed

subsection \<open>The locks\<close>

lemma lock_move:
  "lock_inv r w ths wk \<Longrightarrow> (\<And>i. holds p i = holds (ths ! t) i) \<Longrightarrow> lock_inv r w (ths[t := p]) wk"
  by (cases "t < length ths") (auto simp: lock_inv_def nth_list_update)

lemma lock_take:
  assumes "lock_inv r w ths wk" and "t < length ths" and "\<not> w slot"
    and "\<And>i. \<not> holds (ths ! t) i" and "\<And>i. holds p i \<longleftrightarrow> slot = i"
  shows "lock_inv (r(slot := insert t (r slot))) w (ths[t := p]) wk"
  using assms by (auto simp: lock_inv_def nth_list_update)

lemma lock_give:
  assumes "lock_inv r w ths wk" and "t < length ths"
    and "\<And>i. holds (ths ! t) i \<longleftrightarrow> slot = i" and "\<And>i. \<not> holds p i"
  shows "lock_inv (r(slot := r slot - {t})) w (ths[t := p]) wk"
  using assms by (auto simp: lock_inv_def nth_list_update)

lemma lock_worker:
  "lock_inv r w ths wk \<Longrightarrow> (\<And>i. w_holds wk' i = w_holds wk i) \<Longrightarrow> lock_inv r w ths wk'"
  by (simp add: lock_inv_def)

lemma lock_worker_take:
  assumes "lock_inv r w ths wk" and "r slot = {}" and "\<And>i. \<not> w_holds wk i" and "\<And>i. w_holds wk' i \<longleftrightarrow> slot = i"
  shows "lock_inv r (w(slot := True)) ths wk'"
  using assms by (auto simp: lock_inv_def)

lemma lock_worker_give:
  assumes "lock_inv r w ths wk" and "\<And>i. w_holds wk i \<longleftrightarrow> slot = i" and "\<And>i. \<not> w_holds wk' i"
  shows "lock_inv r (w(slot := False)) ths wk'"
  using assms by (auto simp: lock_inv_def)

lemma next_attempt_free [simp]:
  "\<not> w_holds (next_attempt slot n res) i" "\<not> w_catalog (next_attempt slot n res)"
  by (auto simp: next_attempt_def split: sum.splits)

lemma flushed_free [simp]: "\<not> holds (flushed a) i" "\<not> has_conn (flushed a)"
  by (cases a; simp)+

lemma locks_thread:
  assumes "locks_ok s" and "t < length (threads s)" and "thread_step c t s = Some s'"
  shows "locks_ok s'"
  using assms(3)
proof (cases rule: thread_stepE)
  case (lock a rows slot)
  with assms show ?thesis by (auto intro!: lock_take)
next
  case (again a rows slot)
  with assms show ?thesis by (auto intro!: lock_give)
next
  case (unlock a slot)
  with assms show ?thesis by (auto intro!: lock_give)
qed (use assms in \<open>auto intro!: lock_move\<close>)

lemma locks_worker:
  assumes "locks_ok s" and "worker_step c s = Some s'"
  shows "locks_ok s'"
  using assms(2)
proof (cases rule: worker_stepE)
  case (acquire slot n)
  with assms show ?thesis by (auto intro!: lock_worker_take)
next
  case (finish slot n res)
  with assms show ?thesis by (auto intro!: lock_worker_give)
qed (use assms in \<open>auto elim!: lock_worker split: sum.splits\<close>)

lemma locks_ok_step:
  assumes "locks_ok s" and "tw_step c e s = Some s'"
  shows "locks_ok s'"
  using assms(2)
proof (cases rule: tw_stepE)
  case (run t)
  with assms show ?thesis by (auto intro: locks_thread)
next
  case work
  with assms show ?thesis by (auto intro: locks_worker)
qed (use assms in \<open>auto intro!: lock_move elim!: lock_worker\<close>)

subsection \<open>Connections, the catalog mutex and the copied slot\<close>

lemma sum_list_move:
  fixes f :: "'a \<Rightarrow> 'b::comm_monoid_add"
  assumes "t < length xs"
  shows "sum_list (map f (xs[t := x])) + f (xs ! t) = sum_list (map f xs) + f x"
  using assms
  by (induction xs arbitrary: t) (auto simp: algebra_simps nth_Cons split: nat.splits)

lemma conn_users_move:
  assumes "t < length ths"
  shows "conn_users (ths[t := p]) + (if has_conn (ths ! t) then 1 else 0) = conn_users ths + (if has_conn p then 1 else 0)"
  using sum_list_move [OF assms, of "\<lambda>p. if has_conn p then 1 else 0" p] by (simp add: conn_users_def)

lemma conn_same [simp]: "has_conn p = has_conn (ths ! t) \<Longrightarrow> conn_users (ths[t := p]) = conn_users ths"
  using conn_users_move [of t ths p] by (cases "t < length ths") (auto simp: list_update_beyond split: if_splits)

lemma conn_more [simp]:
  "t < length ths \<Longrightarrow> \<not> has_conn (ths ! t) \<Longrightarrow> has_conn p \<Longrightarrow> conn_users (ths[t := p]) = Suc (conn_users ths)"
  using conn_users_move [of t ths p] by simp

lemma conn_less:
  "t < length ths \<Longrightarrow> has_conn (ths ! t) \<Longrightarrow> \<not> has_conn p \<Longrightarrow> Suc (conn_users (ths[t := p])) = conn_users ths"
  using conn_users_move [of t ths p] by simp

lemma conns_thread:
  assumes "conns_ok pool s" and "t < length (threads s)" and "thread_step c t s = Some s'"
  shows "conns_ok pool s'"
  using assms(3)
proof (cases rule: thread_stepE)
  case (unconn a slot)
  with assms(1) conn_less [OF assms(2), of "RUnlock a slot"] show ?thesis by (auto simp: conns_ok_def)
qed (use assms in \<open>auto simp: conns_ok_def\<close>)

lemma conns_ok_step:
  assumes "conns_ok pool s" and "tw_step c e s = Some s'"
  shows "conns_ok pool s'"
  using assms(2)
proof (cases rule: tw_stepE)
  case (run t)
  with assms show ?thesis by (auto intro: conns_thread)
next
  case work
  from work(2) show ?thesis
    by (cases rule: worker_stepE) (use assms(1) in \<open>auto simp: conns_ok_def\<close>)
qed (use assms(1) in \<open>auto simp: conns_ok_def\<close>)

lemma catalog_ok_step:
  assumes "catalog_ok c s" and "tw_step c e s = Some s'"
  shows "catalog_ok c s'"
  using assms(2)
proof (cases rule: tw_stepE)
  case (run t)
  from run(3) show ?thesis
    by (cases rule: thread_stepE) (use assms(1) in \<open>auto simp: catalog_ok_def\<close>)
next
  case work
  from work(2) show ?thesis
    by (cases rule: worker_stepE) (use assms(1) in \<open>auto simp: catalog_ok_def split: if_splits sum.splits\<close>)
qed (use assms(1) in \<open>auto simp: catalog_ok_def split: if_splits\<close>)

text \<open>No row is appended to a slot while the worker has it locked.\<close>

lemma append_excluded:
  assumes "locks_ok s" and "t < length (threads s)" and "holds (threads s ! t) slot"
  shows "\<not> w_holds (worker s) slot"
  using assms unfolding lock_inv_def by blast

lemma copied_append:
  assumes "copied_ok s" and "\<not> w_holds (worker s) slot"
  shows "copied_ok (s\<lparr>mem := (mem s)(slot := m), threads := ths\<rparr>)"
  using assms by (auto simp: copied_ok_def split: wpc.splits sum.splits)

lemma copied_ok_step:
  assumes "copied_ok s" and "locks_ok s" and "tw_step c e s = Some s'"
  shows "copied_ok s'"
  using assms(3)
proof (cases rule: tw_stepE)
  case (run t)
  from run(3) show ?thesis
  proof (cases rule: thread_stepE)
    case (store a rows slot)
    then have "\<not> w_holds (worker s) slot"
      using append_excluded [OF assms(2) run(2)] by simp
    with store assms(1) show ?thesis by (simp add: copied_append)
  qed (use assms(1) in \<open>auto simp: copied_ok_def split: wpc.splits sum.splits\<close>)
next
  case work
  from work(2) show ?thesis
    by (cases rule: worker_stepE)
       (use assms(1) in \<open>auto simp: copied_ok_def next_attempt_def split: sum.splits\<close>)
next
  case (noappend t k a rows slot)
  then have "\<not> w_holds (worker s) slot"
    using append_excluded [OF assms(2) noappend(2)] by simp
  with noappend assms(1) show ?thesis by (simp add: copied_append)
qed (use assms(1) in \<open>auto simp: copied_ok_def split: wpc.splits sum.splits\<close>)

subsection \<open>There are two slots\<close>

fun pc_slots :: "'r pc \<Rightarrow> bool" where
  "pc_slots (Want a rows slot) \<longleftrightarrow> slot < 2"
| "pc_slots (Locked a rows slot) \<longleftrightarrow> slot < 2"
| "pc_slots (Holding a rows slot) \<longleftrightarrow> slot < 2"
| "pc_slots (Appending a rows slot) \<longleftrightarrow> slot < 2"
| "pc_slots (CloseConn a slot) \<longleftrightarrow> slot < 2"
| "pc_slots (RUnlock a slot) \<longleftrightarrow> slot < 2"
| "pc_slots (Swapping old) \<longleftrightarrow> old < 2"
| "pc_slots (Send old) \<longleftrightarrow> old < 2"
| "pc_slots _ \<longleftrightarrow> True"

fun w_slots :: "wpc \<Rightarrow> bool" where
  "w_slots (WCatalog slot n) \<longleftrightarrow> slot < 2"
| "w_slots (WSlot slot n) \<longleftrightarrow> slot < 2"
| "w_slots (WWait slot n) \<longleftrightarrow> slot < 2"
| "w_slots (WExec slot n) \<longleftrightarrow> slot < 2"
| "w_slots (WRelease slot n res) \<longleftrightarrow> slot < 2"
| "w_slots (WTrunc slot n rows) \<longleftrightarrow> slot < 2"
| "w_slots (WUnlock slot n res) \<longleftrightarrow> slot < 2"
| "w_slots _ \<longleftrightarrow> True"

definition slots_ok :: "'r table_writer \<Rightarrow> bool" where
  "slots_ok s \<longleftrightarrow> activeIdx s < 2 \<and> list_all pc_slots (threads s) \<and> w_slots (worker s) \<and> (\<forall>i\<in>set (flushCh s). i < 2)"

lemma list_all_move [intro]: "list_all P xs \<Longrightarrow> P x \<Longrightarrow> list_all P (xs[t := x])"
  by (metis (mono_tags, lifting) insertE list_all_iff set_update_subset_insert subsetD)

lemma pc_slots_flushed [simp]: "pc_slots (flushed a)"
  by (cases a) auto

lemma w_slots_next: "slot < 2 \<Longrightarrow> w_slots (next_attempt slot n res)"
  by (auto simp: next_attempt_def split: sum.splits)

lemma pc_slots_nth: "slots_ok s \<Longrightarrow> t < length (threads s) \<Longrightarrow> pc_slots (threads s ! t)"
  by (simp add: slots_ok_def list_all_length)

lemma slots_ok_step:
  assumes "slots_ok s" and "tw_step c e s = Some s'"
  shows "slots_ok s'"
  using assms(2)
proof (cases rule: tw_stepE)
  case (run t)
  from run(3) show ?thesis
    by (cases rule: thread_stepE)
       (use assms(1) pc_slots_nth [OF assms(1) run(2)] in \<open>auto simp: slots_ok_def\<close>)
next
  case work
  from work(2) show ?thesis
    by (cases rule: worker_stepE) (use assms(1) in \<open>auto simp: slots_ok_def w_slots_next split: sum.splits\<close>)
next
  case (noconn t a rows slot)
  with assms(1) pc_slots_nth [OF assms(1) noconn(2)] show ?thesis by (auto simp: slots_ok_def)
next
  case (noappend t k a rows slot)
  with assms(1) pc_slots_nth [OF assms(1) noappend(2)] show ?thesis by (auto simp: slots_ok_def)
qed (use assms(1) in \<open>auto simp: slots_ok_def\<close>)

subsection \<open>Attempts and the end\<close>

fun w_attempts :: "wpc \<Rightarrow> bool" where
  "w_attempts (WCatalog slot n) \<longleftrightarrow> n \<le> flushMaxRetries"
| "w_attempts (WSlot slot n) \<longleftrightarrow> n \<le> flushMaxRetries"
| "w_attempts (WWait slot n) \<longleftrightarrow> n \<le> flushMaxRetries"
| "w_attempts (WExec slot n) \<longleftrightarrow> n \<le> flushMaxRetries"
| "w_attempts (WRelease slot n res) \<longleftrightarrow> n \<le> flushMaxRetries"
| "w_attempts (WTrunc slot n rows) \<longleftrightarrow> n \<le> flushMaxRetries"
| "w_attempts (WUnlock slot n res) \<longleftrightarrow> n \<le> flushMaxRetries"
| "w_attempts _ \<longleftrightarrow> True"

definition ends_ok :: "'r table_writer \<Rightarrow> bool" where
  "ends_ok s \<longleftrightarrow>
     w_attempts (worker s) \<and> (worker s = WExited \<longrightarrow> closed s) \<and>
     list_all (\<lambda>p. p = AwaitWorker \<longrightarrow> closed s) (threads s)"

lemma flushed_not_await [simp]: "flushed a \<noteq> AwaitWorker"
  by (cases a) auto

lemma w_attempts_next: "n \<le> flushMaxRetries \<Longrightarrow> w_attempts (next_attempt slot n res)"
  by (auto simp: next_attempt_def split: sum.splits)

lemma next_not_exited [simp]: "next_attempt slot n res \<noteq> WExited"
  by (auto simp: next_attempt_def split: sum.splits)

lemma list_all_True: "list_all (\<lambda>p. P p \<longrightarrow> True) xs"
  by (simp add: list_all_length)

lemma ends_ok_step:
  assumes "ends_ok s" and "tw_step c e s = Some s'"
  shows "ends_ok s'"
  using assms(2)
proof (cases rule: tw_stepE)
  case (run t)
  from run(3) show ?thesis
  proof (cases rule: thread_stepE)
    case closing
    then show ?thesis using assms(1) by (auto simp: ends_ok_def list_all_length)
  qed (use assms(1) in \<open>auto simp: ends_ok_def\<close>)
next
  case work
  from work(2) show ?thesis
    by (cases rule: worker_stepE)
       (use assms(1) in \<open>auto simp: ends_ok_def w_attempts_next split: sum.splits\<close>)
qed (use assms(1) in \<open>auto simp: ends_ok_def\<close>)

subsection \<open>The invariant\<close>

definition tw_inv :: "writer_config \<Rightarrow> nat \<Rightarrow> nat \<Rightarrow> 'r table_writer \<Rightarrow> bool" where
  "tw_inv c n pool s \<longleftrightarrow>
     length (threads s) = n \<and> locks_ok s \<and> conns_ok pool s \<and> catalog_ok c s \<and> copied_ok s \<and> slots_ok s \<and> ends_ok s"

lemma threads_kept: "tw_step c e s = Some s' \<Longrightarrow> length (threads s') = length (threads s)"
proof (erule tw_stepE)
  fix t assume "thread_step c t s = Some s'"
  then show ?thesis by (cases rule: thread_stepE) auto
next
  assume "worker_step c s = Some s'"
  then show ?thesis by (cases rule: worker_stepE) auto
qed auto

lemma tw_inv_step: "tw_inv c n pool s \<Longrightarrow> tw_step c e s = Some s' \<Longrightarrow> tw_inv c n pool s'"
  unfolding tw_inv_def
  by (auto simp: threads_kept intro: locks_ok_step conns_ok_step catalog_ok_step copied_ok_step slots_ok_step ends_ok_step)

lemma tw_inv_start: "tw_inv c n pool (new_writer n pool)"
  by (simp add: tw_inv_def new_writer_def lock_inv_def conns_ok_def catalog_ok_def copied_ok_def
      slots_ok_def ends_ok_def conn_users_def list_all_length map_replicate_const sum_list_replicate)

lemma reachable_inv: "reachable c n pool s \<Longrightarrow> tw_inv c n pool s"
  by (induction rule: reachable.induct) (auto intro: tw_inv_start tw_inv_step)

subsection \<open>Where the rows are\<close>

fun held :: "'r pc \<Rightarrow> 'r multiset" where
  "held (Took a rows) = mset rows"
| "held (Want a rows slot) = mset rows"
| "held (Locked a rows slot) = mset rows"
| "held (Holding a rows slot) = mset rows"
| "held (Appending a rows slot) = mset rows"
| "held _ = {#}"

text \<open>The rows of a slot that are not in the lake yet: none once the \<open>INSERT\<close> has run, although
  they are still in the buffer table until the \<open>TRUNCATE\<close>.\<close>

fun copied :: "wpc \<Rightarrow> nat \<Rightarrow> bool" where
  "copied (WRelease slot n (Inr rows)) i \<longleftrightarrow> slot = i"
| "copied (WTrunc slot n rows) i \<longleftrightarrow> slot = i"
| "copied _ i \<longleftrightarrow> False"

definition waiting :: "'r table_writer \<Rightarrow> nat \<Rightarrow> 'r multiset" where
  "waiting s i = (if copied (worker s) i then {#} else mem s i)"

definition total_rows :: "'r table_writer \<Rightarrow> 'r multiset" where
  "total_rows s =
     lake s + waiting s 0 + waiting s 1 + mset (batch s) + (\<Sum>p\<leftarrow>threads s. held p)"

fun written :: "'r event \<Rightarrow> 'r multiset" where
  "written (Wr t v) = {#v#}"
| "written _ = {#}"

fun clean :: "'r event \<Rightarrow> bool" where
  "clean (ConnFails t) \<longleftrightarrow> False"
| "clean (AppendFails t k) \<longleftrightarrow> False"
| "clean TruncateFails \<longleftrightarrow> False"
| "clean _ \<longleftrightarrow> True"

lemma held_flushed [simp]: "held (flushed a) = {#}"
  by (cases a) auto

lemma held_move:
  assumes "t < length ths"
  shows "(\<Sum>p\<leftarrow>ths[t := p]. held p) + held (ths ! t) = (\<Sum>p\<leftarrow>ths. held p) + held p"
  using sum_list_move [OF assms] .

lemma held_same: "held p = held (ths ! t) \<Longrightarrow> (\<Sum>p\<leftarrow>ths[t := p]. held p) = (\<Sum>p\<leftarrow>ths. held p)"
  using held_move [of t ths p] by (cases "t < length ths") (auto simp: list_update_beyond)

lemma copied_next [simp]: "\<not> copied (next_attempt slot n res) i"
  by (auto simp: next_attempt_def split: sum.splits)

lemma copied_holds: "copied w i \<Longrightarrow> w_holds w i"
  by (cases "(w, i)" rule: copied.cases) auto

lemma total_thread:
  assumes "tw_inv c n pool s" and "t < length (threads s)" and "thread_step c t s = Some s'"
  shows "total_rows s' = total_rows s"
  using assms(3)
proof (cases rule: thread_stepE)
  case (take a)
  with held_move [OF assms(2), of "Took a (batch s)"] show ?thesis
    by (simp add: total_rows_def waiting_def)
next
  case (store a rows slot)
  from assms have inv: "locks_ok s" "slots_ok s" by (auto simp: tw_inv_def)
  have "\<not> copied (worker s) slot"
    using append_excluded [OF inv(1) assms(2), of slot] store(1) copied_holds by auto
  moreover have "slot < 2"
    using pc_slots_nth [OF inv(2) assms(2)] store(1) by simp
  ultimately show ?thesis
    using held_move [OF assms(2), of "CloseConn a slot"] store
    by (auto simp: total_rows_def waiting_def less_2_cases_iff ac_simps)
qed (use assms in \<open>auto simp: total_rows_def waiting_def held_same\<close>)

lemma total_worker:
  assumes "tw_inv c n pool s" and "worker_step c s = Some s'"
  shows "total_rows s' = total_rows s"
  using assms(2)
proof (cases rule: worker_stepE)
  case (insert slot n)
  moreover have "slot < 2" using assms(1) insert(1) by (auto simp: tw_inv_def slots_ok_def)
  ultimately show ?thesis
    by (auto simp: total_rows_def waiting_def less_2_cases_iff)
next
  case (release slot n res)
  moreover have "res = Inr 0 \<Longrightarrow> mem s slot = {#}"
    using assms(1) release(1) by (auto simp: tw_inv_def copied_ok_def)
  ultimately show ?thesis
    by (cases res) (auto simp: total_rows_def waiting_def)
qed (use assms in \<open>auto simp: total_rows_def waiting_def\<close>)

lemma total_step:
  assumes "tw_inv c n pool s" and "tw_step c e s = Some s'" and "clean e"
  shows "total_rows s' = total_rows s + written e"
  using assms(2)
proof (cases rule: tw_stepE)
  case (run t)
  with assms(1) show ?thesis by (simp add: total_thread)
next
  case work
  with assms(1) show ?thesis by (simp add: total_worker)
next
  case (noinsert err slot n)
  then show ?thesis by (simp add: total_rows_def waiting_def)
qed (use assms in \<open>auto simp: total_rows_def waiting_def held_same\<close>)

text \<open>
  C16. However the goroutines interleave, no row is lost and none is doubled: as long as no append
  and no \<open>TRUNCATE\<close> fails, the rows of the lake, of the two buffer tables (once copied, a slot no
  longer counts), of the Go-side batch and of the batches being appended are together exactly the
  rows there were, plus the rows written since. Failed and retried \<open>INSERT\<close>s are included.
\<close>

theorem no_row_lost_or_doubled:
  assumes "reachable c n pool s" and "tw_run c es s = Some s'" and "\<forall>e\<in>set es. clean e"
  shows "total_rows s' = total_rows s + (\<Sum>e\<leftarrow>es. written e)"
  using assms
proof (induction es arbitrary: s)
  case Nil
  then show ?case by simp
next
  case (Cons e es)
  from Cons.prems(2) obtain u where u: "tw_step c e s = Some u" "tw_run c es u = Some s'"
    by (auto split: option.splits)
  then have "total_rows s' = total_rows u + (\<Sum>e\<leftarrow>es. written e)"
    using Cons.IH [of u] Cons.prems by (auto intro: next_state)
  then show ?case
    using total_step [OF reachable_inv [OF Cons.prems(1)] u(1)] Cons.prems(3) by (simp add: ac_simps)
qed

text \<open>What the failures do to the rows: an append that fails drops the rows it did not store, and a
  \<open>TRUNCATE\<close> that fails leaves the rows of the slot to be copied a second time.\<close>

lemma total_append_fails:
  assumes "tw_inv c n pool s" and "tw_step c (AppendFails t k) s = Some s'"
    and "threads s ! t = Appending a rows slot"
  shows "total_rows s' + mset (drop k rows) = total_rows s"
proof -
  from assms(2,3) have t: "t < length (threads s)"
    and s': "s' = go_to (s\<lparr>mem := (mem s)(slot := mem s slot + mset (take k rows))\<rparr>) t (CloseConn a slot)"
    by (auto simp: append_fails_Some split: if_splits)
  from assms have inv: "locks_ok s" "slots_ok s" by (auto simp: tw_inv_def)
  have "\<not> copied (worker s) slot"
    using append_excluded [OF inv(1) t, of slot] assms(3) copied_holds by auto
  moreover have "slot < 2"
    using pc_slots_nth [OF inv(2) t] assms(3) by simp
  moreover have "mset rows = mset (take k rows) + mset (drop k rows)"
    by (metis append_take_drop_id mset_append)
  ultimately show ?thesis
    using held_move [OF t, of "CloseConn a slot"] assms(3)
    by (auto simp: s' total_rows_def waiting_def less_2_cases_iff ac_simps)
qed

text \<open>
  A \<open>TRUNCATE\<close> that fails after the \<open>INSERT\<close> of its slot is only logged, and the flush counts as
  done: every row of the slot is then in the lake and still waiting in the buffer table, so the next
  flush of that slot stores all of them again.
\<close>

theorem truncate_failure_doubles_rows:
  assumes "reachable c n pool s" and "worker s = WTrunc slot k rows" and "tw_step c TruncateFails s = Some s'"
  shows "total_rows s' = total_rows s + mem s slot \<and> worker s' = WUnlock slot k (Inr rows) \<and>
    mem s' slot = mem s slot \<and> size (mem s slot) = rows"
proof -
  have inv: "tw_inv c n pool s" by (rule reachable_inv [OF assms(1)])
  have s': "s' = s\<lparr>worker := WUnlock slot k (Inr rows)\<rparr>"
    using assms(2,3) by (auto simp: truncate_fails_Some)
  have "slot < 2" and "rows = size (mem s slot)"
    using inv assms(2) by (auto simp: tw_inv_def slots_ok_def copied_ok_def)
  then show ?thesis
    using assms(2) by (auto simp: s' total_rows_def waiting_def less_2_cases_iff)
qed

subsection \<open>Nothing gets stuck\<close>

text \<open>The events that go on with something begun: the next action of a goroutine or of the worker, or
  somebody else giving a lock or a connection back.\<close>

fun internal :: "'r event \<Rightarrow> bool" where
  "internal (Run t) \<longleftrightarrow> True"
| "internal Work \<longleftrightarrow> True"
| "internal OtherUnlocks \<longleftrightarrow> True"
| "internal OtherGivesConn \<longleftrightarrow> True"
| "internal _ \<longleftrightarrow> False"

definition can_go :: "writer_config \<Rightarrow> 'r table_writer \<Rightarrow> bool" where
  "can_go c s \<longleftrightarrow> (\<exists>e. internal e \<and> tw_step c e s \<noteq> None)"

fun at_rest :: "'r pc \<Rightarrow> bool" where
  "at_rest Idle \<longleftrightarrow> True"
| "at_rest Panicked \<longleftrightarrow> True"
| "at_rest _ \<longleftrightarrow> False"

definition quiescent :: "'r table_writer \<Rightarrow> bool" where
  "quiescent s \<longleftrightarrow>
     list_all at_rest (threads s) \<and> (worker s = WIdle \<and> flushCh s = [] \<or> worker s = WExited)"

lemma go_run: "t < length (threads s) \<Longrightarrow> thread_step c t s \<noteq> None \<Longrightarrow> can_go c s"
  unfolding can_go_def by (rule exI [of _ "Run t"]) simp

lemma go_work: "worker_step c s \<noteq> None \<Longrightarrow> can_go c s"
  unfolding can_go_def by (rule exI [of _ Work]) simp

lemma conn_users_pos: "0 < conn_users ths \<Longrightarrow> \<exists>t<length ths. has_conn (ths ! t)"
proof (induction ths)
  case Nil
  then show ?case by (simp add: conn_users_def)
next
  case (Cons p ths)
  show ?case
  proof (cases "has_conn p")
    case True
    then show ?thesis by (intro exI [of _ 0]) simp
  next
    case False
    with Cons obtain t where "t < length ths" "has_conn (ths ! t)" by (auto simp: conn_users_def)
    then show ?thesis by (intro exI [of _ "Suc t"]) simp
  qed
qed

lemma conn_go:
  assumes "conns_ok pool s" and "0 < pool" and "conns s = 0"
  shows "can_go c s"
proof (cases "others s = 0")
  case True
  with assms obtain t where t: "t < length (threads s)" "has_conn (threads s ! t)"
    using conn_users_pos [of "threads s"] by (auto simp: conns_ok_def)
  then have "thread_step c t s \<noteq> None"
    by (cases "threads s ! t") (auto simp: thread_step_def)
  with t show ?thesis by (auto intro: go_run)
next
  case False
  then show ?thesis unfolding can_go_def by (intro exI [of _ OtherGivesConn]) simp
qed

lemma holder_go:
  assumes "tw_inv c n pool s" and "0 < pool" and "t < length (threads s)" and "holds (threads s ! t) slot"
  shows "can_go c s"
proof (cases "thread_step c t s = None")
  case True
  with assms(4) have "conns s = 0"
    by (cases "threads s ! t") (auto simp: thread_step_def split: if_splits)
  with assms show ?thesis by (auto simp: tw_inv_def intro: conn_go)
qed (use assms(3) in \<open>auto intro: go_run\<close>)

lemma worker_go:
  assumes inv: "tw_inv c n pool s" and pool: "0 < pool" and busy: "worker s \<noteq> WIdle" "worker s \<noteq> WExited"
  shows "can_go c s"
proof (cases "worker_step c s = None")
  case True
  then consider slot k where "worker s = WCatalog slot k" "sharedCatalog c" "catalogMu s \<noteq> Free"
    | slot k where "worker s = WWait slot k" "rlock s slot \<noteq> {}" | "conns s = 0"
    using busy by (cases "worker s") (auto simp: worker_step_def split: if_splits)
  then show ?thesis
  proof cases
    case 1
    then have "catalogMu s = ByOther"
      using inv by (cases "catalogMu s") (auto simp: tw_inv_def catalog_ok_def)
    then show ?thesis unfolding can_go_def by (intro exI [of _ OtherUnlocks]) simp
  next
    case 2
    then obtain t where "t < length (threads s)" "holds (threads s ! t) slot"
      using inv unfolding tw_inv_def lock_inv_def by blast
    then show ?thesis by (rule holder_go [OF inv pool])
  next
    case 3
    then show ?thesis using inv pool by (auto simp: tw_inv_def intro: conn_go)
  qed
qed (auto intro: go_work)

lemma idle_worker_go:
  assumes "tw_inv c n pool s" and "0 < pool" and "worker s = WIdle \<Longrightarrow> flushCh s \<noteq> [] \<or> closed s" and "worker s \<noteq> WExited"
  shows "can_go c s"
proof (cases "worker s = WIdle")
  case True
  with assms(3) have "worker_step c s \<noteq> None" by (auto simp: worker_step_def split: list.splits)
  then show ?thesis by (rule go_work)
qed (use assms in \<open>auto intro: worker_go\<close>)

text \<open>
  C18. The writer does not deadlock: in every reachable state in which a goroutine is inside \<open>Write\<close>,
  \<open>SwapAndFlush\<close> or \<open>Close\<close>, a job is queued or a flush is running, some action that goes on with
  this work is possible, provided the pool has a connection and the queue a place. Appenders waiting
  for a slot, a flush waiting for readers, for the catalog mutex or for a connection, and senders
  waiting for the queue never wait for each other in a circle.
\<close>

theorem writer_never_stuck:
  assumes "reachable c n pool s" and "0 < pool" and "0 < queueCap c" and "\<not> quiescent s"
  shows "\<exists>e. internal e \<and> tw_step c e s \<noteq> None"
proof -
  have inv: "tw_inv c n pool s" by (rule reachable_inv [OF assms(1)])
  have ends: "worker s = WExited \<Longrightarrow> closed s" using inv by (auto simp: tw_inv_def ends_ok_def)
  have "can_go c s"
  proof (cases "list_all at_rest (threads s)")
    case True
    with assms(4) have "worker s = WIdle \<Longrightarrow> flushCh s \<noteq> [] \<or> closed s" "worker s \<noteq> WExited"
      by (auto simp: quiescent_def)
    then show ?thesis by (rule idle_worker_go [OF inv assms(2)])
  next
    case False
    then obtain t where t: "t < length (threads s)" "\<not> at_rest (threads s ! t)"
      by (auto simp: list_all_length)
    show ?thesis
    proof (cases "thread_step c t s = None")
      case True
      with t(2) consider
          a rows slot where "threads s ! t = Want a rows slot" "wlock s slot \<or> lock_pending (worker s) slot"
        | "conns s = 0"
        | "\<not> closed s" "queueCap c \<le> length (flushCh s)"
        | "threads s ! t = AwaitWorker" "worker s \<noteq> WExited"
        by (cases "threads s ! t") (auto simp: thread_step_def not_less split: if_splits wpc.splits)
      then show ?thesis
      proof cases
        case 1
        then have "worker s \<noteq> WIdle" "worker s \<noteq> WExited"
          using inv by (auto simp: tw_inv_def lock_inv_def lock_pending_def)
        then show ?thesis by (rule worker_go [OF inv assms(2)])
      next
        case 2
        then show ?thesis using inv assms(2) by (auto simp: tw_inv_def intro: conn_go)
      next
        case 3
        then show ?thesis using assms(3) ends by (intro idle_worker_go [OF inv assms(2)]) auto
      next
        case 4
        then have "closed s" using inv t(1) by (auto simp: tw_inv_def ends_ok_def list_all_length)
        with 4 show ?thesis by (intro idle_worker_go [OF inv assms(2)]) auto
      qed
    qed (use t in \<open>auto intro: go_run\<close>)
  qed
  then show ?thesis by (simp add: can_go_def)
qed

subsection \<open>Every flush ends\<close>

text \<open>The events that are not a new call of an operation and not somebody else taking a lock or a
  connection: the work the calls so far have caused, failures included.\<close>

fun call_event :: "'r event \<Rightarrow> bool" where
  "call_event (Wr t v) \<longleftrightarrow> True"
| "call_event (Swap t) \<longleftrightarrow> True"
| "call_event (Close t) \<longleftrightarrow> True"
| "call_event OtherLocks \<longleftrightarrow> True"
| "call_event OtherTakesConn \<longleftrightarrow> True"
| "call_event _ \<longleftrightarrow> False"

text \<open>A bound on the actions left. A swap may send every other goroutine back to \<open>lockActiveMem\<close>, at
  the price of three actions each, and a job is worth 48 actions: six attempts of eight.\<close>

fun after_weight :: "nat \<Rightarrow> after \<Rightarrow> nat" where
  "after_weight m Return = 0"
| "after_weight m ThenSwap = 52 + 3 * m"
| "after_weight m ThenClose = 2"

fun pc_weight :: "nat \<Rightarrow> nat \<Rightarrow> 'r pc \<Rightarrow> nat" where
  "pc_weight m act Idle = 0"
| "pc_weight m act (Drain a) = after_weight m a + 8"
| "pc_weight m act (Took a rows) = after_weight m a + 7"
| "pc_weight m act (Want a rows slot) = after_weight m a + (if slot = act then 6 else 9)"
| "pc_weight m act (Locked a rows slot) = after_weight m a + (if slot = act then 5 else 8)"
| "pc_weight m act (Holding a rows slot) = after_weight m a + 4"
| "pc_weight m act (Appending a rows slot) = after_weight m a + 3"
| "pc_weight m act (CloseConn a slot) = after_weight m a + 2"
| "pc_weight m act (RUnlock a slot) = after_weight m a + 1"
| "pc_weight m act SwapNow = 52 + 3 * m"
| "pc_weight m act (Swapping old) = 51 + 3 * m"
| "pc_weight m act (Send old) = 49"
| "pc_weight m act CloseQueue = 2"
| "pc_weight m act AwaitWorker = 1"
| "pc_weight m act Panicked = 0"

fun w_weight :: "wpc \<Rightarrow> nat" where
  "w_weight WIdle = 1"
| "w_weight (WCatalog slot n) = 8 * (6 - n)"
| "w_weight (WSlot slot n) = 8 * (6 - n) - 1"
| "w_weight (WWait slot n) = 8 * (6 - n) - 2"
| "w_weight (WExec slot n) = 8 * (6 - n) - 3"
| "w_weight (WRelease slot n res) = 8 * (6 - n) - 4"
| "w_weight (WTrunc slot n rows) = 8 * (6 - n) - 5"
| "w_weight (WUnlock slot n res) = 8 * (6 - n) - 6"
| "w_weight WExited = 0"

definition threads_weight :: "nat \<Rightarrow> 'r pc list \<Rightarrow> nat" where
  "threads_weight act ths = (\<Sum>p\<leftarrow>ths. pc_weight (length ths) act p)"

definition actions_left :: "'r table_writer \<Rightarrow> nat" where
  "actions_left s =
     threads_weight (activeIdx s) (threads s) + 48 * length (flushCh s) + w_weight (worker s) + others s
     + (if catalogMu s = ByOther then 1 else 0)"

lemma threads_weight_move:
  assumes "t < length ths"
  shows "threads_weight act (ths[t := p]) + pc_weight (length ths) act (ths ! t)
    = threads_weight act ths + pc_weight (length ths) act p"
  using sum_list_move [OF assms] by (simp add: threads_weight_def)

lemma threads_weight_flip: "threads_weight act' ths \<le> threads_weight act ths + 3 * length ths"
proof -
  have "pc_weight m act' p \<le> pc_weight m act p + 3" for m and p :: "'a pc"
    by (cases p) auto
  then have "(\<Sum>p\<leftarrow>ths. pc_weight m act' p) \<le> (\<Sum>p\<leftarrow>ths. pc_weight m act p + 3)" for m
    by (rule sum_list_mono)
  from this [of "length ths"] show ?thesis
    by (simp add: threads_weight_def sum_list_addf sum_list_triv)
qed

lemma flushed_weight [simp]: "pc_weight m act (flushed a) = after_weight m a"
  by (cases a) auto

lemma actions_thread:
  assumes "t < length (threads s)" and "thread_step c t s = Some s'"
  shows "actions_left s' < actions_left s"
  using assms(2)
proof (cases rule: thread_stepE)
  case (swap old)
  have "threads_weight (1 - old) ((threads s)[t := Send old])
      \<le> threads_weight (activeIdx s) ((threads s)[t := Send old]) + 3 * length (threads s)"
    using threads_weight_flip [of "1 - old" "(threads s)[t := Send old]"] by simp
  moreover have "threads_weight (activeIdx s) ((threads s)[t := Send old]) + (51 + 3 * length (threads s))
      = threads_weight (activeIdx s) (threads s) + 49"
    using threads_weight_move [OF assms(1), of "activeIdx s" "Send old"] swap(1) by simp
  ultimately show ?thesis using swap by (simp add: actions_left_def)
qed (use threads_weight_move [OF assms(1), of "activeIdx s" "threads s' ! t"] assms(1)
     in \<open>auto simp: actions_left_def split: if_splits\<close>)

lemma actions_worker:
  assumes "tw_inv c n pool s" and "worker_step c s = Some s'"
  shows "actions_left s' < actions_left s"
proof -
  have att: "w_attempts (worker s)" using assms(1) by (auto simp: tw_inv_def ends_ok_def)
  from assms(2) show ?thesis
    by (cases rule: worker_stepE)
       (use att in \<open>auto simp: actions_left_def flushMaxRetries_def next_attempt_def split: sum.splits\<close>)
qed

lemma actions_step:
  assumes inv: "tw_inv c n pool s" and step: "tw_step c e s = Some s'" and "\<not> call_event e"
  shows "actions_left s' < actions_left s"
  using step
proof (cases rule: tw_stepE)
  case (run t)
  then show ?thesis by (intro actions_thread)
next
  case work
  then show ?thesis by (intro actions_worker [OF inv])
next
  case (noconn t a rows slot)
  with threads_weight_move [OF noconn(2), of "activeIdx s" "RUnlock a slot"] show ?thesis
    by (simp add: actions_left_def)
next
  case (noappend t k a rows slot)
  with threads_weight_move [OF noappend(2), of "activeIdx s" "CloseConn a slot"] show ?thesis
    by (simp add: actions_left_def)
next
  case (noinsert err slot k)
  then have "k \<le> 5" using inv by (auto simp: tw_inv_def ends_ok_def flushMaxRetries_def)
  with noinsert show ?thesis by (auto simp: actions_left_def)
next
  case (notruncate slot k rows)
  then have "k \<le> 5" using inv by (auto simp: tw_inv_def ends_ok_def flushMaxRetries_def)
  with notruncate show ?thesis by (auto simp: actions_left_def)
qed (use assms(3) in \<open>auto simp: actions_left_def\<close>)

text \<open>
  C19. The work ends: from every reachable state, whatever the interleaving and whatever fails, the
  goroutines and the worker take at most \<open>actions_left\<close> further actions unless an operation is called
  again. In particular the retries of \<open>flushSlotDirect\<close> are bounded and the loop of \<open>lockActiveMem\<close>
  cannot spin for ever.
\<close>

theorem writer_work_ends:
  assumes "reachable c n pool s" and "tw_run c es s = Some s'" and "\<forall>e\<in>set es. \<not> call_event e"
  shows "length es + actions_left s' \<le> actions_left s"
  using assms
proof (induction es arbitrary: s)
  case Nil
  then show ?case by simp
next
  case (Cons e es)
  from Cons.prems(2) obtain u where u: "tw_step c e s = Some u" "tw_run c es u = Some s'"
    by (auto split: option.splits)
  then have "length es + actions_left s' \<le> actions_left u"
    using Cons.IH [of u] Cons.prems by (auto intro: next_state)
  moreover have "actions_left u < actions_left s"
    using actions_step [OF reachable_inv [OF Cons.prems(1)] u(1)] Cons.prems(3) by simp
  ultimately show ?case by simp
qed

subsection \<open>A flush delivers\<close>


















subsection \<open>Runs of a small writer\<close>

definition demo_config :: writer_config where
  "demo_config = \<lparr>batchSize = 3, queueCap = 2, sharedCatalog = True\<rparr>"

text \<open>\<open>SwapAndFlush\<close> of goroutine 0 with rows in the batch, and the flush of the slot it queues.\<close>

definition swap_events :: "nat event list" where
  "swap_events = replicate 11 (Run 0)"

definition flush_events :: "nat event list" where
  "flush_events = replicate 8 Work"

definition close_events :: "nat event list" where
  "close_events = [Run 0, Run 0, Work, Run 0]"

definition demo_after :: "nat event list \<Rightarrow> nat table_writer" where
  "demo_after es = the (tw_run demo_config es (new_writer 1 4))"

lemmas demo_simps = demo_config_def swap_events_def flush_events_def close_events_def eval_nat_numeral
  new_writer_def Write_def thread_step_def conn_fails_def append_fails_def worker_step_def
  insert_fails_def truncate_fails_def idle_def next_attempt_def lock_pending_def flushMaxRetries_def Let_def


lemma demo_reachable:
  "tw_run demo_config es (new_writer 1 4) \<noteq> None \<Longrightarrow> reachable demo_config 1 4 (demo_after es)"
  by (auto simp: demo_after_def intro: reachable_run [OF start])

lemma demo_run: "tw_run demo_config es (new_writer 1 4) \<noteq> None \<Longrightarrow>
    tw_run demo_config es (new_writer 1 4) = Some (demo_after es)"
  by (auto simp: demo_after_def)

theorem no_row_lost_or_doubled_witness:
  "total_rows (demo_after (Wr 0 7 # Swap 0 # swap_events @ flush_events)) = {#7#}"
proof -
  have "tw_run demo_config (Wr 0 7 # Swap 0 # swap_events @ flush_events) (new_writer 1 4)
      = Some (demo_after (Wr 0 7 # Swap 0 # swap_events @ flush_events))"
    by (rule demo_run) (simp add: demo_simps)
  from no_row_lost_or_doubled [OF start this] show ?thesis
    by (simp add: swap_events_def flush_events_def eval_nat_numeral new_writer_def total_rows_def waiting_def)
qed

theorem truncate_failure_doubles_rows_witness:
  "\<exists>s'. tw_step demo_config TruncateFails (demo_after (Wr 0 7 # Swap 0 # swap_events @ replicate 6 Work)) = Some s' \<and>
    total_rows s' = total_rows (demo_after (Wr 0 7 # Swap 0 # swap_events @ replicate 6 Work)) + {#7#}"
proof -
  let ?s = "demo_after (Wr 0 7 # Swap 0 # swap_events @ replicate 6 Work)"
  have r: "reachable demo_config 1 4 ?s"
    by (rule demo_reachable) (simp add: demo_simps)
  have w: "worker ?s = WTrunc 0 0 1" "mem ?s 0 = {#7#}"
    by (simp_all add: demo_simps demo_after_def)
  then obtain s' where "tw_step demo_config TruncateFails ?s = Some s'"
    by (auto simp: truncate_fails_def)
  with truncate_failure_doubles_rows [OF r w(1) this] w(2) show ?thesis by auto
qed

lemma demo_called: "reachable demo_config 1 4 (demo_after [Wr 0 7, Swap 0])"
  by (rule demo_reachable) (simp add: demo_simps)

theorem writer_never_stuck_witness:
  "\<exists>e. internal e \<and> tw_step demo_config e (demo_after [Wr 0 7, Swap 0]) \<noteq> None"
  by (rule writer_never_stuck [OF demo_called]) (simp_all add: demo_simps demo_after_def quiescent_def)

theorem writer_work_ends_witness:
  "length (swap_events @ flush_events) + actions_left (demo_after ([Wr 0 7, Swap 0] @ swap_events @ flush_events))
    \<le> actions_left (demo_after [Wr 0 7, Swap 0])"
  by (rule writer_work_ends [OF demo_called]) (simp_all add: demo_simps demo_after_def)



end
