(* ===== verification/Lake_Schema.thy ===== *)
theory Lake_Schema
  imports Hep_Types "HOL-Library.Word"
begin

text \<open>
  The tables of the lake (\<open>storage/ducklake/tables.go\<close>, \<open>validation.go\<close>, \<open>sql_lake_insert.go\<close>): the
  table key, the schemas, the routing of a packet to a table and the names of the lake table and of
  the two buffer tables of its writer.

  \<open>CreateSQL\<close> is modelled as the list of column definitions it contains; \<open>InsertSQL\<close> keeps its text,
  because \<open>insertColumnNames\<close> parses it.
\<close>

subsection \<open>Protocols, table keys and schemas\<close>

definition ProtoTypeSIP :: "32 word" where "ProtoTypeSIP = 1"
definition ProtoTypeRTCPJSON :: "32 word" where "ProtoTypeRTCPJSON = 5"
definition ProtoTypeRTCP :: "32 word" where "ProtoTypeRTCP = 34"
definition ProtoTypeRTP :: "32 word" where "ProtoTypeRTP = 35"
definition ProtoTypeDNS :: "32 word" where "ProtoTypeDNS = 53"
definition ProtoTypeLOG :: "32 word" where "ProtoTypeLOG = 100"

lemmas proto_defs = ProtoTypeSIP_def ProtoTypeRTCPJSON_def ProtoTypeRTCP_def ProtoTypeRTP_def
  ProtoTypeDNS_def ProtoTypeLOG_def

definition SIPTypeCall :: string where "SIPTypeCall = ''call''"
definition SIPTypeRegistration :: string where "SIPTypeRegistration = ''registration''"
definition SIPTypeDefault :: string where "SIPTypeDefault = ''default''"
definition SIPTypeSiprec :: string where "SIPTypeSiprec = ''siprec''"

lemmas sip_type_defs = SIPTypeCall_def SIPTypeRegistration_def SIPTypeDefault_def SIPTypeSiprec_def

record table_key =
  kProto :: "32 word"
  kSub :: string

definition TableKey_String :: "table_key \<Rightarrow> string" where
  "TableKey_String k =
     (if kSub k \<noteq> '''' then Itoa (unat (kProto k)) @ ''_'' @ kSub k
      else Itoa (unat (kProto k)) @ ''_default'')"

datatype sql_type = VARCHAR | DATE | TIMESTAMP | UINTEGER | JSON | BLOB

record table_schema =
  ts_ProtoType :: "32 word"
  ts_SubType :: string
  TableSuffix :: string
  Columns :: "string list"
  CreateSQL :: "(string \<times> sql_type) list"
  InsertSQL :: string

definition newline_tabs :: "nat \<Rightarrow> string" where
  "newline_tabs n = CHR 0x0A # replicate n CHR 0x09"

definition schema_1_call :: table_schema where
  "schema_1_call =
     \<lparr>ts_ProtoType = ProtoTypeSIP, ts_SubType = SIPTypeCall, TableSuffix = ''1_call'',
      Columns =
       [''uuid'', ''timestamp'', ''session_id'', ''caller'', ''callee'', ''src_ip'', ''dst_ip'',
        ''src_port'', ''dst_port'', ''method'', ''response_code'', ''cseq_method'', ''protocol'',
        ''node_id'', ''cid'', ''payload'', ''data_extra'', ''isup_body''],
      CreateSQL =
       [(''uuid'', VARCHAR), (''date'', DATE), (''timestamp'', TIMESTAMP), (''session_id'', VARCHAR),
        (''caller'', VARCHAR), (''callee'', VARCHAR), (''src_ip'', VARCHAR), (''dst_ip'', VARCHAR),
        (''src_port'', UINTEGER), (''dst_port'', UINTEGER), (''method'', VARCHAR), (''response_code'',
        VARCHAR), (''cseq_method'', VARCHAR), (''protocol'', UINTEGER), (''node_id'', VARCHAR), (''cid'',
        VARCHAR), (''payload'', VARCHAR), (''data_extra'', JSON), (''isup_body'', BLOB)],
      InsertSQL =
       ''(uuid, date, timestamp, session_id, caller, callee, src_ip, dst_ip,'' @
        newline_tabs 4 @ ''src_port, dst_port, method, response_code, cseq_method,'' @
        newline_tabs 4 @ ''protocol, node_id, cid, payload, data_extra, isup_body)'' @
        newline_tabs 4 @ ''VALUES (?, ?, ?, ?, ?, ?, ?, ?, ?, ?, ?, ?, ?, ?, ?, ?, ?, ?::JSON, ?)''\<rparr>"

definition schema_1_registration :: table_schema where
  "schema_1_registration =
     \<lparr>ts_ProtoType = ProtoTypeSIP, ts_SubType = SIPTypeRegistration, TableSuffix = ''1_registration'',
      Columns =
       [''uuid'', ''timestamp'', ''session_id'', ''aor'', ''contact'', ''expires'', ''user_agent'',
        ''src_ip'', ''dst_ip'', ''src_port'', ''dst_port'', ''method'', ''response_code'', ''protocol'',
        ''node_id'', ''payload'', ''data_extra'', ''isup_body''],
      CreateSQL =
       [(''uuid'', VARCHAR), (''date'', DATE), (''timestamp'', TIMESTAMP), (''session_id'', VARCHAR),
        (''aor'', VARCHAR), (''contact'', VARCHAR), (''expires'', VARCHAR), (''user_agent'', VARCHAR),
        (''src_ip'', VARCHAR), (''dst_ip'', VARCHAR), (''src_port'', UINTEGER), (''dst_port'', UINTEGER),
        (''method'', VARCHAR), (''response_code'', VARCHAR), (''protocol'', UINTEGER), (''node_id'',
        VARCHAR), (''payload'', VARCHAR), (''data_extra'', JSON), (''isup_body'', BLOB)],
      InsertSQL =
       ''(uuid, date, timestamp, session_id, aor, contact, expires, user_agent,'' @
        newline_tabs 4 @ ''src_ip, dst_ip, src_port, dst_port, method, response_code,'' @
        newline_tabs 4 @ ''protocol, node_id, payload, data_extra, isup_body)'' @
        newline_tabs 4 @ ''VALUES (?, ?, ?, ?, ?, ?, ?, ?, ?, ?, ?, ?, ?, ?, ?, ?, ?, ?::JSON, ?)''\<rparr>"

definition schema_1_siprec :: table_schema where
  "schema_1_siprec =
     \<lparr>ts_ProtoType = ProtoTypeSIP, ts_SubType = SIPTypeSiprec, TableSuffix = ''1_siprec'',
      Columns =
       [''uuid'', ''timestamp'', ''session_id'', ''caller'', ''callee'', ''src_ip'', ''dst_ip'',
        ''src_port'', ''dst_port'', ''method'', ''response_code'', ''cseq_method'', ''protocol'',
        ''node_id'', ''cid'', ''payload'', ''data_extra'', ''isup_body''],
      CreateSQL =
       [(''uuid'', VARCHAR), (''date'', DATE), (''timestamp'', TIMESTAMP), (''session_id'', VARCHAR),
        (''caller'', VARCHAR), (''callee'', VARCHAR), (''src_ip'', VARCHAR), (''dst_ip'', VARCHAR),
        (''src_port'', UINTEGER), (''dst_port'', UINTEGER), (''method'', VARCHAR), (''response_code'',
        VARCHAR), (''cseq_method'', VARCHAR), (''protocol'', UINTEGER), (''node_id'', VARCHAR), (''cid'',
        VARCHAR), (''payload'', VARCHAR), (''data_extra'', JSON), (''isup_body'', BLOB)],
      InsertSQL =
       ''(uuid, date, timestamp, session_id, caller, callee, src_ip, dst_ip,'' @
        newline_tabs 4 @ ''src_port, dst_port, method, response_code, cseq_method,'' @
        newline_tabs 4 @ ''protocol, node_id, cid, payload, data_extra, isup_body)'' @
        newline_tabs 4 @ ''VALUES (?, ?, ?, ?, ?, ?, ?, ?, ?, ?, ?, ?, ?, ?, ?, ?, ?, ?::JSON, ?)''\<rparr>"

definition schema_1_default :: table_schema where
  "schema_1_default =
     \<lparr>ts_ProtoType = ProtoTypeSIP, ts_SubType = SIPTypeDefault, TableSuffix = ''1_default'',
      Columns =
       [''uuid'', ''timestamp'', ''session_id'', ''src_ip'', ''dst_ip'', ''src_port'', ''dst_port'',
        ''method'', ''response_code'', ''protocol'', ''node_id'', ''cid'', ''payload'', ''data_extra'',
        ''isup_body''],
      CreateSQL =
       [(''uuid'', VARCHAR), (''date'', DATE), (''timestamp'', TIMESTAMP), (''session_id'', VARCHAR),
        (''src_ip'', VARCHAR), (''dst_ip'', VARCHAR), (''src_port'', UINTEGER), (''dst_port'', UINTEGER),
        (''method'', VARCHAR), (''response_code'', VARCHAR), (''protocol'', UINTEGER), (''node_id'',
        VARCHAR), (''cid'', VARCHAR), (''payload'', VARCHAR), (''data_extra'', JSON), (''isup_body'', BLOB)],
      InsertSQL =
       ''(uuid, date, timestamp, session_id, src_ip, dst_ip,'' @
        newline_tabs 4 @ ''src_port, dst_port, method, response_code,'' @
        newline_tabs 4 @ ''protocol, node_id, cid, payload, data_extra, isup_body)'' @
        newline_tabs 4 @ ''VALUES (?, ?, ?, ?, ?, ?, ?, ?, ?, ?, ?, ?, ?, ?, ?, ?::JSON, ?)''\<rparr>"

definition schema_5_default :: table_schema where
  "schema_5_default =
     \<lparr>ts_ProtoType = ProtoTypeRTCPJSON, ts_SubType = '''', TableSuffix = ''5_default'',
      Columns =
       [''uuid'', ''timestamp'', ''session_id'', ''src_ip'', ''dst_ip'', ''src_port'', ''dst_port'',
        ''protocol'', ''node_id'', ''cid'', ''payload'', ''data_extra''],
      CreateSQL =
       [(''uuid'', VARCHAR), (''date'', DATE), (''timestamp'', TIMESTAMP), (''session_id'', VARCHAR),
        (''src_ip'', VARCHAR), (''dst_ip'', VARCHAR), (''src_port'', UINTEGER), (''dst_port'', UINTEGER),
        (''protocol'', UINTEGER), (''node_id'', VARCHAR), (''cid'', VARCHAR), (''payload'', VARCHAR),
        (''data_extra'', JSON)],
      InsertSQL =
       ''(uuid, date, timestamp, session_id, src_ip, dst_ip,'' @
        newline_tabs 4 @ ''src_port, dst_port, protocol, node_id, cid, payload, data_extra)'' @
        newline_tabs 4 @ ''VALUES (?, ?, ?, ?, ?, ?, ?, ?, ?, ?, ?, ?, ?::JSON)''\<rparr>"

definition schema_34_default :: table_schema where
  "schema_34_default =
     \<lparr>ts_ProtoType = ProtoTypeRTCP, ts_SubType = '''', TableSuffix = ''34_default'',
      Columns =
       [''uuid'', ''timestamp'', ''session_id'', ''src_ip'', ''dst_ip'', ''src_port'', ''dst_port'',
        ''protocol'', ''node_id'', ''cid'', ''payload'', ''data_extra''],
      CreateSQL =
       [(''uuid'', VARCHAR), (''date'', DATE), (''timestamp'', TIMESTAMP), (''session_id'', VARCHAR),
        (''src_ip'', VARCHAR), (''dst_ip'', VARCHAR), (''src_port'', UINTEGER), (''dst_port'', UINTEGER),
        (''protocol'', UINTEGER), (''node_id'', VARCHAR), (''cid'', VARCHAR), (''payload'', VARCHAR),
        (''data_extra'', JSON)],
      InsertSQL =
       ''(uuid, date, timestamp, session_id, src_ip, dst_ip,'' @
        newline_tabs 4 @ ''src_port, dst_port, protocol, node_id, cid, payload, data_extra)'' @
        newline_tabs 4 @ ''VALUES (?, ?, ?, ?, ?, ?, ?, ?, ?, ?, ?, ?, ?::JSON)''\<rparr>"

definition schema_35_default :: table_schema where
  "schema_35_default =
     \<lparr>ts_ProtoType = ProtoTypeRTP, ts_SubType = '''', TableSuffix = ''35_default'',
      Columns =
       [''uuid'', ''timestamp'', ''session_id'', ''src_ip'', ''dst_ip'', ''src_port'', ''dst_port'',
        ''protocol'', ''node_id'', ''cid'', ''payload'', ''data_extra''],
      CreateSQL =
       [(''uuid'', VARCHAR), (''date'', DATE), (''timestamp'', TIMESTAMP), (''session_id'', VARCHAR),
        (''src_ip'', VARCHAR), (''dst_ip'', VARCHAR), (''src_port'', UINTEGER), (''dst_port'', UINTEGER),
        (''protocol'', UINTEGER), (''node_id'', VARCHAR), (''cid'', VARCHAR), (''payload'', VARCHAR),
        (''data_extra'', JSON)],
      InsertSQL =
       ''(uuid, date, timestamp, session_id, src_ip, dst_ip,'' @
        newline_tabs 4 @ ''src_port, dst_port, protocol, node_id, cid, payload, data_extra)'' @
        newline_tabs 4 @ ''VALUES (?, ?, ?, ?, ?, ?, ?, ?, ?, ?, ?, ?, ?::JSON)''\<rparr>"

definition schema_53_default :: table_schema where
  "schema_53_default =
     \<lparr>ts_ProtoType = ProtoTypeDNS, ts_SubType = '''', TableSuffix = ''53_default'',
      Columns =
       [''uuid'', ''timestamp'', ''src_ip'', ''dst_ip'', ''src_port'', ''dst_port'', ''protocol'',
        ''node_id'', ''payload'', ''data_extra''],
      CreateSQL =
       [(''uuid'', VARCHAR), (''date'', DATE), (''timestamp'', TIMESTAMP), (''src_ip'', VARCHAR),
        (''dst_ip'', VARCHAR), (''src_port'', UINTEGER), (''dst_port'', UINTEGER), (''protocol'', UINTEGER),
        (''node_id'', VARCHAR), (''payload'', VARCHAR), (''data_extra'', JSON)],
      InsertSQL =
       ''(uuid, date, timestamp, src_ip, dst_ip,'' @
        newline_tabs 4 @ ''src_port, dst_port, protocol, node_id, payload, data_extra)'' @
        newline_tabs 4 @ ''VALUES (?, ?, ?, ?, ?, ?, ?, ?, ?, ?, ?::JSON)''\<rparr>"

definition schema_100_default :: table_schema where
  "schema_100_default =
     \<lparr>ts_ProtoType = ProtoTypeLOG, ts_SubType = '''', TableSuffix = ''100_default'',
      Columns =
       [''uuid'', ''timestamp'', ''session_id'', ''src_ip'', ''dst_ip'', ''node_id'', ''payload'',
        ''data_extra''],
      CreateSQL =
       [(''uuid'', VARCHAR), (''date'', DATE), (''timestamp'', TIMESTAMP), (''session_id'', VARCHAR),
        (''src_ip'', VARCHAR), (''dst_ip'', VARCHAR), (''node_id'', VARCHAR), (''payload'', VARCHAR),
        (''data_extra'', JSON)],
      InsertSQL =
       ''(uuid, date, timestamp, session_id, src_ip, dst_ip, node_id, payload, data_extra)'' @
        newline_tabs 4 @ ''VALUES (?, ?, ?, ?, ?, ?, ?, ?, ?::JSON)''\<rparr>"

definition GetTableSchemas :: "table_key \<rightharpoonup> table_schema" where
  "GetTableSchemas =
     [\<lparr>kProto = ProtoTypeSIP, kSub = SIPTypeCall\<rparr> \<mapsto> schema_1_call,
      \<lparr>kProto = ProtoTypeSIP, kSub = SIPTypeRegistration\<rparr> \<mapsto> schema_1_registration,
      \<lparr>kProto = ProtoTypeSIP, kSub = SIPTypeSiprec\<rparr> \<mapsto> schema_1_siprec,
      \<lparr>kProto = ProtoTypeSIP, kSub = SIPTypeDefault\<rparr> \<mapsto> schema_1_default,
      \<lparr>kProto = ProtoTypeRTCPJSON, kSub = ''''\<rparr> \<mapsto> schema_5_default,
      \<lparr>kProto = ProtoTypeRTCP, kSub = ''''\<rparr> \<mapsto> schema_34_default,
      \<lparr>kProto = ProtoTypeRTP, kSub = ''''\<rparr> \<mapsto> schema_35_default,
      \<lparr>kProto = ProtoTypeDNS, kSub = ''''\<rparr> \<mapsto> schema_53_default,
      \<lparr>kProto = ProtoTypeLOG, kSub = ''''\<rparr> \<mapsto> schema_100_default]"

definition GetDefaultSchema :: "table_key \<Rightarrow> table_schema" where
  "GetDefaultSchema key =
     \<lparr>ts_ProtoType = kProto key, ts_SubType = kSub key, TableSuffix = TableKey_String key,
      Columns =
       [''uuid'', ''date'', ''timestamp'', ''session_id'', ''src_ip'', ''dst_ip'', ''src_port'',
        ''dst_port'', ''protocol'', ''node_id'', ''cid'', ''payload'', ''data_extra''],
      CreateSQL =
       [(''uuid'', VARCHAR), (''date'', DATE), (''timestamp'', TIMESTAMP), (''session_id'', VARCHAR),
        (''src_ip'', VARCHAR), (''dst_ip'', VARCHAR), (''src_port'', UINTEGER), (''dst_port'', UINTEGER),
        (''protocol'', UINTEGER), (''node_id'', VARCHAR), (''cid'', VARCHAR), (''payload'', VARCHAR),
        (''data_extra'', JSON)],
      InsertSQL =
       ''(uuid, date, timestamp, session_id, src_ip, dst_ip,'' @
        newline_tabs 3 @ ''src_port, dst_port, protocol, node_id, cid, payload, data_extra)'' @
        newline_tabs 3 @ ''VALUES (?, ?, ?, ?, ?, ?, ?, ?, ?, ?, ?, ?, ?::JSON)''\<rparr>"

definition schemaForKey :: "table_key \<Rightarrow> table_schema" where
  "schemaForKey key = (case GetTableSchemas key of Some s \<Rightarrow> s | None \<Rightarrow> GetDefaultSchema key)"

datatype key_error = ErrUnknownTable table_key | ErrInvalidTableKey table_key

definition KnownTableSchema :: "table_key \<Rightarrow> (key_error, table_schema) go_result" where
  "KnownTableSchema key =
     (case GetTableSchemas key of None \<Rightarrow> Fails (ErrUnknownTable key) | Some s \<Rightarrow> Returns s)"

definition insertColumnNames :: "table_schema \<Rightarrow> string list" where
  "insertColumnNames schema =
     (let s = InsertSQL schema
      in case IndexByte s (CHR ''('') of
           None \<Rightarrow> []
         | Some op \<Rightarrow>
             (case IndexByte s (CHR '')'') of
                None \<Rightarrow> []
              | Some cl \<Rightarrow>
                  if cl \<le> op then []
                  else map TrimSpace
                         (Split (TrimSpace (take (cl - (op + 1)) (drop (op + 1) s))) '','')))"

definition ValidateTableKey :: "table_key \<Rightarrow> key_error option" where
  "ValidateTableKey key =
     (case GetTableSchemas key of Some _ \<Rightarrow> None | None \<Rightarrow> Some (ErrInvalidTableKey key))"

definition ParseTableKey :: "32 word \<Rightarrow> string \<Rightarrow> (key_error, table_key) go_result" where
  "ParseTableKey protoType sub =
     (let subType = TrimSpace sub
      in if protoType = ProtoTypeSIP then
           (let subType = (if subType = '''' then SIPTypeCall else subType)
            in if subType = SIPTypeCall \<or> subType = SIPTypeRegistration \<or> subType = SIPTypeDefault
               then Returns \<lparr>kProto = protoType, kSub = subType\<rparr>
               else Fails (ErrInvalidTableKey \<lparr>kProto = protoType, kSub = subType\<rparr>))
         else if subType \<noteq> '''' then Fails (ErrInvalidTableKey \<lparr>kProto = protoType, kSub = subType\<rparr>)
         else (case ValidateTableKey \<lparr>kProto = protoType, kSub = ''''\<rparr> of
                 Some e \<Rightarrow> Fails e
               | None \<Rightarrow> Returns \<lparr>kProto = protoType, kSub = ''''\<rparr>))"

subsection \<open>Routing\<close>

definition GetSIPMethod :: "string \<Rightarrow> string \<Rightarrow> string \<Rightarrow> string" where
  "GetSIPMethod firstMethod cseqMethod firstResp =
     (if firstResp \<noteq> '''' \<and> cseqMethod \<noteq> '''' then cseqMethod else firstMethod)"

definition GetSIPType :: "string \<Rightarrow> string" where
  "GetSIPType m =
     (if m \<in> set [''INVITE'', ''ACK'', ''PRACK'', ''UPDATE'', ''BYE'', ''CANCEL'', ''INFO'', ''REFER''] then SIPTypeCall
      else if m = ''REGISTER'' then SIPTypeRegistration
      else SIPTypeDefault)"

definition getTableKey :: "hep \<Rightarrow> table_key" where
  "getTableKey h =
     (case h_SIP h of
        Some m \<Rightarrow>
          if h_ProtoType h = ProtoTypeSIP
          then \<lparr>kProto = h_ProtoType h, kSub = GetSIPType (GetSIPMethod (FirstMethod m) (CseqMethod m) (FirstResp m))\<rparr>
          else \<lparr>kProto = h_ProtoType h, kSub = ''''\<rparr>
      | None \<Rightarrow> \<lparr>kProto = h_ProtoType h, kSub = ''''\<rparr>)"

subsection \<open>Names\<close>

text \<open>\<open>NewTableWriter\<close> derives the lake table and the two buffer tables from the suffix alone.\<close>

definition lake_table :: "string \<Rightarrow> table_schema \<Rightarrow> string" where
  "lake_table lakeName schema = lakeName @ ''.hep_proto_'' @ TableSuffix schema"

definition buffer_tables :: "table_schema \<Rightarrow> string \<times> string" where
  "buffer_tables schema =
     (''mem_hep_proto_'' @ TableSuffix schema @ ''_a'', ''mem_hep_proto_'' @ TableSuffix schema @ ''_b'')"

definition GetTableFQN :: "string \<Rightarrow> table_key \<Rightarrow> string" where
  "GetTableFQN lakeName key = lake_table lakeName (schemaForKey key)"

definition LakeTableFQN :: "string \<Rightarrow> table_schema \<Rightarrow> string" where
  "LakeTableFQN lakeName schema = lakeName @ ''.main.hep_proto_'' @ TableSuffix schema"

definition ResolveTableFQN :: "string \<Rightarrow> table_key \<Rightarrow> (key_error, string) go_result" where
  "ResolveTableFQN lakeName key =
     (case ValidateTableKey key of
        Some e \<Rightarrow> Fails e
      | None \<Rightarrow>
          (case GetTableSchemas key of
             None \<Rightarrow> Fails (ErrInvalidTableKey key)
           | Some s \<Rightarrow> Returns (lake_table lakeName s)))"

subsection \<open>The tables are consistent\<close>

definition canonical_keys :: "table_key list" where
  "canonical_keys =
     [\<lparr>kProto = 1, kSub = ''call''\<rparr>, \<lparr>kProto = 1, kSub = ''registration''\<rparr>, \<lparr>kProto = 1, kSub = ''siprec''\<rparr>,
      \<lparr>kProto = 1, kSub = ''default''\<rparr>, \<lparr>kProto = 5, kSub = ''''\<rparr>, \<lparr>kProto = 34, kSub = ''''\<rparr>,
      \<lparr>kProto = 35, kSub = ''''\<rparr>, \<lparr>kProto = 53, kSub = ''''\<rparr>, \<lparr>kProto = 100, kSub = ''''\<rparr>]"

lemma dom_schemas: "dom GetTableSchemas = set canonical_keys"
  by (auto simp: GetTableSchemas_def canonical_keys_def proto_defs sip_type_defs)

lemmas schema_defs = schema_1_call_def schema_1_registration_def schema_1_siprec_def schema_1_default_def
  schema_5_default_def schema_34_default_def schema_35_default_def schema_53_default_def schema_100_default_def

lemma schema_cases:
  assumes "GetTableSchemas key = Some s"
  shows "s \<in> {schema_1_call, schema_1_registration, schema_1_siprec, schema_1_default, schema_5_default,
    schema_34_default, schema_35_default, schema_53_default, schema_100_default}"
  using assms by (auto simp: GetTableSchemas_def split: if_splits)

lemma insert_columns_all:
  "list_all (\<lambda>s. insertColumnNames s = map fst (CreateSQL s) \<and> set (Columns s) \<subseteq> set (map fst (CreateSQL s)))
     [schema_1_call, schema_1_registration, schema_1_siprec, schema_1_default, schema_5_default,
      schema_34_default, schema_35_default, schema_53_default, schema_100_default]"
  by code_simp

lemma insert_columns_default: "insertColumnNames (GetDefaultSchema key) = map fst (CreateSQL (GetDefaultSchema key))"
proof -
  have "insertColumnNames (GetDefaultSchema \<lparr>kProto = 0, kSub = ''''\<rparr>)
      = map fst (CreateSQL (GetDefaultSchema \<lparr>kProto = 0, kSub = ''''\<rparr>))"
    by code_simp
  then show ?thesis by (simp add: insertColumnNames_def GetDefaultSchema_def)
qed

text \<open>
  The three descriptions of a table agree: for every key, known or not, the columns of the \<open>INSERT\<close>
  statement, as \<open>insertColumnNames\<close> reads them from its text, are the columns of the \<open>CREATE TABLE\<close> in
  the same order, without repetition, so a row bound by position reaches the columns it was built for.
\<close>

theorem insert_matches_create:
  "insertColumnNames (schemaForKey key) = map fst (CreateSQL (schemaForKey key)) \<and>
   distinct (insertColumnNames (schemaForKey key)) \<and>
   set (Columns (schemaForKey key)) \<subseteq> set (insertColumnNames (schemaForKey key))"
proof (cases "GetTableSchemas key")
  case None
  then show ?thesis
    by (simp only: schemaForKey_def option.case insert_columns_default) (simp add: GetDefaultSchema_def)
next
  case (Some s)
  have "list_all (\<lambda>s. distinct (map fst (CreateSQL s)))
     [schema_1_call, schema_1_registration, schema_1_siprec, schema_1_default, schema_5_default,
      schema_34_default, schema_35_default, schema_53_default, schema_100_default]"
    by code_simp
  then show ?thesis
    using Some schema_cases [OF Some] insert_columns_all by (auto simp: schemaForKey_def)
qed

subsection \<open>Which keys share a table\<close>

lemma digit_no_underscore: "CHR ''_'' \<notin> set (Itoa n)"
  using Itoa_digits [of "CHR ''_''" n] by auto

lemma Itoa_inj: "Itoa m = Itoa n \<longleftrightarrow> m = n"
  by (metis Atoi_Itoa option.inject)

lemma underscore_split: "Itoa m @ ''_'' @ x = Itoa n @ ''_'' @ y \<longleftrightarrow> m = n \<and> x = y"
proof
  assume eq: "Itoa m @ ''_'' @ x = Itoa n @ ''_'' @ y"
  have "IndexByte (Itoa m @ ''_'' @ x) (CHR ''_'') = Some (length (Itoa m))"
    "IndexByte (Itoa n @ ''_'' @ y) (CHR ''_'') = Some (length (Itoa n))"
    using IndexByte_append [OF digit_no_underscore] by simp_all
  with eq have "length (Itoa m) = length (Itoa n)" by simp
  with eq show "m = n \<and> x = y" by (simp add: Itoa_inj)
qed simp

lemma TableKey_String_eq:
  "TableKey_String k =
     Itoa (unat (kProto k)) @ ''_'' @ (if kSub k = '''' then ''default'' else kSub k)"
  by (simp add: TableKey_String_def)

lemma TableKey_String_inj:
  "TableKey_String k = TableKey_String k' \<longleftrightarrow>
     kProto k = kProto k' \<and>
     (if kSub k = '''' then ''default'' else kSub k) = (if kSub k' = '''' then ''default'' else kSub k')"
  unfolding TableKey_String_eq underscore_split by (simp add: word_unat_eq_iff)

lemma canonical_suffix:
  "list_all (\<lambda>k. map_option TableSuffix (GetTableSchemas k) = Some (TableKey_String k)) canonical_keys"
  by code_simp

lemma suffix_of_key: "TableSuffix (schemaForKey key) = TableKey_String key"
proof (cases "GetTableSchemas key")
  case None
  then show ?thesis by (simp add: schemaForKey_def GetDefaultSchema_def)
next
  case (Some s)
  then have "key \<in> set canonical_keys" using dom_schemas by auto
  with canonical_suffix Some show ?thesis by (auto simp: schemaForKey_def list_all_iff)
qed

lemma buffer_tables_inj: "buffer_tables s = buffer_tables s' \<longleftrightarrow> TableSuffix s = TableSuffix s'"
  by (auto simp: buffer_tables_def)

lemma GetSIPType_cases: "GetSIPType m = ''call'' \<or> GetSIPType m = ''registration'' \<or> GetSIPType m = ''default''"
  by (simp add: GetSIPType_def sip_type_defs)

lemma getTableKey_sub:
  "kSub (getTableKey h) = '''' \<or>
   kProto (getTableKey h) = 1 \<and>
     (kSub (getTableKey h) = ''call'' \<or> kSub (getTableKey h) = ''registration'' \<or> kSub (getTableKey h) = ''default'')"
  using GetSIPType_cases by (auto simp: getTableKey_def proto_defs split: option.splits)

text \<open>
  C21. Tables keep packets of different kinds apart, except in one case: two packets are routed to
  writers with the same buffer tables exactly when their table keys are equal, or when one is a SIP
  packet of the default class and the other a SIP packet without a parsed message (its payload has at
  most 32 bytes, so \<open>parseSIP\<close> was not called). The second key has no schema of its own; its
  \<open>GetDefaultSchema\<close> has the suffix \<open>1_default\<close> of the first, so two table writers, each with its own
  locks and its own active slot, work on the same two buffer tables.
\<close>

theorem shared_buffer_tables_iff:
  "buffer_tables (schemaForKey (getTableKey h)) = buffer_tables (schemaForKey (getTableKey h')) \<longleftrightarrow>
     getTableKey h = getTableKey h' \<or>
     {getTableKey h, getTableKey h'} = {\<lparr>kProto = 1, kSub = ''''\<rparr>, \<lparr>kProto = 1, kSub = ''default''\<rparr>}"
proof -
  have "buffer_tables (schemaForKey (getTableKey h)) = buffer_tables (schemaForKey (getTableKey h')) \<longleftrightarrow>
      TableKey_String (getTableKey h) = TableKey_String (getTableKey h')"
    by (simp add: buffer_tables_inj suffix_of_key)
  also have "\<dots> \<longleftrightarrow> getTableKey h = getTableKey h' \<or>
     {getTableKey h, getTableKey h'} = {\<lparr>kProto = 1, kSub = ''''\<rparr>, \<lparr>kProto = 1, kSub = ''default''\<rparr>}"
    using getTableKey_sub [of h] getTableKey_sub [of h']
    unfolding TableKey_String_inj
    by (cases "getTableKey h"; cases "getTableKey h'") (auto simp: doubleton_eq_iff)
  finally show ?thesis .
qed

end
