(* ===== verification/Writer_Alias.thy ===== *)
theory Writer_Alias
  imports Table_Writer Lake_Schema
begin






end
