(* ===== verification/Lake_Json.thy ===== *)
theory Lake_Json
  imports Hep_Types Isup_Preserve
begin

text \<open>
  The \<open>data_extra\<close> column (\<open>storage/ducklake/hep_adapter.go\<close>): the JSON text that is built byte by byte
  from the headers of a packet, the two caches of finished texts, and a reader of JSON against which
  the writer is checked. Go's order of iteration over a map is not specified; the order in which the
  custom headers are written is the argument \<open>rng\<close>, which lists the entries of the map. The reader
  works on bytes: whether a header is valid UTF-8 is not looked at, here or in the code.
\<close>

unbundle bit_operations_syntax

subsection \<open>Writing\<close>

definition escape_byte :: "char \<Rightarrow> string" where
  "escape_byte c =
     (if c = CHR 0x22 then [CHR 0x5C, CHR 0x22]
      else if c = CHR 0x5C then [CHR 0x5C, CHR 0x5C]
      else if c = CHR 0x0A then [CHR 0x5C, CHR ''n'']
      else if c = CHR 0x0D then [CHR 0x5C, CHR ''r'']
      else if c = CHR 0x09 then [CHR 0x5C, CHR ''t'']
      else if byte_val c < 32
      then [CHR 0x5C, CHR ''u'', CHR ''0'', CHR ''0'', hex_digit (byte_val c div 16), hex_digit (byte_val c mod 16)]
      else [c])"

definition writeJSONStringEscaped :: "bytes \<Rightarrow> string \<Rightarrow> bytes" where
  "writeJSONStringEscaped b s = b @ concat (map escape_byte s)"

definition quoted :: "string \<Rightarrow> string" where
  "quoted s = CHR 0x22 # concat (map escape_byte s) @ [CHR 0x22]"

text \<open>\<open>appendJSONField\<close>: the buffer and the flag \<open>first\<close>.\<close>

definition appendJSONField :: "bytes \<times> bool \<Rightarrow> string \<Rightarrow> string \<Rightarrow> bytes \<times> bool" where
  "appendJSONField st key value =
     (let (b, fst) = st
      in if value = '''' then (b, fst)
         else (writeJSONStringEscaped
                 (writeJSONStringEscaped ((if fst then b else b @ '','') @ [CHR 0x22]) key
                    @ [CHR 0x22, CHR '':'', CHR 0x22]) value @ [CHR 0x22], False))"

definition sipExtraFields :: "(string \<times> (sip_msg \<Rightarrow> string)) list" where
  "sipExtraFields =
     [(''from_host'', FromHost), (''to_host'', ToHost), (''user_agent'', UserAgent), (''server'', Server),
      (''via'', ViaOne), (''contact'', ContactVal), (''authorization'', AuthVal),
      (''content_type'', ContentType), (''content_length'', ContentLength), (''cseq'', CseqVal),
      (''expires'', Expires), (''max_forwards'', MaxForwards), (''response_code'', FirstResp),
      (''response_reason'', FirstRespText), (''request_uri'', URIRaw), (''from_tag'', FromTag),
      (''to_tag'', ToTag), (''branch'', ViaOneBranch), (''x_call_id'', XCallID)]"

type_synonym map_range = "(string \<rightharpoonup> string) \<Rightarrow> (string \<times> string) list"

fun custom_entries :: "(string \<times> string) list \<Rightarrow> bytes \<times> bool \<Rightarrow> bytes" where
  "custom_entries [] (b, cfirst) = b"
| "custom_entries ((k, v) # kvs) (b, cfirst) =
     custom_entries kvs
       (writeJSONStringEscaped
          (writeJSONStringEscaped ((if cfirst then b else b @ '','') @ [CHR 0x22]) k
             @ [CHR 0x22, CHR '':'', CHR 0x22]) v @ [CHR 0x22], False)"

definition appendSIPExtraFields :: "map_range \<Rightarrow> bytes \<times> bool \<Rightarrow> hep \<Rightarrow> bytes \<times> bool" where
  "appendSIPExtraFields rng st h =
     (case h_SIP h of
        None \<Rightarrow> st
      | Some m \<Rightarrow>
          (let (b, fst) = foldl (\<lambda>st (key, get). appendJSONField st key (get m)) st sipExtraFields;
               kvs = rng (CustomHeader m)
           in if kvs \<noteq> []
              then (custom_entries kvs
                      ((if fst then b else b @ '','') @ CHR 0x22 # ''custom_headers'' @ [CHR 0x22, CHR '':'', CHR ''{''], True)
                      @ ''}'', fst)
              else (b, fst)))"

definition effectiveNodeName :: "hep \<Rightarrow> string" where
  "effectiveNodeName h =
     (let name = TrimSpace (h_NodeName h)
      in if name = '''' then '''' else if name = Itoa (unat (h_NodeID h)) then '''' else name)"

definition version_prefix :: bytes where
  "version_prefix = CHR ''{'' # CHR 0x22 # ''version'' @ [CHR 0x22, CHR '':'']"

definition buildSIPExtraJSONInto :: "map_range \<Rightarrow> bytes \<Rightarrow> hep \<Rightarrow> bytes" where
  "buildSIPExtraJSONInto rng b h =
     (let b = b @ version_prefix @ Itoa (unat (h_Version h));
          (b, fst) = appendSIPExtraFields rng (appendJSONField (b, False) ''node_name'' (effectiveNodeName h)) h
      in b @ ''}'')"

definition proto_prefix :: "32 word \<Rightarrow> 32 word \<Rightarrow> bytes" where
  "proto_prefix version proto =
     version_prefix @ Itoa (unat version) @ CHR '','' # CHR 0x22 # ''proto_type'' @ [CHR 0x22, CHR '':'']
     @ Itoa (unat proto)"

subsection \<open>Cells and caches\<close>

text \<open>A JSON cell of a row is a finished text or a pooled buffer.\<close>

datatype json_cell = Raw bytes | Pooled bytes

fun cell_text :: "json_cell \<Rightarrow> bytes" where
  "cell_text (Raw b) = b"
| "cell_text (Pooled b) = (if b = [] then ''{}'' else b)"

record extra_caches =
  sipVersionOnlyCache :: "32 word \<rightharpoonup> bytes"
  simpleExtraCache :: "32 word \<rightharpoonup> bytes"

definition cachedSIPVersionOnlyJSON :: "32 word \<Rightarrow> extra_caches \<Rightarrow> bytes \<times> extra_caches" where
  "cachedSIPVersionOnlyJSON version ca =
     (case sipVersionOnlyCache ca version of
        Some m \<Rightarrow> (m, ca)
      | None \<Rightarrow>
          (let m = version_prefix @ Itoa (unat version) @ ''}''
           in (m, ca\<lparr>sipVersionOnlyCache := (sipVersionOnlyCache ca)(version \<mapsto> m)\<rparr>)))"

definition simple_key :: "hep \<Rightarrow> 32 word" where
  "simple_key h = (push_bit 16 (h_Version h)) OR (h_ProtoType h AND 0xFFFF)"

definition buildSimpleExtraJSONCell :: "hep \<Rightarrow> extra_caches \<Rightarrow> bytes \<times> extra_caches" where
  "buildSimpleExtraJSONCell h ca =
     (let nodeName = effectiveNodeName h
      in if nodeName = '''' then
           (case simpleExtraCache ca (simple_key h) of
              Some m \<Rightarrow> (m, ca)
            | None \<Rightarrow>
                (let m = proto_prefix (h_Version h) (h_ProtoType h) @ ''}''
                 in (m, ca\<lparr>simpleExtraCache := (simpleExtraCache ca)(simple_key h \<mapsto> m)\<rparr>)))
         else (fst (appendJSONField (proto_prefix (h_Version h) (h_ProtoType h), False) ''node_name'' nodeName) @ ''}'', ca))"

definition buildExtraJSONCell :: "map_range \<Rightarrow> hep \<Rightarrow> extra_caches \<Rightarrow> json_cell \<times> extra_caches" where
  "buildExtraJSONCell rng h ca =
     (if h_SIP h = None then
        (let (m, ca') = buildSimpleExtraJSONCell h ca in (Raw m, ca'))
      else
        (let b = buildSIPExtraJSONInto rng [] h
         in if length b \<le> 16 \<and> CHR '','' \<notin> set b
            then (let (m, ca') = cachedSIPVersionOnlyJSON (h_Version h) ca in (Raw m, ca'))
            else (Pooled b, ca)))"

subsection \<open>Reading\<close>

datatype json = JNum nat | JStr string | JObj "(string \<times> json) list"

fun show_json :: "json \<Rightarrow> string" and show_members :: "(string \<times> json) list \<Rightarrow> string" where
  "show_json (JNum n) = Itoa n"
| "show_json (JStr s) = quoted s"
| "show_json (JObj ms) = CHR ''{'' # show_members ms @ ''}''"
| "show_members [] = ''''"
| "show_members [(k, v)] = quoted k @ '':'' @ show_json v"
| "show_members ((k, v) # m # ms) = quoted k @ '':'' @ show_json v @ '','' @ show_members (m # ms)"

text \<open>The rest of a string literal, after its opening quote: its value and what follows it. Of the
  \<open>\u\<close> escapes, those below \<open>\u0100\<close>.\<close>

definition unescape :: "char \<Rightarrow> char option" where
  "unescape c =
     (if c = CHR 0x22 \<or> c = CHR 0x5C \<or> c = CHR ''/'' then Some c
      else if c = CHR ''n'' then Some (CHR 0x0A)
      else if c = CHR ''r'' then Some (CHR 0x0D)
      else if c = CHR ''t'' then Some (CHR 0x09)
      else None)"

fun read_string :: "string \<Rightarrow> (string \<times> string) option" where
  "read_string [] = None"
| "read_string (c # cs) =
     (if c = CHR 0x22 then Some ([], cs)
      else if c = CHR 0x5C then
        (case cs of
           [] \<Rightarrow> None
         | d # ds \<Rightarrow>
             if d = CHR ''u'' then
               (case ds of
                  z1 # z2 # x # y # rest \<Rightarrow>
                    (if z1 = CHR ''0'' \<and> z2 = CHR ''0'' then
                       (case (hex_value x, hex_value y) of
                          (Some a, Some b) \<Rightarrow> map_option (\<lambda>(s, r). (byte_of (a * 16 + b) # s, r)) (read_string rest)
                        | _ \<Rightarrow> None)
                     else None)
                | _ \<Rightarrow> None)
             else
               (case unescape d of
                  None \<Rightarrow> None
                | Some e \<Rightarrow> map_option (\<lambda>(s, r). (e # s, r)) (read_string ds)))
      else if byte_val c < 32 then None
      else map_option (\<lambda>(s, r). (c # s, r)) (read_string cs))"

definition is_digit :: "char \<Rightarrow> bool" where
  "is_digit c \<longleftrightarrow> 48 \<le> byte_val c \<and> byte_val c \<le> 57"

fun read_value :: "nat \<Rightarrow> string \<Rightarrow> (json \<times> string) option"
  and read_members :: "nat \<Rightarrow> string \<Rightarrow> ((string \<times> json) list \<times> string) option" where
  "read_value 0 s = None"
| "read_value (Suc n) s =
     (case s of
        [] \<Rightarrow> None
      | c # cs \<Rightarrow>
          if c = CHR 0x22 then map_option (\<lambda>(v, r). (JStr v, r)) (read_string cs)
          else if c = CHR ''{'' then
            (case cs of
               [] \<Rightarrow> None
             | d # ds \<Rightarrow> if d = CHR ''}'' then Some (JObj [], ds)
                         else map_option (\<lambda>(ms, r). (JObj ms, r)) (read_members n cs))
          else if is_digit c then
            (case Atoi_digits 0 (takeWhile is_digit s) of
               None \<Rightarrow> None
             | Some k \<Rightarrow> Some (JNum k, dropWhile is_digit s))
          else None)"
| "read_members 0 s = None"
| "read_members (Suc n) s =
     (case s of
        [] \<Rightarrow> None
      | q # cs \<Rightarrow>
          if q \<noteq> CHR 0x22 then None
          else
            (case read_string cs of
               None \<Rightarrow> None
             | Some (k, r) \<Rightarrow>
                 (case r of
                    [] \<Rightarrow> None
                  | col # r1 \<Rightarrow>
                      if col \<noteq> CHR '':'' then None
                      else
                        (case read_value n r1 of
                           None \<Rightarrow> None
                         | Some (v, r2) \<Rightarrow>
                             (case r2 of
                                [] \<Rightarrow> None
                              | e # r3 \<Rightarrow>
                                  if e = CHR ''}'' then Some ([(k, v)], r3)
                                  else if e = CHR '','' then
                                    map_option (\<lambda>(ms, r). ((k, v) # ms, r)) (read_members n r3)
                                  else None)))))"

definition read_json :: "string \<Rightarrow> json option" where
  "read_json s = (case read_value (length s) s of Some (v, []) \<Rightarrow> Some v | _ \<Rightarrow> None)"

subsection \<open>Strings\<close>

lemma byte_of_halves: "byte_of (byte_val c div 16 * 16 + byte_val c mod 16) = c"
  by simp

lemma read_escaped_byte:
  "read_string (escape_byte c @ t) = map_option (\<lambda>(s, r). (c # s, r)) (read_string t)"
proof -
  have "byte_val c < 32 \<Longrightarrow> byte_val c div 16 < 16" "byte_val c mod 16 < 16" by simp_all
  then show ?thesis
    by (simp add: escape_byte_def unescape_def hex_value_hex_digit byte_of_halves)
qed

lemma read_escaped: "read_string (concat (map escape_byte s) @ CHR 0x22 # rest) = Some (s, rest)"
  by (induction s) (auto simp: read_escaped_byte)

lemma read_quoted: "\<exists>t. quoted s @ rest = CHR 0x22 # t \<and> read_string t = Some (s, rest)"
  by (simp add: quoted_def read_escaped)

subsection \<open>Values\<close>

lemma Itoa_is_digit: "c \<in> set (Itoa n) \<Longrightarrow> is_digit c"
  using Itoa_digits by (simp add: is_digit_def)

lemma digits_read:
  assumes "\<And>c r. rest = c # r \<Longrightarrow> \<not> is_digit c"
  shows "takeWhile is_digit (Itoa n @ rest) = Itoa n" "dropWhile is_digit (Itoa n @ rest) = rest"
proof -
  have "takeWhile is_digit rest = []" "dropWhile is_digit rest = rest"
    using assms by (cases rest; simp)+
  then show "takeWhile is_digit (Itoa n @ rest) = Itoa n" "dropWhile is_digit (Itoa n @ rest) = rest"
    using Itoa_is_digit by (simp_all add: takeWhile_append2 dropWhile_append2)
qed

lemma read_number:
  assumes "\<And>c r. rest = c # r \<Longrightarrow> \<not> is_digit c"
  shows "read_value (Suc k) (Itoa n @ rest) = Some (JNum n, rest)"
proof -
  obtain c cs where c: "Itoa n = c # cs" by (cases "Itoa n") auto
  then have "is_digit c" using Itoa_is_digit [of c n] by simp
  then have "c \<noteq> CHR 0x22" "c \<noteq> CHR ''{''" by (auto simp: is_digit_def)
  with c \<open>is_digit c\<close> show ?thesis
    using digits_read [of rest n] assms Atoi_Itoa [of n] by simp
qed

lemma read_value_quoted: "read_value (Suc k) (quoted s @ rest) = Some (JStr s, rest)"
  using read_quoted [of s rest] by auto

lemma show_members_not_Nil: "ms \<noteq> [] \<Longrightarrow> \<exists>t. show_members ms = CHR 0x22 # t"
  by (cases ms rule: show_members.cases) (auto simp: quoted_def)

lemma read_members_step:
  "read_members (Suc n) (quoted k @ CHR '':'' # s) =
     (case read_value n s of
        None \<Rightarrow> None
      | Some (v, r2) \<Rightarrow>
          (case r2 of
             [] \<Rightarrow> None
           | e # r3 \<Rightarrow>
               if e = CHR ''}'' then Some ([(k, v)], r3)
               else if e = CHR '','' then map_option (\<lambda>(ms, r). ((k, v) # ms, r)) (read_members n r3)
               else None))"
  using read_quoted [of k "CHR '':'' # s"] by (auto split: option.splits list.splits)

lemma read_shown:
  "length (show_json v) \<le> n \<Longrightarrow> (\<And>c r. rest = c # r \<Longrightarrow> \<not> is_digit c) \<Longrightarrow>
     read_value n (show_json v @ rest) = Some (v, rest)"
  "ms \<noteq> [] \<Longrightarrow> length (show_members ms) \<le> n \<Longrightarrow>
     read_members n (show_members ms @ CHR ''}'' # rest) = Some (ms, rest)"
proof (induction v and ms arbitrary: n rest and n rest rule: show_json_show_members.induct)
  case (1 k)
  then show ?case by (cases n) (auto intro: read_number simp del: read_value.simps)
next
  case (2 s)
  then obtain n' where "n = Suc n'" by (cases n) (auto simp: quoted_def)
  then show ?case by (simp add: read_value_quoted del: read_value.simps)
next
  case (3 ms)
  then obtain n' where n: "n = Suc n'" "length (show_members ms) < n'" by (cases n) auto
  show ?case
  proof (cases "ms = []")
    case True
    then show ?thesis by (simp add: n)
  next
    case False
    then obtain t where t: "show_members ms = CHR 0x22 # t" using show_members_not_Nil by auto
    have "read_members n' (show_members ms @ CHR ''}'' # rest) = Some (ms, rest)"
      using "3.IH" False n(2) by simp
    with t show ?thesis by (simp add: n(1))
  qed
next
  case 4
  then show ?case by simp
next
  case (5 k v)
  then obtain n' where n: "n = Suc n'" "length (show_json v) \<le> n'" by (cases n) (auto simp: quoted_def)
  have "read_value n' (show_json v @ CHR ''}'' # rest) = Some (v, CHR ''}'' # rest)"
    using n(2) by (intro "5.IH") (auto simp: is_digit_def)
  then show ?case by (simp add: n(1) read_members_step del: read_members.simps)
next
  case (6 k v m ms)
  then obtain n' where n: "n = Suc n'" "length (show_json v) \<le> n'" "length (show_members (m # ms)) \<le> n'"
    by (cases n) (auto simp: quoted_def)
  have "read_value n' (show_json v @ CHR '','' # show_members (m # ms) @ CHR ''}'' # rest)
      = Some (v, CHR '','' # show_members (m # ms) @ CHR ''}'' # rest)"
    using n(2) by (intro "6.IH"(1)) (auto simp: is_digit_def)
  moreover have "read_members n' (show_members (m # ms) @ CHR ''}'' # rest) = Some (m # ms, rest)"
    using n(3) by (intro "6.IH"(2)) auto
  ultimately show ?case by (simp add: n(1) read_members_step del: read_members.simps)
qed

lemma read_show: "read_json (show_json v) = Some v"
  using read_shown(1) [of v "length (show_json v)" "[]"] by (simp add: read_json_def)

subsection \<open>The text that is built\<close>

definition member_text :: "string \<times> json \<Rightarrow> string" where
  "member_text kv = quoted (fst kv) @ '':'' @ show_json (snd kv)"

lemma show_members_Cons: "show_members (m # ms) = member_text m @ concat (map (\<lambda>m. '','' @ member_text m) ms)"
  by (induction ms arbitrary: m) (auto simp: member_text_def)

lemma append_field:
  "appendJSONField (b, False) key value =
     (if value = '''' then (b, False) else (b @ '','' @ member_text (key, JStr value), False))"
  by (simp add: appendJSONField_def writeJSONStringEscaped_def member_text_def quoted_def)

definition header_members :: "sip_msg \<Rightarrow> (string \<times> json) list" where
  "header_members m =
     map (\<lambda>(key, get). (key, JStr (get m))) (filter (\<lambda>(key, get). get m \<noteq> '''') sipExtraFields)"

definition node_members :: "hep \<Rightarrow> (string \<times> json) list" where
  "node_members h =
     (if effectiveNodeName h = '''' then [] else [(''node_name'', JStr (effectiveNodeName h))])"

definition custom_members :: "map_range \<Rightarrow> sip_msg \<Rightarrow> (string \<times> json) list" where
  "custom_members rng m =
     (if rng (CustomHeader m) = [] then []
      else [(''custom_headers'', JObj (map (\<lambda>(k, v). (k, JStr v)) (rng (CustomHeader m))))])"

text \<open>What \<open>data_extra\<close> says of a SIP packet.\<close>

definition extra_members :: "map_range \<Rightarrow> hep \<Rightarrow> sip_msg \<Rightarrow> (string \<times> json) list" where
  "extra_members rng h m =
     (''version'', JNum (unat (h_Version h))) # node_members h @ header_members m @ custom_members rng m"

lemma fold_fields:
  "foldl (\<lambda>st (key, get). appendJSONField st key (get m)) (b, False) fs =
     (b @ concat (map (\<lambda>m. '','' @ member_text m)
        (map (\<lambda>(key, get). (key, JStr (get m))) (filter (\<lambda>(key, get). get m \<noteq> '''') fs))), False)"
  by (induction fs arbitrary: b) (auto simp: append_field split: prod.splits)

lemma custom_entries_text:
  "custom_entries kvs (b, False) = b @ concat (map (\<lambda>m. '','' @ member_text m) (map (\<lambda>(k, v). (k, JStr v)) kvs))"
  by (induction kvs arbitrary: b)
     (auto simp: writeJSONStringEscaped_def member_text_def quoted_def split: prod.splits)

lemma custom_object:
  "kvs \<noteq> [] \<Longrightarrow> custom_entries kvs (b, True) = b @ show_members (map (\<lambda>(k, v). (k, JStr v)) kvs)"
  by (cases kvs)
     (auto simp: custom_entries_text show_members_Cons writeJSONStringEscaped_def member_text_def quoted_def
        simp del: show_members.simps split: prod.splits)

lemma quoted_literals:
  "version_prefix = CHR ''{'' # quoted ''version'' @ '':''"
  "CHR 0x22 # ''custom_headers'' @ [CHR 0x22, CHR '':'', CHR ''{''] = quoted ''custom_headers'' @ '':'' @ ''{''"
  by code_simp+

lemma built_text:
  assumes "h_SIP h = Some m"
  shows "buildSIPExtraJSONInto rng [] h = show_json (JObj (extra_members rng h m))"
proof -
  let ?c = "\<lambda>ms. concat (map (\<lambda>m. '','' @ member_text m) ms)"
  let ?b = "version_prefix @ Itoa (unat (h_Version h)) @ ?c (node_members h)"
  have "appendJSONField (version_prefix @ Itoa (unat (h_Version h)), False) ''node_name'' (effectiveNodeName h)
      = (?b, False)"
    by (simp add: append_field node_members_def)
  moreover have "appendSIPExtraFields rng (?b, False) h = (?b @ ?c (header_members m) @ ?c (custom_members rng m), False)"
  proof (cases "rng (CustomHeader m) = []")
    case True
    then show ?thesis
      by (simp add: appendSIPExtraFields_def assms fold_fields header_members_def custom_members_def)
  next
    case False
    have "(?b @ ?c (header_members m)) @ '','' @ CHR 0x22 # ''custom_headers'' @ [CHR 0x22, CHR '':'', CHR ''{'']
        = (?b @ ?c (header_members m)) @ '','' @ quoted ''custom_headers'' @ '':'' @ ''{''"
      by (simp only: quoted_literals(2))
    with False show ?thesis
      by (simp add: appendSIPExtraFields_def assms fold_fields header_members_def custom_members_def
          custom_object member_text_def)
  qed
  ultimately have "buildSIPExtraJSONInto rng [] h = ?b @ ?c (header_members m) @ ?c (custom_members rng m) @ ''}''"
    by (simp add: buildSIPExtraJSONInto_def)
  also have "\<dots> = show_json (JObj (extra_members rng h m))"
    by (simp add: extra_members_def show_members_Cons member_text_def quoted_literals(1) del: show_members.simps)
  finally show ?thesis .
qed

subsection \<open>The caches\<close>

text \<open>Every cached text is the text its packets would get without the cache.\<close>

definition version_only :: "32 word \<Rightarrow> bytes" where
  "version_only version = version_prefix @ Itoa (unat version) @ ''}''"

definition simple_text :: "hep \<Rightarrow> bytes" where
  "simple_text h =
     show_json (JObj ((''version'', JNum (unat (h_Version h))) # (''proto_type'', JNum (unat (h_ProtoType h))) # node_members h))"

definition sip_cache_ok :: "extra_caches \<Rightarrow> bool" where
  "sip_cache_ok ca \<longleftrightarrow> (\<forall>v b. sipVersionOnlyCache ca v = Some b \<longrightarrow> b = version_only v)"

lemma no_caches_ok [simp]: "sip_cache_ok \<lparr>sipVersionOnlyCache = Map.empty, simpleExtraCache = c\<rparr>"
  by (simp add: sip_cache_ok_def)

lemma simple_built:
  "proto_prefix (h_Version h) (h_ProtoType h) @ concat (map (\<lambda>m. '','' @ member_text m) (node_members h)) @ ''}'' = simple_text h"
proof -
  have "CHR '','' # CHR 0x22 # ''proto_type'' @ [CHR 0x22, CHR '':''] = '','' @ quoted ''proto_type'' @ '':''"
    by code_simp
  then have "proto_prefix v p = version_prefix @ Itoa (unat v) @ ('','' @ quoted ''proto_type'' @ '':'') @ Itoa (unat p)" for v p
    by (simp add: proto_prefix_def flip: append_assoc)
  then show ?thesis
    by (simp add: simple_text_def show_members_Cons member_text_def quoted_literals(1) del: show_members.simps)
qed

lemma simple_cell:
  assumes "effectiveNodeName h = [] \<Longrightarrow> simpleExtraCache ca (simple_key h) = None"
  shows "fst (buildSimpleExtraJSONCell h ca) = simple_text h"
  using assms simple_built [of h]
  by (auto simp: buildSimpleExtraJSONCell_def node_members_def append_field Let_def)

text \<open>A text of at most 16 bytes without a comma is the version-only text.\<close>

lemma short_text:
  assumes "h_SIP h = Some m" and "CHR '','' \<notin> set (buildSIPExtraJSONInto rng [] h)"
  shows "buildSIPExtraJSONInto rng [] h = version_only (h_Version h)"
proof -
  let ?ms = "node_members h @ header_members m @ custom_members rng m"
  have eq: "buildSIPExtraJSONInto rng [] h
      = version_prefix @ Itoa (unat (h_Version h)) @ concat (map (\<lambda>m. '','' @ member_text m) ?ms) @ ''}''"
    unfolding built_text [OF assms(1)]
    by (simp add: extra_members_def show_members_Cons member_text_def quoted_literals(1) del: show_members.simps)
  with assms(2) have "?ms = []" by (cases ?ms) auto
  with eq show ?thesis by (simp add: version_only_def)
qed

lemma sip_cell:
  assumes "h_SIP h = Some m" and "sip_cache_ok ca"
  shows "cell_text (fst (buildExtraJSONCell rng h ca)) = buildSIPExtraJSONInto rng [] h \<and>
    sip_cache_ok (snd (buildExtraJSONCell rng h ca))"
proof (cases "length (buildSIPExtraJSONInto rng [] h) \<le> 16 \<and> CHR '','' \<notin> set (buildSIPExtraJSONInto rng [] h)")
  case True
  with short_text [OF assms(1)] have "buildSIPExtraJSONInto rng [] h = version_only (h_Version h)" by blast
  with True assms show ?thesis
    by (auto simp: buildExtraJSONCell_def cachedSIPVersionOnlyJSON_def sip_cache_ok_def version_only_def Let_def
        split: option.splits if_splits)
next
  case False
  have "buildSIPExtraJSONInto rng [] h \<noteq> []" by (simp add: built_text [OF assms(1)])
  with False assms show ?thesis by (auto simp: buildExtraJSONCell_def)
qed

text \<open>
  C23. The \<open>data_extra\<close> cell of a SIP packet is well-formed JSON and loses nothing: whatever bytes the
  headers hold, quotes, backslashes and control characters included, and whatever the cache has seen
  before, a JSON reader gets back the version, the host name and exactly the non-empty headers, each
  under its own key and with its own value. No header value can end its string or add a key.
\<close>

theorem data_extra_reads_back:
  assumes "h_SIP h = Some m" and "sip_cache_ok ca"
  shows "read_json (cell_text (fst (buildExtraJSONCell rng h ca))) = Some (JObj (extra_members rng h m)) \<and>
    sip_cache_ok (snd (buildExtraJSONCell rng h ca))"
  using sip_cell [OF assms] built_text [OF assms(1)] read_show by metis

definition demo_packet :: hep where
  "demo_packet = (acquireHEP None)\<lparr>h_Version := 2, h_ProtoType := 1, h_NodeName := ''edge-1'',
     h_SIP := Some (acquireSipMsg\<lparr>UserAgent := ''a'' @ [CHR 0x22, CHR 0x0A, CHR 0x5C] @ '',b''\<rparr>)\<rparr>"

theorem data_extra_reads_back_witness:
  "read_json (cell_text (fst (buildExtraJSONCell (\<lambda>_. []) demo_packet \<lparr>sipVersionOnlyCache = Map.empty, simpleExtraCache = Map.empty\<rparr>)))
     = Some (JObj [(''version'', JNum 2), (''node_name'', JStr ''edge-1''),
         (''user_agent'', JStr (''a'' @ [CHR 0x22, CHR 0x0A, CHR 0x5C] @ '',b''))])"
proof -
  let ?m = "acquireSipMsg\<lparr>UserAgent := ''a'' @ [CHR 0x22, CHR 0x0A, CHR 0x5C] @ '',b''\<rparr>"
  have "h_SIP demo_packet = Some ?m" by (simp add: demo_packet_def)
  moreover have "extra_members (\<lambda>_. []) demo_packet ?m = [(''version'', JNum 2), (''node_name'', JStr ''edge-1''),
         (''user_agent'', JStr (''a'' @ [CHR 0x22, CHR 0x0A, CHR 0x5C] @ '',b''))]"
    by code_simp
  ultimately show ?thesis
    using data_extra_reads_back [of demo_packet ?m, OF _ no_caches_ok] by simp
qed

text \<open>
  The cache of the other protocols is keyed by too little: the key keeps 16 bits of the protocol
  type and shifts the version out of the word, so a packet whose type does not fit in 16 bits, as the
  protobuf transport allows, gets the text cached for another type.
\<close>

theorem simple_cache_collides:
  "\<exists>h h' ca. h_ProtoType h \<noteq> h_ProtoType h' \<and>
     ca = snd (buildSimpleExtraJSONCell h \<lparr>sipVersionOnlyCache = Map.empty, simpleExtraCache = Map.empty\<rparr>) \<and>
     read_json (fst (buildSimpleExtraJSONCell h' ca))
       = Some (JObj [(''version'', JNum 2), (''proto_type'', JNum 5)]) \<and>
     h_Version h' = 2 \<and> h_ProtoType h' = 65541"
proof -
  let ?h = "(acquireHEP None)\<lparr>h_Version := 2, h_ProtoType := 5\<rparr>"
  let ?h' = "(acquireHEP None)\<lparr>h_Version := 2, h_ProtoType := 65541\<rparr>"
  have "read_json (fst (buildSimpleExtraJSONCell ?h'
       (snd (buildSimpleExtraJSONCell ?h \<lparr>sipVersionOnlyCache = Map.empty, simpleExtraCache = Map.empty\<rparr>))))
     = Some (JObj [(''version'', JNum 2), (''proto_type'', JNum 5)])"
    by code_simp
  then show ?thesis
    by (intro exI [of _ ?h] exI [of _ ?h'] exI conjI) (simp_all add: acquireHEP_def)
qed

end
