(* ===== verification/Lake_Rows.thy ===== *)
theory Lake_Rows
  imports Lake_Schema Lake_Json Lake_Date
begin

text \<open>
  From packets to rows (\<open>storage/ducklake/hep_adapter.go\<close>: \<open>fastUUID\<close>, \<open>fastNodeID\<close>,
  \<open>convertHEPToValuesWithSIPSubtype\<close> and the \<open>build*Values\<close> functions; \<open>sql_lake_insert.go\<close>:
  \<open>ConvertHEPToLakeRowSIPForced\<close>; \<open>siprec_storage.go\<close>: \<open>WriteSiprecRow\<close>). A cell is one of the Go
  values a row holds. The counter of the UUIDs and the caches are the state of the conversion.
\<close>

unbundle bit_operations_syntax

subsection \<open>UUIDs\<close>

definition uuid_raw :: "bytes \<Rightarrow> 64 word \<Rightarrow> bytes" where
  "uuid_raw pre seq =
     (let raw = take 8 pre @ be_bytes 8 (unat seq);
          raw = raw[6 := byte_of ((byte_val (raw ! 6) AND 0x0F) OR 0x40)]
      in raw[8 := byte_of ((byte_val (raw ! 8) AND 0x3F) OR 0x80)])"

definition uuid_text :: "bytes \<Rightarrow> string" where
  "uuid_text raw =
     hex_EncodeToString (take 4 raw) @ ''-'' @ hex_EncodeToString (take 2 (drop 4 raw)) @ ''-'' @ hex_EncodeToString (take 2 (drop 6 raw))
     @ ''-'' @ hex_EncodeToString (take 2 (drop 8 raw)) @ ''-'' @ hex_EncodeToString (take 6 (drop 10 raw))"

text \<open>\<open>atomic.AddUint64\<close> returns the counter after the addition.\<close>

definition fastUUID :: "bytes \<Rightarrow> 64 word \<Rightarrow> string \<times> 64 word" where
  "fastUUID pre uuidCounter = (let seq = uuidCounter + 1 in (uuid_text (uuid_raw pre seq), seq))"

lemma hex_inj: "hex_EncodeToString s = hex_EncodeToString t \<longleftrightarrow> s = t"
  using hex_Decode_Encode by (metis option.inject)

lemma length_hex: "length (hex_EncodeToString s) = 2 * length s"
  by (induction s) simp_all

lemma five_parts:
  assumes "length x = 16"
  shows "x = take 4 x @ take 2 (drop 4 x) @ take 2 (drop 6 x) @ take 2 (drop 8 x) @ take 6 (drop 10 x)"
proof -
  have "x = take 4 x @ drop 4 x" "drop 4 x = take 2 (drop 4 x) @ drop 6 x"
    "drop 6 x = take 2 (drop 6 x) @ drop 8 x" "drop 8 x = take 2 (drop 8 x) @ drop 10 x"
    using append_take_drop_id [of 2 "drop 4 x"] append_take_drop_id [of 2 "drop 6 x"]
      append_take_drop_id [of 2 "drop 8 x"] by simp_all
  moreover have "drop 10 x = take 6 (drop 10 x)" using assms by simp
  ultimately show ?thesis by metis
qed

lemma uuid_text_inj:
  assumes "length r = 16" and "length r' = 16" and "uuid_text r = uuid_text r'"
  shows "r = r'"
proof -
  from assms have
    "take 4 r = take 4 r'" "take 2 (drop 4 r) = take 2 (drop 4 r')" "take 2 (drop 6 r) = take 2 (drop 6 r')"
    "take 2 (drop 8 r) = take 2 (drop 8 r')" "take 6 (drop 10 r) = take 6 (drop 10 r')"
    by (simp_all add: uuid_text_def length_hex hex_inj)
  with five_parts [OF assms(1)] five_parts [OF assms(2)] show ?thesis by metis
qed

lemma top_bits: "n < 64 \<Longrightarrow> (n AND 0x3F) OR 0x80 = n + (128 :: nat)"
proof -
  have "list_all (\<lambda>n. (n AND 0x3F) OR 0x80 = n + (128 :: nat)) [0..<64]" by code_simp
  then show "n < 64 \<Longrightarrow> (n AND 0x3F) OR 0x80 = n + (128 :: nat)" by (simp add: list_all_iff)
qed

lemma length_uuid_raw: "length pre = 8 \<Longrightarrow> length (uuid_raw pre seq) = 16"
  by (simp add: uuid_raw_def Let_def)

lemma be_val_Cons: "be_val (c # t) = byte_val c * 256 ^ length t + be_val t"
proof (induction t rule: rev_induct)
  case (snoc d t)
  have "be_val (c # t @ [d]) = be_val (c # t) * 256 + byte_val d"
    using be_val_snoc [of "c # t" d] by simp
  with snoc show ?case by (simp add: algebra_simps)
qed (simp add: be_val_def)

lemma top_byte:
  assumes "n < 2 ^ 62"
  shows "byte_val (be_bytes 8 n ! 0) < 64"
proof -
  obtain c t where b: "be_bytes 8 n = c # t" "length t = 7"
    using length_be_bytes [of 8 n] by (cases "be_bytes 8 n") auto
  have "n mod 256 ^ 8 = n"
    using assms by simp
  then have "n = byte_val c * 256 ^ 7 + be_val t"
    using be_val_be_bytes [of 8 n] b be_val_Cons [of c t] by simp
  with assms b show ?thesis by simp
qed

lemma uuid_raw_seq:
  assumes "length pre = 8" and "unat seq < 2 ^ 62"
  shows "uuid_raw pre seq ! 8 = byte_of (byte_val (be_bytes 8 (unat seq) ! 0) + 128)"
    and "drop 9 (uuid_raw pre seq) = drop 1 (be_bytes 8 (unat seq))"
proof -
  let ?b = "be_bytes 8 (unat seq)"
  have "(take 8 pre @ ?b) ! 8 = ?b ! 0" using assms(1) by (simp add: nth_append)
  then show "uuid_raw pre seq ! 8 = byte_of (byte_val (?b ! 0) + 128)"
    using assms(1) top_bits [OF top_byte [OF assms(2)]] by (simp add: uuid_raw_def Let_def)
  show "drop 9 (uuid_raw pre seq) = drop 1 ?b"
    using assms(1) by (simp add: uuid_raw_def Let_def)
qed

text \<open>
  UUIDs of one process do not repeat: for fewer than \<open>2 ^ 62\<close> packets, different values of the
  counter give different texts of 36 characters, although the version and variant bits overwrite two
  bits of the counter.
\<close>

theorem uuids_distinct:
  assumes "length pre = 8" and "unat (a + 1) < 2 ^ 62" and "unat (b + 1) < 2 ^ 62" and "a \<noteq> b"
  shows "fst (fastUUID pre a) \<noteq> fst (fastUUID pre b) \<and> length (fst (fastUUID pre a)) = 36"
proof -
  have len: "length (uuid_raw pre s) = 16" for s by (rule length_uuid_raw [OF assms(1)])
  have "uuid_raw pre (a + 1) \<noteq> uuid_raw pre (b + 1)"
  proof
    assume eq: "uuid_raw pre (a + 1) = uuid_raw pre (b + 1)"
    let ?x = "be_bytes 8 (unat (a + 1))" and ?y = "be_bytes 8 (unat (b + 1))"
    note x = uuid_raw_seq [OF assms(1,2)] and y = uuid_raw_seq [OF assms(1,3)]
    have "byte_val (byte_of (byte_val (?x ! 0) + 128)) = byte_val (byte_of (byte_val (?y ! 0) + 128))"
      using eq x(1) y(1) by metis
    then have "byte_val (?x ! 0) + 128 = byte_val (?y ! 0) + 128"
      using top_byte [OF assms(2)] top_byte [OF assms(3)] by (simp add: of_char_of)
    then have "?x ! 0 = ?y ! 0" by (simp add: of_char_eq_iff)
    moreover have "drop 1 ?x = drop 1 ?y" using eq x(2) y(2) by metis
    ultimately have "?x = ?y"
      by (metis Cons_nth_drop_Suc One_nat_def drop0 length_be_bytes zero_less_numeral)
    then have "be_val ?x = be_val ?y" by simp
    then have "unat (a + 1) = unat (b + 1)"
      using assms(2,3) by (simp add: be_val_be_bytes)
    then have "a + 1 = b + 1" by (simp add: word_unat_eq_iff)
    with assms(4) show False by simp
  qed
  then have "uuid_text (uuid_raw pre (a + 1)) \<noteq> uuid_text (uuid_raw pre (b + 1))"
    using uuid_text_inj [OF len len] by blast
  then show ?thesis
    using len by (simp add: fastUUID_def Let_def uuid_text_def length_hex)
qed

theorem uuids_distinct_witness:
  "fst (fastUUID (replicate 8 CHR ''a'') 0) \<noteq> fst (fastUUID (replicate 8 CHR ''a'') 41)"
  using uuids_distinct [of "replicate 8 CHR ''a''" 0 41] by simp

subsection \<open>Rows\<close>

datatype cell =
    CNil
  | CString string
  | CTime go_time
  | CDate int
  | CUint32 "32 word"
  | CUint16 "16 word"
  | CJson json_cell
  | CBytes bytes

record conversion =
  uuidCounter :: "64 word"
  dates :: date_cache
  extras :: extra_caches
  nodeIDCache :: "32 word \<rightharpoonup> string"

definition fastNodeID :: "32 word \<Rightarrow> (32 word \<rightharpoonup> string) \<Rightarrow> string \<times> (32 word \<rightharpoonup> string)" where
  "fastNodeID i ca =
     (case ca i of Some s \<Rightarrow> (s, ca) | None \<Rightarrow> (Itoa (unat i), ca(i \<mapsto> Itoa (unat i))))"

definition isupBodyCell :: "hep \<Rightarrow> cell" where
  "isupBodyCell h = (case h_ISUPBody h of None \<Rightarrow> CNil | Some b \<Rightarrow> if b = [] then CNil else CBytes b)"

text \<open>A row is built for the packet, its UUID, date, time, node and the finished \<open>data_extra\<close> cell.\<close>

definition sip_field :: "hep \<Rightarrow> (sip_msg \<Rightarrow> string) \<Rightarrow> string" where
  "sip_field h f = (case h_SIP h of None \<Rightarrow> '''' | Some m \<Rightarrow> f m)"

definition buildSIPCallValues :: "hep \<Rightarrow> string \<Rightarrow> int \<Rightarrow> go_time \<Rightarrow> string \<Rightarrow> json_cell \<Rightarrow> cell list" where
  "buildSIPCallValues h uid date ts nodeID extra =
     [CString uid, CDate date, CTime ts, CString (sip_field h CallID), CString (sip_field h FromUser),
      CString (if h_SIP h = None then '''' else CalleeUser (h_SIP h)), CString (h_SrcIP h), CString (h_DstIP h),
      CUint32 (h_SrcPort h), CUint32 (h_DstPort h), CString (sip_field h FirstMethod),
      CString (sip_field h FirstResp), CString (sip_field h CseqMethod), CUint32 (h_Protocol h),
      CString nodeID, CString (h_CID h), CString (h_Payload h), CJson extra, isupBodyCell h]"

definition buildSIPRegistrationValues :: "hep \<Rightarrow> string \<Rightarrow> int \<Rightarrow> go_time \<Rightarrow> string \<Rightarrow> json_cell \<Rightarrow> cell list" where
  "buildSIPRegistrationValues h uid date ts nodeID extra =
     [CString uid, CDate date, CTime ts, CString (sip_field h CallID),
      CString (sip_field h (\<lambda>m. ToUser m @ ''@'' @ ToHost m)), CString (sip_field h ContactVal),
      CString (sip_field h Expires), CString (sip_field h UserAgent), CString (h_SrcIP h), CString (h_DstIP h),
      CUint32 (h_SrcPort h), CUint32 (h_DstPort h), CString (sip_field h FirstMethod),
      CString (sip_field h FirstResp), CUint32 (h_Protocol h), CString nodeID, CString (h_Payload h),
      CJson extra, isupBodyCell h]"

definition buildSIPDefaultValues :: "hep \<Rightarrow> string \<Rightarrow> int \<Rightarrow> go_time \<Rightarrow> string \<Rightarrow> json_cell \<Rightarrow> cell list" where
  "buildSIPDefaultValues h uid date ts nodeID extra =
     [CString uid, CDate date, CTime ts, CString (sip_field h CallID), CString (h_SrcIP h), CString (h_DstIP h),
      CUint32 (h_SrcPort h), CUint32 (h_DstPort h), CString (sip_field h FirstMethod),
      CString (sip_field h FirstResp), CUint32 (h_Protocol h), CString nodeID, CString (h_CID h),
      CString (h_Payload h), CJson extra, isupBodyCell h]"

definition buildSIPValues :: "hep \<Rightarrow> string \<Rightarrow> int \<Rightarrow> go_time \<Rightarrow> string \<Rightarrow> json_cell \<Rightarrow> string \<Rightarrow> cell list" where
  "buildSIPValues h uid date ts nodeID extra sipType =
     (if sipType = SIPTypeCall then buildSIPCallValues h uid date ts nodeID extra
      else if sipType = SIPTypeRegistration then buildSIPRegistrationValues h uid date ts nodeID extra
      else buildSIPDefaultValues h uid date ts nodeID extra)"

definition buildRTCPValues :: "hep \<Rightarrow> string \<Rightarrow> int \<Rightarrow> go_time \<Rightarrow> string \<Rightarrow> json_cell \<Rightarrow> cell list" where
  "buildRTCPValues h uid date ts nodeID extra =
     [CString uid, CDate date, CTime ts, CString (h_CID h), CString (h_SrcIP h), CString (h_DstIP h),
      CUint32 (h_SrcPort h), CUint32 (h_DstPort h), CUint32 (h_Protocol h), CString nodeID,
      CString (h_CID h), CString (h_Payload h), CJson extra]"

definition buildDNSValues :: "hep \<Rightarrow> string \<Rightarrow> int \<Rightarrow> go_time \<Rightarrow> string \<Rightarrow> json_cell \<Rightarrow> cell list" where
  "buildDNSValues h uid date ts nodeID extra =
     [CString uid, CDate date, CTime ts, CString (h_SrcIP h), CString (h_DstIP h),
      CUint32 (h_SrcPort h), CUint32 (h_DstPort h), CUint32 (h_Protocol h), CString nodeID,
      CString (h_Payload h), CJson extra]"

definition buildLOGValues :: "hep \<Rightarrow> string \<Rightarrow> int \<Rightarrow> go_time \<Rightarrow> string \<Rightarrow> json_cell \<Rightarrow> cell list" where
  "buildLOGValues h uid date ts nodeID extra =
     [CString uid, CDate date, CTime ts, CString (h_CID h), CString (h_SrcIP h), CString (h_DstIP h),
      CString nodeID, CString (h_Payload h), CJson extra]"

definition buildDefaultValues :: "hep \<Rightarrow> string \<Rightarrow> int \<Rightarrow> go_time \<Rightarrow> string \<Rightarrow> json_cell \<Rightarrow> cell list" where
  "buildDefaultValues h uid date ts nodeID extra =
     [CString uid, CDate date, CTime ts, CString (h_CID h), CString (h_SrcIP h), CString (h_DstIP h),
      CUint32 (h_SrcPort h), CUint32 (h_DstPort h), CUint32 (h_Protocol h), CString nodeID,
      CString (h_CID h), CString (h_Payload h), CJson extra]"

text \<open>The time of the packet: \<open>Timestamp\<close>, which the decoder keeps in UTC, or the seconds and
  microseconds in the local zone (\<open>loc\<close>) when it was never set.\<close>

definition packet_time :: "int \<Rightarrow> hep \<Rightarrow> go_time" where
  "packet_time loc h =
     (if h_Timestamp h = zero_time
      then \<lparr>nanos = uint (h_Tsec h) * 10 ^ 9 + uint (h_Tmsec h) * 1000, zone = loc\<rparr>
      else \<lparr>nanos = h_Timestamp h, zone = 0\<rparr>)"

definition extra_cell :: "map_range \<Rightarrow> hep \<Rightarrow> extra_caches \<Rightarrow> json_cell \<times> extra_caches" where
  "extra_cell rng h ca =
     (if h_ProtoType h = ProtoTypeSIP then buildExtraJSONCell rng h ca
      else (let (m, ca') = buildSimpleExtraJSONCell h ca in (Raw m, ca')))"

definition build_values :: "hep \<Rightarrow> string \<Rightarrow> int \<Rightarrow> go_time \<Rightarrow> string \<Rightarrow> json_cell \<Rightarrow> string \<Rightarrow> cell list" where
  "build_values h uid date ts nodeID extra sipType =
     (if h_ProtoType h = ProtoTypeSIP then buildSIPValues h uid date ts nodeID extra sipType
      else if h_ProtoType h = ProtoTypeRTCPJSON \<or> h_ProtoType h = ProtoTypeRTCP \<or> h_ProtoType h = ProtoTypeRTP
      then buildRTCPValues h uid date ts nodeID extra
      else if h_ProtoType h = ProtoTypeDNS then buildDNSValues h uid date ts nodeID extra
      else if h_ProtoType h = ProtoTypeLOG then buildLOGValues h uid date ts nodeID extra
      else buildDefaultValues h uid date ts nodeID extra)"

definition convertHEPToValuesWithSIPSubtype ::
  "map_range \<Rightarrow> bytes \<Rightarrow> int \<Rightarrow> hep \<Rightarrow> string \<Rightarrow> conversion \<Rightarrow> (table_key \<times> cell list) \<times> conversion" where
  "convertHEPToValuesWithSIPSubtype rng pre loc h forced st =
     (let ts = packet_time loc h;
          (date, ds) = fastDuckDate ts (dates st);
          (uid, ctr) = fastUUID pre (uuidCounter st);
          (nodeID, nodes) = fastNodeID (h_NodeID h) (nodeIDCache st);
          key = (if h_ProtoType h = ProtoTypeSIP \<and> forced \<noteq> '''' then \<lparr>kProto = ProtoTypeSIP, kSub = forced\<rparr>
                 else getTableKey h);
          (extra, ex) = extra_cell rng h (extras st)
      in ((key, build_values h uid date ts nodeID extra (kSub key)),
          \<lparr>uuidCounter = ctr, dates = ds, extras = ex, nodeIDCache = nodes\<rparr>))"

datatype forced_error = ErrForcedNotSIP | ErrForcedSubtype

definition ConvertHEPToLakeRowSIPForced ::
  "map_range \<Rightarrow> bytes \<Rightarrow> int \<Rightarrow> hep \<Rightarrow> string \<Rightarrow> conversion \<Rightarrow> (forced_error, (table_key \<times> cell list) \<times> conversion) go_result" where
  "ConvertHEPToLakeRowSIPForced rng pre loc h sipSubType st =
     (if h_ProtoType h \<noteq> ProtoTypeSIP then Fails ErrForcedNotSIP
      else if sipSubType = SIPTypeCall \<or> sipSubType = SIPTypeRegistration \<or> sipSubType = SIPTypeDefault
      then Returns (convertHEPToValuesWithSIPSubtype rng pre loc h sipSubType st)
      else Fails ErrForcedSubtype)"

subsection \<open>Rows fit their tables\<close>

text \<open>What the Appender takes for a column. As the comments of \<open>fastDuckDate\<close> and
  \<open>cellToDriverValue\<close> say, a \<open>DATE\<close> must be a time value, and a string given for a \<open>JSON\<close> column is
  stored as a JSON string, not as the document it spells.\<close>

fun fits :: "sql_type \<Rightarrow> cell \<Rightarrow> bool" where
  "fits VARCHAR (CString s) \<longleftrightarrow> True"
| "fits DATE (CDate d) \<longleftrightarrow> True"
| "fits TIMESTAMP (CTime t) \<longleftrightarrow> True"
| "fits UINTEGER (CUint32 w) \<longleftrightarrow> True"
| "fits UINTEGER (CUint16 w) \<longleftrightarrow> True"
| "fits JSON (CJson j) \<longleftrightarrow> True"
| "fits BLOB (CBytes b) \<longleftrightarrow> True"
| "fits ty CNil \<longleftrightarrow> True"
| "fits ty c \<longleftrightarrow> False"

definition row_fits :: "table_schema \<Rightarrow> cell list \<Rightarrow> bool" where
  "row_fits schema row \<longleftrightarrow> list_all2 fits (map snd (CreateSQL schema)) row"
















subsection \<open>SIPREC rows\<close>

record siprec_row =
  sr_SessionID :: string
  sr_Caller :: string
  sr_Callee :: string
  sr_SrcIP :: string
  sr_DstIP :: string
  sr_SrcPort :: "16 word"
  sr_DstPort :: "16 word"
  sr_Method :: string
  sr_ResponseCode :: string
  sr_CseqMethod :: string
  sr_CID :: string
  sr_NodeID :: string
  sr_Payload :: string
  sr_Timestamp :: int

text \<open>\<open>WriteSiprecRow\<close>: \<open>uid\<close> is the new UUID, \<open>now\<close> the clock, \<open>fmt\<close> the layout \<open>2006-01-02\<close> of
  \<open>time.Format\<close>, \<open>extra\<close> the result of \<open>json.Marshal\<close> for a non-empty \<open>DataExtra\<close> (outer \<open>None\<close>: the
  map is empty; inner \<open>None\<close>: an error). The last cells are Go strings, also for the date and the
  JSON column.\<close>

definition siprec_values ::
  "media_parser \<Rightarrow> string \<Rightarrow> int \<Rightarrow> (int \<Rightarrow> string) \<Rightarrow> string option option \<Rightarrow> siprec_row \<Rightarrow> (string, table_key \<times> cell list) go_result" where
  "siprec_values mp uid now fmt extra row =
     (let ts = (if sr_Timestamp row = zero_time then now else sr_Timestamp row);
          (payload, body) = DetachISUPBody mp (sr_Payload row);
          isupCell = (case body of None \<Rightarrow> CNil | Some b \<Rightarrow> if b = [] then CNil else CBytes b);
          values = (\<lambda>extraJSON.
            [CString uid, CString (fmt ts), CTime \<lparr>nanos = ts, zone = 0\<rparr>, CString (sr_SessionID row),
             CString (sr_Caller row), CString (sr_Callee row), CString (sr_SrcIP row), CString (sr_DstIP row),
             CUint16 (sr_SrcPort row), CUint16 (sr_DstPort row), CString (sr_Method row),
             CString (sr_ResponseCode row), CString (sr_CseqMethod row), CUint32 17, CString (sr_NodeID row),
             CString (sr_CID row), CString payload, CString extraJSON, isupCell]);
          key = \<lparr>kProto = ProtoTypeSIP, kSub = SIPTypeSiprec\<rparr>
      in case extra of
           None \<Rightarrow> Returns (key, values ''{}'')
         | Some None \<Rightarrow> Fails ''siprec storage: marshal data_extra''
         | Some (Some j) \<Rightarrow> Returns (key, values j))"

text \<open>
  No SIPREC event can be appended: every row that \<open>WriteSiprecRow\<close> builds has as many cells as its
  table has columns, but gives the \<open>date\<close> column a string, which the Appender does not take, and the
  \<open>data_extra\<close> column a string instead of a JSON document. The row is accepted into the batch, and
  the append of that batch fails on it.
\<close>

theorem siprec_row_rejected:
  assumes "siprec_values mp uid now fmt extra r = Returns (key, row)"
  shows "schemaForKey key = schema_1_siprec \<and> length row = length (CreateSQL (schemaForKey key)) \<and>
    \<not> row_fits (schemaForKey key) row \<and>
    {i. i < length row \<and> \<not> fits (snd (CreateSQL (schemaForKey key) ! i)) (row ! i)} = {1, 17}"
proof -
  obtain payload body where d: "DetachISUPBody mp (sr_Payload r) = (payload, body)" by fastforce
  define ic where "ic = (case body of None \<Rightarrow> CNil | Some b \<Rightarrow> if b = [] then CNil else CBytes b)"
  have ic: "fits BLOB ic" by (simp add: ic_def split: option.splits)
  have "key = \<lparr>kProto = ProtoTypeSIP, kSub = SIPTypeSiprec\<rparr>"
    using assms by (auto simp: siprec_values_def d Let_def split: option.splits)
  then have key: "schemaForKey key = schema_1_siprec"
    by (simp add: schemaForKey_def GetTableSchemas_def proto_defs sip_type_defs)
  obtain ts j where row: "row =
      [CString uid, CString (fmt ts), CTime \<lparr>nanos = ts, zone = 0\<rparr>, CString (sr_SessionID r),
       CString (sr_Caller r), CString (sr_Callee r), CString (sr_SrcIP r), CString (sr_DstIP r),
       CUint16 (sr_SrcPort r), CUint16 (sr_DstPort r), CString (sr_Method r),
       CString (sr_ResponseCode r), CString (sr_CseqMethod r), CUint32 17, CString (sr_NodeID r),
       CString (sr_CID r), CString payload, CString j, ic]"
    using assms by (auto simp: siprec_values_def d Let_def ic_def split: option.splits)
  have len: "length row = 19" by (simp add: row)
  have bad: "map (\<lambda>(ct, c). fits (snd ct) c) (zip (CreateSQL schema_1_siprec) row)
      = [True, False] @ replicate 15 True @ [False, True]"
    using ic by (simp add: row schema_1_siprec_def eval_nat_numeral)
  have len2: "length (CreateSQL schema_1_siprec) = 19" by (simp add: schema_1_siprec_def)
  have at: "fits (snd (CreateSQL schema_1_siprec ! i)) (row ! i)
      = ([True, False] @ replicate 15 True @ [False, True]) ! i" if "i < 19" for i
    using arg_cong [OF bad, of "\<lambda>xs. xs ! i"] that len len2 by (simp add: nth_append)
  have "{i. i < 19 \<and> \<not> ([True, False] @ replicate 15 True @ [False, True]) ! i} = {1, 17}"
  proof -
    have "{i. i < 19 \<and> \<not> ([True, False] @ replicate 15 True @ [False, True]) ! i}
        = set (filter (\<lambda>i. \<not> ([True, False] @ replicate 15 True @ [False, True]) ! i) [0..<19])" by auto
    also have "\<dots> = {1, 17}" by (simp add: upt_conv_Cons eval_nat_numeral)
    finally show ?thesis .
  qed
  then have set: "{i. i < length row \<and> \<not> fits (snd (CreateSQL (schemaForKey key) ! i)) (row ! i)} = {1, 17}"
    using at by (auto simp: len key)
  then have "\<not> fits (snd (CreateSQL schema_1_siprec ! 1)) (row ! 1)" by (auto simp: key)
  then have "\<not> row_fits schema_1_siprec row"
    by (auto simp: row_fits_def list_all2_conv_all_nth len len2 intro!: exI [of _ 1])
  with key len len2 set show ?thesis by simp
qed

theorem siprec_row_rejected_witness:
  "\<exists>key row. siprec_values (\<lambda>_. None) ''u'' 7 (\<lambda>_. ''2026-01-01'') None
      \<lparr>sr_SessionID = '''', sr_Caller = '''', sr_Callee = '''', sr_SrcIP = '''', sr_DstIP = '''', sr_SrcPort = 5060,
       sr_DstPort = 5060, sr_Method = ''INVITE'', sr_ResponseCode = '''', sr_CseqMethod = '''', sr_CID = '''',
       sr_NodeID = '''', sr_Payload = '''', sr_Timestamp = 5\<rparr> = Returns (key, row) \<and> \<not> row_fits (schemaForKey key) row"
proof -
  let ?r = "\<lparr>sr_SessionID = '''', sr_Caller = '''', sr_Callee = '''', sr_SrcIP = '''', sr_DstIP = '''', sr_SrcPort = 5060,
       sr_DstPort = 5060, sr_Method = ''INVITE'', sr_ResponseCode = '''', sr_CseqMethod = '''', sr_CID = '''',
       sr_NodeID = '''', sr_Payload = '''', sr_Timestamp = 5\<rparr>"
  obtain key row where "siprec_values (\<lambda>_. None) ''u'' 7 (\<lambda>_. ''2026-01-01'') None ?r = Returns (key, row)"
    by (cases "DetachISUPBody (\<lambda>_. None) []") (simp add: siprec_values_def Let_def)
  with siprec_row_rejected [OF this] show ?thesis by blast
qed

end
