(* ===== verification/Net_Addr.thy ===== *)
theory Net_Addr
  imports Ip_Format
begin

text \<open>
  Reading the text of an address: \<open>netip.ParseAddr\<close> and \<open>net.ParseIP\<close> of Go's standard library, which the
  packet export and the address filters apply to the texts that the decoder has stored. The lemmas end in the
  round trip: the text of an address is read back as this address.
\<close>

subsection \<open>Dotted quads\<close>

text \<open>
  \<open>parseIPv4Fields\<close>: the fields read so far, the value and the number of digits of the current one, and whether a
  dot may not follow.
\<close>

fun parse4_loop :: "nat list \<Rightarrow> nat \<Rightarrow> nat \<Rightarrow> bool \<Rightarrow> string \<Rightarrow> nat list option" where
  "parse4_loop fields val digs start [] = (if length fields < 3 then None else Some (fields @ [val]))"
| "parse4_loop fields val digs start (c # s) =
     (if 48 \<le> byte_val c \<and> byte_val c \<le> 57 then
        (if digs = 1 \<and> val = 0 then None
         else let v = val * 10 + (byte_val c - 48) in
           if 255 < v then None else parse4_loop fields v (Suc digs) False s)
      else if c = CHR ''.'' then
        (if start \<or> s = [] then None
         else if length fields = 3 then None
         else parse4_loop (fields @ [val]) 0 0 True s)
      else None)"

definition parse4 :: "string \<Rightarrow> bytes option" where
  "parse4 s = map_option (map byte_of) (parse4_loop [] 0 0 True s)"

subsection \<open>IPv6\<close>

definition hex_digit_value :: "char \<Rightarrow> nat option" where
  "hex_digit_value c =
     (let v = byte_val c in
      if 48 \<le> v \<and> v \<le> 57 then Some (v - 48)
      else if 97 \<le> v \<and> v \<le> 102 then Some (v - 87)
      else if 65 \<le> v \<and> v \<le> 70 then Some (v - 55)
      else None)"

text \<open>A group of at most four hexadecimal digits: its value, its length and what follows.\<close>

fun read_group :: "nat \<Rightarrow> nat \<Rightarrow> string \<Rightarrow> (nat \<times> nat \<times> string) option" where
  "read_group off acc [] = Some (acc, off, [])"
| "read_group off acc (c # s) =
     (case hex_digit_value c of
        None \<Rightarrow> Some (acc, off, c # s)
      | Some d \<Rightarrow> if 3 < off then None else read_group (Suc off) (acc * 16 + d) s)"

lemma read_group_length: "read_group off acc s = Some (v, n, r) \<Longrightarrow> length r + n = length s + off"
  by (induction off acc s rule: read_group.induct) (auto split: option.splits if_splits)

text \<open>The loop of \<open>parseIPv6\<close>: the bytes so far, where \<^verbatim>\<open>::\<close> was, and the rest of the text.\<close>

function parse6_loop :: "bytes \<Rightarrow> nat option \<Rightarrow> string \<Rightarrow> (bytes \<times> nat option \<times> string) option" where
  "parse6_loop ip ellipsis s =
     (if 16 \<le> length ip then Some (ip, ellipsis, s)
      else case read_group 0 0 s of
        None \<Rightarrow> None
      | Some (acc, off, r) \<Rightarrow>
      if off = 0 then None
      else if r \<noteq> [] \<and> hd r = CHR ''.'' then
        (if ellipsis = None \<and> length ip \<noteq> 12 then None
         else if 16 < length ip + 4 then None
         else map_option (\<lambda>quad. (ip @ quad, ellipsis, [])) (parse4 s))
      else let ip1 = ip @ [byte_of (acc div 256), byte_of (acc mod 256)] in
        if r = [] then Some (ip1, ellipsis, [])
        else if hd r \<noteq> CHR '':'' \<or> tl r = [] then None
        else if hd (tl r) = CHR '':'' then
          (if ellipsis \<noteq> None then None
           else if tl (tl r) = [] then Some (ip1, Some (length ip1), [])
           else parse6_loop ip1 (Some (length ip1)) (tl (tl r)))
        else parse6_loop ip1 ellipsis (tl r))"
  by pat_completeness auto
termination
  by (relation "measure (\<lambda>(ip, e, s). length s)") (auto dest!: read_group_length simp: neq_Nil_conv)

declare parse6_loop.simps [simp del]

definition finish6 :: "bytes \<times> nat option \<times> string \<Rightarrow> bytes option" where
  "finish6 st =
     (case st of (ip, ellipsis, rest) \<Rightarrow>
      if rest \<noteq> [] then None
      else case ellipsis of
        None \<Rightarrow> if length ip < 16 then None else Some ip
      | Some e \<Rightarrow>
          if length ip < 16 then Some (take e ip @ replicate (16 - length ip) (byte_of 0) @ drop e ip) else None)"

definition parse6 :: "string \<Rightarrow> bytes option" where
  "parse6 s =
     (if prefix ''::'' s
      then (if drop 2 s = [] then Some (replicate 16 (byte_of 0))
            else Option.bind (parse6_loop [] (Some 0) (drop 2 s)) finish6)
      else Option.bind (parse6_loop [] None s) finish6)"

subsection \<open>Addresses\<close>

datatype addr = V4 bytes | V6 bytes string

definition ParseAddr :: "string \<Rightarrow> addr option" where
  "ParseAddr s =
     (case find (\<lambda>c. c = CHR ''.'' \<or> c = CHR '':'' \<or> c = CHR ''%'') s of
        None \<Rightarrow> None
      | Some c \<Rightarrow>
          if c = CHR ''.'' then map_option V4 (parse4 s)
          else if c = CHR '':'' then
            (case IndexByte s (CHR ''%'') of
               None \<Rightarrow> map_option (\<lambda>b. V6 b []) (parse6 s)
             | Some i \<Rightarrow>
                 if drop (Suc i) s = [] then None else map_option (\<lambda>b. V6 b (drop (Suc i) s)) (parse6 (take i s)))
          else None)"

definition v4_mapped :: "bytes \<Rightarrow> bytes" where
  "v4_mapped b = replicate 10 (byte_of 0) @ [byte_of 255, byte_of 255] @ b"

fun As16 :: "addr \<Rightarrow> bytes" where
  "As16 (V4 b) = v4_mapped b"
| "As16 (V6 b z) = b"

definition net_ParseIP :: "string \<Rightarrow> bytes option" where
  "net_ParseIP s =
     (case ParseAddr s of
        None \<Rightarrow> None
      | Some (V4 b) \<Rightarrow> Some (v4_mapped b)
      | Some (V6 b z) \<Rightarrow> if z = [] then Some b else None)"

subsection \<open>Dotted quads read back\<close>

lemma parse4_digits:
  assumes "n < 256" "r = [] \<or> hd r = CHR ''.''"
  shows "parse4_loop fields 0 0 start (Itoa n @ r) = parse4_loop fields n (length (Itoa n)) False r"
proof -
  have d: "48 \<le> byte_val (digit_char k) \<and> byte_val (digit_char k) \<le> 57 \<and> byte_val (digit_char k) - 48 = k" if "k < 10" for k
    using that by (simp add: byte_val_digit_char)
  consider "n < 10" | "10 \<le> n" "n < 100" | "100 \<le> n" by linarith
  then show ?thesis
  proof cases
    case 1
    then have "Itoa n = [digit_char n]" by (simp add: Itoa.simps [of n])
    with 1 d [of n] show ?thesis by (simp add: Let_def)
  next
    case 2
    then have i: "Itoa n = [digit_char (n div 10), digit_char (n mod 10)]"
      by (simp add: Itoa.simps [of n] Itoa.simps [of "n div 10"])
    have "n div 10 * 10 + n mod 10 = n" "n div 10 < 10" "0 < n div 10" using 2 by auto
    with d [of "n div 10"] d [of "n mod 10"] assms(1) show ?thesis by (simp add: i Let_def)
  next
    case 3
    have t: "n div 10 div 10 = n div 100" by (simp add: div_mult2_eq [symmetric])
    have b: "n div 100 < 10" "0 < n div 100" "n div 10 \<le> 255" using 3 assms(1) by auto
    with t have i: "Itoa n = [digit_char (n div 100), digit_char (n div 10 mod 10), digit_char (n mod 10)]"
      using 3 assms(1) by (simp add: Itoa.simps [of n] Itoa.simps [of "n div 10"] Itoa.simps [of "n div 100"])
    have q: "n div 100 * 10 + n div 10 mod 10 = n div 10"
      using t by (metis div_mult_mod_eq)
    moreover have "n div 10 * 10 + n mod 10 = n" by simp
    moreover note b
    ultimately show ?thesis
      using d [of "n div 100"] d [of "n div 10 mod 10"] d [of "n mod 10"] assms(1) by (simp add: i Let_def)
  qed
qed

lemma parse4_dots:
  assumes "length fields + length ns = 4" "ns \<noteq> []" "\<forall>n\<in>set ns. n < 256"
  shows "parse4_loop fields 0 0 start (Join (map Itoa ns) ''.'') = Some (fields @ ns)"
  using assms
proof (induction ns arbitrary: fields start)
  case (Cons n ns)
  show ?case
  proof (cases "ns = []")
    case True
    with Cons.prems parse4_digits [of n "[]" fields start] show ?thesis by simp
  next
    case False
    have j: "Join (map Itoa ns) ''.'' \<noteq> []" using False by (cases ns; cases "tl ns") auto
    have "parse4_loop fields 0 0 start (Itoa n @ CHR ''.'' # Join (map Itoa ns) ''.'') =
        parse4_loop (fields @ [n]) 0 0 True (Join (map Itoa ns) ''.'')"
      using Cons.prems False j parse4_digits [of n "CHR ''.'' # Join (map Itoa ns) ''.''" fields start] by (cases ns) auto
    also have "\<dots> = Some ((fields @ [n]) @ ns)" using Cons.prems False by (intro Cons.IH) auto
    finally show ?thesis using False by (simp add: Join_Cons)
  qed
qed simp

lemma parse4_text:
  assumes "length b = 4"
  shows "parse4 (ipv4BytesToString b) = Some b"
proof -
  have "b \<noteq> []" using assms by auto
  then have "ipv4BytesToString b = Join (map Itoa (map of_char b)) ''.''"
    using assms by (simp add: ipv4BytesToString_def ipv4_loop_Join comp_def)
  moreover have "parse4_loop [] 0 0 True (Join (map Itoa (map of_char b)) ''.'') = Some ([] @ map of_char b)"
    using assms \<open>b \<noteq> []\<close> by (intro parse4_dots) auto
  ultimately show ?thesis by (simp add: parse4_def comp_def)
qed

lemma find_first: "\<forall>x\<in>set xs. \<not> p x \<Longrightarrow> p c \<Longrightarrow> find p (xs @ c # r) = Some c"
  by (induction xs) auto

lemma ParseAddr_v4:
  assumes "length b = 4"
  shows "ParseAddr (ipv4BytesToString b) = Some (V4 b)"
proof -
  obtain x xs where xs: "b = x # xs" "xs \<noteq> []" using assms by (cases b; cases "tl b") auto
  have "ipv4BytesToString b = Itoa (byte_val x) @ CHR ''.'' # Join (map (\<lambda>c. Itoa (byte_val c)) xs) ''.''"
    using assms xs by (simp add: ipv4BytesToString_def ipv4_loop_Join Join_Cons del: ipv4_loop.simps)
  moreover have "\<forall>c\<in>set (Itoa n). \<not> (c = CHR ''.'' \<or> c = CHR '':'' \<or> c = CHR ''%'')" for n
    using Itoa_digits by fastforce
  ultimately have "find (\<lambda>c. c = CHR ''.'' \<or> c = CHR '':'' \<or> c = CHR ''%'') (ipv4BytesToString b) = Some (CHR ''.'')"
    by (simp add: find_first)
  then show ?thesis by (simp add: ParseAddr_def parse4_text assms)
qed

subsection \<open>Groups of an IPv6 address read back\<close>

lemma hex_digit_value_lower: "k < 16 \<Longrightarrow> hex_digit_value (hex_lower k) = Some k"
  by (simp add: hex_digit_value_def hex_lower_def Let_def of_char_of)

lemma read_group_stop: "r = [] \<or> hd r = CHR '':'' \<Longrightarrow> read_group off acc r = Some (acc, off, r)"
  by (cases r) (auto simp: hex_digit_value_def)

lemma read_group_text:
  assumes "x < 65536" "r = [] \<or> hd r = CHR '':''"
  shows "read_group 0 0 (appendHex x @ r) = Some (x, length (appendHex x), r)"
proof -
  note stop = read_group_stop [OF assms(2)] hex_digit_value_lower
  consider "x < 16" | "16 \<le> x" "x < 256" | "256 \<le> x" "x < 4096" | "4096 \<le> x" by linarith
  then show ?thesis
  proof cases
    case 1
    then show ?thesis by (simp add: appendHex_def stop)
  next
    case 2
    then have "x div 16 < 16" by auto
    with 2 show ?thesis by (simp add: appendHex_def stop)
  next
    case 3
    then have "x div 256 < 16" by auto
    moreover have "x div 256 = x div 16 div 16" by (simp add: div_mult2_eq [symmetric])
    ultimately show ?thesis using 3 by (simp add: appendHex_def stop)
  next
    case 4
    then have "x div 4096 < 16" using assms(1) by auto
    moreover have "x div 4096 = x div 256 div 16" "x div 256 = x div 16 div 16"
      by (simp_all add: div_mult2_eq [symmetric])
    ultimately show ?thesis using 4 by (simp add: appendHex_def stop)
  qed
qed

lemma appendHex_chars: "x < 65536 \<Longrightarrow> c \<in> set (appendHex x) \<Longrightarrow> hex_digit_value c \<noteq> None"
  by (auto simp: appendHex_def hex_digit_value_lower split: if_splits)

lemma appendHex_not_Nil [simp]: "appendHex x \<noteq> []"
  by (simp add: appendHex_def)

abbreviation group_pair :: "nat \<Rightarrow> bytes" where
  "group_pair n \<equiv> [byte_of (n div 256), byte_of (n mod 256)]"

text \<open>
  A way to write the groups that \<open>read_group\<close> reads back. Two are in the code: \<open>appendHex\<close>, which drops the leading
  zeros, and the four digits of \<^verbatim>\<open>%02x%02x\<close>.
\<close>

locale group_printer =
  fixes group :: "nat \<Rightarrow> string"
  assumes group_reads:
      "n < 65536 \<Longrightarrow> r = [] \<or> hd r = CHR '':'' \<Longrightarrow> read_group 0 0 (group n @ r) = Some (n, length (group n), r)"
    and group_digits: "n < 65536 \<Longrightarrow> group n \<noteq> [] \<and> (\<forall>c\<in>set (group n). hex_digit_value c \<noteq> None)"
begin

abbreviation text_of :: "nat list \<Rightarrow> string" where
  "text_of ns \<equiv> Join (map group ns) '':''"

lemma parse6_last:
  "length ip < 16 \<Longrightarrow> n < 65536 \<Longrightarrow>
   parse6_loop ip e (group n) = Some (ip @ group_pair n, e, [])"
  using group_reads [of n "[]"] group_digits [of n] by (simp add: parse6_loop.simps Let_def)

lemma parse6_next:
  "length ip < 16 \<Longrightarrow> n < 65536 \<Longrightarrow> s \<noteq> [] \<Longrightarrow> hd s \<noteq> CHR '':'' \<Longrightarrow>
   parse6_loop ip e (group n @ CHR '':'' # s) = parse6_loop (ip @ group_pair n) e s"
  using group_reads [of n "CHR '':'' # s"] group_digits [of n] by (simp add: parse6_loop.simps [of ip] Let_def)

lemma parse6_ellipsis:
  "length ip < 16 \<Longrightarrow> n < 65536 \<Longrightarrow>
   parse6_loop ip None (group n @ CHR '':'' # CHR '':'' # s) =
     (if s = [] then Some (ip @ group_pair n, Some (length ip + 2), [])
      else parse6_loop (ip @ group_pair n) (Some (length ip + 2)) s)"
  using group_reads [of n "CHR '':'' # CHR '':'' # s"] group_digits [of n]
  by (simp add: parse6_loop.simps [of ip] Let_def)

lemma hd_group: "n < 65536 \<Longrightarrow> hd (group n @ r) \<noteq> CHR '':''"
proof -
  assume "n < 65536"
  then have "group n \<noteq> []" "hex_digit_value (hd (group n)) \<noteq> None" using group_digits by simp_all
  then show ?thesis by (auto simp: hex_digit_value_def)
qed

lemma text_hd: "ns \<noteq> [] \<Longrightarrow> \<forall>n\<in>set ns. n < 65536 \<Longrightarrow> text_of ns \<noteq> [] \<and> hd (text_of ns @ r) \<noteq> CHR '':''"
  using group_digits hd_group hd_group [of _ "[]"]
  by (cases ns; cases "tl ns") (auto simp: hd_append Join_Cons)

lemma text_chars: "\<forall>n\<in>set ns. n < 65536 \<Longrightarrow> c \<in> set (text_of ns) \<Longrightarrow> c = CHR '':'' \<or> hex_digit_value c \<noteq> None"
proof (induction ns)
  case (Cons n ns)
  then show ?case using group_digits [of n] by (cases "ns = []") (auto simp: Join_Cons)
qed simp

lemma parse6_text:
  assumes "ns \<noteq> []" "\<forall>n\<in>set ns. n < 65536" "length ip + 2 * length ns \<le> 16"
  shows "parse6_loop ip e (text_of ns) = Some (ip @ concat (map group_pair ns), e, [])"
  using assms
proof (induction ns arbitrary: ip)
  case (Cons n ns)
  show ?case
  proof (cases "ns = []")
    case True
    with Cons.prems show ?thesis by (simp add: parse6_last)
  next
    case False
    with Cons.prems text_hd [of ns "[]"] show ?thesis by (simp add: Join_Cons parse6_next Cons.IH)
  qed
qed simp

lemma parse6_text_ellipsis:
  assumes "ns \<noteq> []" "\<forall>n\<in>set ns. n < 65536" "length ip + 2 * length ns \<le> 16"
  shows "parse6_loop ip None (text_of ns @ ''::'' @ s) =
      (let ip1 = ip @ concat (map group_pair ns)
       in if s = [] then Some (ip1, Some (length ip1), []) else parse6_loop ip1 (Some (length ip1)) s)"
  using assms
proof (induction ns arbitrary: ip)
  case (Cons n ns)
  show ?case
  proof (cases "ns = []")
    case True
    with Cons.prems show ?thesis by (simp add: parse6_ellipsis Let_def)
  next
    case False
    from False Cons.prems have "length ip < 16" "n < 65536" by (auto simp: neq_Nil_conv)
    then have "parse6_loop ip None (text_of (n # ns) @ ''::'' @ s) =
        parse6_loop (ip @ group_pair n) None (text_of ns @ ''::'' @ s)"
      using False Cons.prems text_hd [of ns "[]"]
        parse6_next [of ip n "text_of ns @ ''::'' @ s" None] by (simp add: Join_Cons)
    also have "\<dots> = (let ip1 = (ip @ group_pair n) @ concat (map group_pair ns)
       in if s = [] then Some (ip1, Some (length ip1), []) else parse6_loop ip1 (Some (length ip1)) s)"
      using False Cons.prems by (intro Cons.IH) auto
    finally show ?thesis by simp
  qed
qed simp

lemma no_ellipsis_first: "ns \<noteq> [] \<Longrightarrow> \<forall>n\<in>set ns. n < 65536 \<Longrightarrow> \<not> prefix ''::'' (text_of ns @ r)"
  using text_hd [of ns r] by (auto simp: prefix_def)

end

interpretation short: group_printer appendHex
  by unfold_locales (auto simp: read_group_text dest: appendHex_chars)

abbreviation groups_text :: "nat list \<Rightarrow> string" where
  "groups_text ns \<equiv> Join (map appendHex ns) '':''"

subsection \<open>The text of an IPv6 address read back\<close>

lemma zero_run_end_zero:
  "i \<le> 8 \<Longrightarrow> i \<le> zero_run_end b i \<and> zero_run_end b i \<le> 8 \<and> (\<forall>j. i \<le> j \<and> j < zero_run_end b i \<longrightarrow> v6u16 b j = 0)"
  by (auto simp: zero_run_end_def for_find_None for_find_Some split: option.splits)

definition zero_run :: "bytes \<Rightarrow> nat \<times> nat \<Rightarrow> bool" where
  "zero_run b z \<longleftrightarrow> z = (255, 255) \<or>
     fst z + 2 \<le> snd z \<and> snd z \<le> 8 \<and> (\<forall>j. fst z \<le> j \<and> j < snd z \<longrightarrow> v6u16 b j = 0)"

lemma longest_zero_run_ok:
  "\<forall>i\<in>set is. i \<le> 8 \<Longrightarrow> zero_run b z \<Longrightarrow> zero_run b (longest_zero_run b is z)"
proof (induction b "is" z rule: longest_zero_run.induct)
  case (2 b i "is" zs ze)
  let ?z = "if 2 \<le> zero_run_end b i - i \<and> ze - zs < zero_run_end b i - i then (i, zero_run_end b i) else (zs, ze)"
  have "zero_run b ?z" using 2(2,3) zero_run_end_zero [of i b] by (auto simp: zero_run_def)
  with 2(1) [OF refl refl] 2(2) show ?case by (simp add: Let_def)
qed simp

abbreviation groups :: "bytes \<Rightarrow> nat list" where
  "groups b \<equiv> map (v6u16 b) [0..<8]"

abbreviation colon_groups :: "nat list \<Rightarrow> string" where
  "colon_groups ns \<equiv> concat (map (\<lambda>n. CHR '':'' # appendHex n) ns)"

lemma groups_text_Cons: "groups_text (n # ns) = appendHex n @ colon_groups ns"
  by (induction ns arbitrary: n) (simp_all add: Join_Cons)

lemma appendTo6_tail:
  assumes "i \<le> 8" "0 < i" "zs < i \<or> ze \<le> zs \<or> 8 \<le> zs"
  shows "appendTo6_loop b zs ze i = colon_groups (map (v6u16 b) [i..<8])"
  using assms
proof (induction "8 - i" arbitrary: i)
  case 0
  then show ?case by (simp add: appendTo6_loop.simps)
next
  case (Suc k)
  then have "i < 8" by simp
  with Suc show ?case by (subst appendTo6_loop.simps) (auto simp: upt_conv_Cons)
qed

lemma appendTo6_groups:
  assumes "8 \<le> zs"
  shows "appendTo6_loop b zs ze 0 = groups_text (groups b)"
proof -
  have "appendTo6_loop b zs ze 0 = appendHex (v6u16 b 0) @ colon_groups (map (v6u16 b) [1..<8])"
    using assms appendTo6_tail [of 1 zs ze b] by (subst appendTo6_loop.simps) simp
  also have "\<dots> = groups_text (v6u16 b 0 # map (v6u16 b) [1..<8])" by (rule groups_text_Cons [symmetric])
  finally show ?thesis by (simp add: upt_conv_Cons)
qed

lemma appendTo6_at_run:
  assumes "zs < ze" "ze \<le> 8"
  shows "appendTo6_loop b zs ze zs = ''::'' @ groups_text (map (v6u16 b) [ze..<8])"
proof (cases "ze = 8")
  case True
  with assms show ?thesis by (simp add: appendTo6_loop.simps [of b zs])
next
  case False
  with assms have "appendTo6_loop b zs ze zs = ''::'' @ appendHex (v6u16 b ze) @ colon_groups (map (v6u16 b) [Suc ze..<8])"
    using appendTo6_tail [of "Suc ze" zs ze b] by (simp add: appendTo6_loop.simps [of b zs])
  also have "\<dots> = ''::'' @ groups_text (v6u16 b ze # map (v6u16 b) [Suc ze..<8])" by (simp only: groups_text_Cons)
  finally show ?thesis using False assms by (simp add: upt_conv_Cons)
qed

lemma appendTo6_before:
  assumes "i \<le> zs" "zs < ze" "ze \<le> 8" "0 < i"
  shows "appendTo6_loop b zs ze i = colon_groups (map (v6u16 b) [i..<zs]) @ appendTo6_loop b zs ze zs"
  using assms
proof (induction "zs - i" arbitrary: i)
  case (Suc k)
  from Suc.prems Suc.hyps(2) have "i < zs" by simp
  with Suc.prems have "appendTo6_loop b zs ze i = CHR '':'' # appendHex (v6u16 b i) @ appendTo6_loop b zs ze (Suc i)"
    by (subst appendTo6_loop.simps) auto
  also have "appendTo6_loop b zs ze (Suc i) =
      colon_groups (map (v6u16 b) [Suc i..<zs]) @ appendTo6_loop b zs ze zs"
    using Suc.prems Suc.hyps(2) by (intro Suc.hyps(1)) auto
  finally show ?case using \<open>i < zs\<close> by (simp add: upt_conv_Cons)
qed simp

lemma appendTo6_run:
  assumes "zs < ze" "ze \<le> 8"
  shows "appendTo6_loop b zs ze 0 =
      groups_text (map (v6u16 b) [0..<zs]) @ ''::'' @ groups_text (map (v6u16 b) [ze..<8])"
proof (cases zs)
  case 0
  with assms appendTo6_at_run [of zs ze b] show ?thesis by simp
next
  case (Suc k)
  with assms have "appendTo6_loop b zs ze 0 = appendHex (v6u16 b 0) @ appendTo6_loop b zs ze 1"
    by (subst appendTo6_loop.simps) auto
  also have "\<dots> = groups_text (v6u16 b 0 # map (v6u16 b) [1..<zs]) @ ''::'' @ groups_text (map (v6u16 b) [ze..<8])"
    unfolding groups_text_Cons using Suc assms by (subst appendTo6_before) (auto simp: appendTo6_at_run)
  also have "v6u16 b 0 # map (v6u16 b) [1..<zs] = map (v6u16 b) [0..<zs]"
    using Suc upt_conv_Cons [of 0 zs] by (simp del: upt_Suc)
  finally show ?thesis .
qed

lemma v6u16_less: "v6u16 b i < 65536"
  using byte_val_less [of "b ! (2 * i)"] byte_val_less [of "b ! (2 * i + 1)"] unfolding v6u16_def by linarith

lemma group_pair_v6u16: "group_pair (v6u16 b i) = [b ! (2 * i), b ! (2 * i + 1)]"
proof -
  have "v6u16 b i div 256 = byte_val (b ! (2 * i))" "v6u16 b i mod 256 = byte_val (b ! (2 * i + 1))"
    using byte_val_less [of "b ! (2 * i + 1)"] by (simp_all add: v6u16_def)
  then show ?thesis by (simp del: of_char_mod_256)
qed

lemma concat_pairs:
  "2 * k \<le> length b \<Longrightarrow> i \<le> k \<Longrightarrow>
   concat (map group_pair (map (v6u16 b) [i..<k])) = take (2 * k - 2 * i) (drop (2 * i) b)"
proof (induction k)
  case (Suc k)
  show ?case
  proof (cases "i = Suc k")
    case False
    with Suc have "concat (map group_pair (map (v6u16 b) [i..<Suc k])) =
        take (2 * k - 2 * i) (drop (2 * i) b) @ [b ! (2 * k), b ! (2 * k + 1)]"
      using group_pair_v6u16 [of b k] by simp
    also have "\<dots> = take (Suc (Suc (2 * k - 2 * i))) (drop (2 * i) b)"
      using Suc.prems False by (simp add: take_Suc_conv_app_nth)
    also have "Suc (Suc (2 * k - 2 * i)) = 2 * Suc k - 2 * i" using Suc.prems False by simp
    finally show ?thesis .
  qed simp
qed simp

lemma groups_less: "\<forall>n\<in>set (map (v6u16 b) xs). n < 65536"
  by (auto simp: v6u16_less)

lemma parse6_groups_text:
  assumes "length b = 16"
  shows "parse6 (groups_text (groups b)) = Some b"
proof -
  have c: "concat (map group_pair (groups b)) = b" using concat_pairs [of 8 b 0] assms by simp
  have "parse6_loop [] None (groups_text (groups b)) = Some ([] @ concat (map group_pair (groups b)), None, [])"
    by (intro short.parse6_text groups_less) simp_all
  moreover have "\<not> prefix ''::'' (groups_text (groups b) @ [])"
    by (intro short.no_ellipsis_first groups_less) simp
  ultimately show ?thesis unfolding parse6_def c using assms by (simp add: finish6_def)
qed

lemma zero_bytes:
  assumes "length b = 16" "zs \<le> ze" "ze \<le> 8" "\<forall>j. zs \<le> j \<and> j < ze \<longrightarrow> v6u16 b j = 0"
  shows "b = take (2 * zs) b @ replicate (2 * (ze - zs)) (byte_of 0) @ drop (2 * ze) b"
proof -
  have "concat (map group_pair (map (v6u16 b) [zs..<ze])) = replicate (2 * (ze - zs)) (byte_of 0)"
    using assms(2,4)
  proof (induction "ze - zs" arbitrary: ze)
    case (Suc k)
    then obtain e where e: "ze = Suc e" "k = e - zs" "zs \<le> e" by (cases ze) auto
    then have "concat (map group_pair (map (v6u16 b) [zs..<e])) = replicate (2 * (e - zs)) (byte_of 0)"
      using Suc.prems by (intro Suc.hyps(1)) auto
    with Suc.prems e show ?case by (simp add: Suc_diff_le replicate_append_same [symmetric])
  qed simp
  then have "take (2 * ze - 2 * zs) (drop (2 * zs) b) = replicate (2 * (ze - zs)) (byte_of 0)"
    using concat_pairs [of ze b zs] assms by simp
  moreover have "b = take (2 * zs) b @ take (2 * ze - 2 * zs) (drop (2 * zs) b) @ drop (2 * ze) b"
    using assms(2) by (metis append_take_drop_id drop_drop le_add_diff_inverse2 mult_le_mono2)
  ultimately show ?thesis by simp
qed

lemma parse6_run_text:
  assumes b: "length b = 16" and z: "zs + 2 \<le> ze" "ze \<le> 8" "\<forall>j. zs \<le> j \<and> j < ze \<longrightarrow> v6u16 b j = 0"
  shows "parse6 (groups_text (map (v6u16 b) [0..<zs]) @ ''::'' @ groups_text (map (v6u16 b) [ze..<8])) = Some b"
proof -
  let ?l = "map (v6u16 b) [0..<zs]" and ?r = "map (v6u16 b) [ze..<8]"
  have l: "concat (map group_pair ?l) = take (2 * zs) b" using concat_pairs [of zs b 0] assms by simp
  have r: "concat (map group_pair ?r) = drop (2 * ze) b" using concat_pairs [of 8 b ze] assms by simp
  have rest: "(if groups_text ?r = [] then Some (take (2 * zs) b, Some (2 * zs), [])
      else parse6_loop (take (2 * zs) b) (Some (2 * zs)) (groups_text ?r)) =
      Some (take (2 * zs) b @ drop (2 * ze) b, Some (2 * zs), [])"
  proof (cases "ze = 8")
    case True
    with b show ?thesis by simp
  next
    case False
    then have ne: "?r \<noteq> []" using z by simp
    then have "parse6_loop (take (2 * zs) b) (Some (2 * zs)) (groups_text ?r) =
        Some (take (2 * zs) b @ concat (map group_pair ?r), Some (2 * zs), [])"
      using b z by (intro short.parse6_text groups_less) auto
    with short.text_hd [OF ne groups_less, of "[]"] show ?thesis unfolding r by simp
  qed
  have fin: "finish6 (take (2 * zs) b @ drop (2 * ze) b, Some (2 * zs), []) = Some b"
    using zero_bytes [OF b _ z(2,3)] b z(1,2) by (simp add: finish6_def algebra_simps)
  show ?thesis
  proof (cases "zs = 0")
    case True
    with rest fin z show ?thesis by (auto simp: parse6_def finish6_def split: if_splits)
  next
    case False
    then have ne: "?l \<noteq> []" by simp
    have "parse6_loop [] None (groups_text ?l @ ''::'' @ groups_text ?r) =
        Some (take (2 * zs) b @ drop (2 * ze) b, Some (2 * zs), [])"
      unfolding rest [symmetric] using short.parse6_text_ellipsis [OF ne groups_less, of "[]" "groups_text ?r"] b z
      unfolding l by (simp add: Let_def cong: if_cong)
    with short.no_ellipsis_first [OF ne groups_less] fin show ?thesis by (simp add: parse6_def)
  qed
qed

theorem parse6_appendTo6:
  assumes "length b = 16"
  shows "parse6 (appendTo6 b) = Some b"
proof -
  obtain zs ze where z: "longest_zero_run b [0..<8] (255, 255) = (zs, ze)" by force
  have "zero_run b (zs, ze)"
    using longest_zero_run_ok [of "[0..<8]" b "(255, 255)"] z by (auto simp: zero_run_def)
  then show ?thesis
  proof (cases "zs = 255")
    case True
    then show ?thesis using parse6_groups_text [OF assms] by (simp add: appendTo6_def z appendTo6_groups)
  next
    case False
    with \<open>zero_run b (zs, ze)\<close> have "zs + 2 \<le> ze" "ze \<le> 8" "\<forall>j. zs \<le> j \<and> j < ze \<longrightarrow> v6u16 b j = 0"
      by (auto simp: zero_run_def)
    with parse6_run_text [OF assms this] show ?thesis by (simp add: appendTo6_def z appendTo6_run)
  qed
qed

subsection \<open>The text of an address read back\<close>

lemma find_only:
  assumes "c \<in> set s" "p c" "\<forall>x\<in>set s. p x \<longrightarrow> x = c"
  shows "find p s = Some c"
proof (cases "find p s")
  case None
  with assms(1,2) show ?thesis unfolding find_None_iff by blast
next
  case (Some x)
  then have "x \<in> set s" "p x" unfolding find_Some_iff by auto
  with assms(3) have "x = c" by blast
  with Some show ?thesis by simp
qed

lemma ParseAddr_hex_colon:
  assumes "\<forall>c\<in>set s. c = CHR '':'' \<or> hex_digit_value c \<noteq> None" "CHR '':'' \<in> set s"
  shows "ParseAddr s = map_option (\<lambda>b. V6 b []) (parse6 s)"
proof -
  have "hex_digit_value (CHR ''.'') = None" "hex_digit_value (CHR ''%'') = None" by (simp_all add: hex_digit_value_def)
  with assms(1) have no: "\<forall>x\<in>set s. x \<noteq> CHR ''.'' \<and> x \<noteq> CHR ''%''" by fastforce
  then have "find (\<lambda>c. c = CHR ''.'' \<or> c = CHR '':'' \<or> c = CHR ''%'') s = Some (CHR '':'')"
    using assms(2) by (intro find_only) auto
  moreover have "IndexByte s (CHR ''%'') = None" using no by auto
  ultimately show ?thesis by (simp add: ParseAddr_def)
qed

lemma appendTo6_chars:
  assumes "length b = 16"
  shows "\<forall>c\<in>set (appendTo6 b). c = CHR '':'' \<or> hex_digit_value c \<noteq> None" "CHR '':'' \<in> set (appendTo6 b)"
proof -
  obtain zs ze where z: "longest_zero_run b [0..<8] (255, 255) = (zs, ze)" by force
  have "zero_run b (zs, ze)"
    using longest_zero_run_ok [of "[0..<8]" b "(255, 255)"] z by (auto simp: zero_run_def)
  then consider "zs = 255" | "zs < ze" "ze \<le> 8" by (fastforce simp: zero_run_def)
  then have "(\<forall>c\<in>set (appendTo6 b). c = CHR '':'' \<or> hex_digit_value c \<noteq> None) \<and> CHR '':'' \<in> set (appendTo6 b)"
  proof cases
    case 1
    then have t: "appendTo6 b = groups_text (groups b)" by (simp add: appendTo6_def z appendTo6_groups)
    have "CHR '':'' \<in> set (groups_text (groups b))" by (simp add: upt_conv_Cons)
    with short.text_chars [OF groups_less] show ?thesis unfolding t by blast
  next
    case 2
    then show ?thesis using short.text_chars [OF groups_less] by (fastforce simp: appendTo6_def z appendTo6_run simp del: map_map)
  qed
  then show "\<forall>c\<in>set (appendTo6 b). c = CHR '':'' \<or> hex_digit_value c \<noteq> None" "CHR '':'' \<in> set (appendTo6 b)" by simp_all
qed

lemma ParseAddr_v6:
  "length b = 16 \<Longrightarrow> ParseAddr (appendTo6 b) = Some (V6 b [])"
  by (simp add: ParseAddr_hex_colon [OF appendTo6_chars] parse6_appendTo6)

lemma Is4In6_mapped: "length b = 16 \<Longrightarrow> Is4In6 b \<Longrightarrow> v4_mapped (drop 12 b) = b"
  unfolding Is4In6_def v4_mapped_def by (metis append.assoc append_take_drop_id)

text \<open>Whatever address the decoder stored, its text is read back as this address.\<close>

lemma ParseIP_v4: "length b = 4 \<Longrightarrow> net_ParseIP (ipv4BytesToString b) = Some (v4_mapped b)"
  by (simp add: net_ParseIP_def ParseAddr_v4)

theorem ParseIP_v6:
  assumes "length b = 16"
  shows "net_ParseIP (ipv6BytesToString b) = Some b"
proof (cases "Is4In6 b")
  case True
  have "net_ParseIP (ipv4BytesToString (drop 12 b)) = Some (v4_mapped (drop 12 b))"
    by (rule ParseIP_v4) (simp add: assms)
  then show ?thesis using True assms by (simp only: ipv6BytesToString_def Is4In6_mapped) simp
next
  case False
  with assms ParseAddr_v6 [OF assms] show ?thesis by (simp add: ipv6BytesToString_def net_ParseIP_def)
qed

subsection \<open>Only sixteen bytes are an address\<close>

lemma parse4_loop_length:
  "parse4_loop fields v d st s = Some ns \<Longrightarrow> length fields \<le> 3 \<Longrightarrow> length ns = 4"
  by (induction fields v d st s rule: parse4_loop.induct) (auto simp: Let_def split: if_splits)

lemma parse4_length: "parse4 s = Some b \<Longrightarrow> length b = 4"
  using parse4_loop_length [of "[]" 0 0 True s] by (auto simp: parse4_def)

lemma parse6_loop_length:
  assumes "parse6_loop ip e s = Some (ip', e', r)" "even (length ip)" "length ip \<le> 16" "\<forall>x. e = Some x \<longrightarrow> x \<le> length ip"
  shows "length ip' \<le> 16 \<and> (\<forall>x. e' = Some x \<longrightarrow> x \<le> length ip')"
  using assms
proof (induction "length s" arbitrary: ip e s rule: less_induct)
  case less
  show ?case
  proof (cases "16 \<le> length ip")
    case True
    with less show ?thesis by (simp add: parse6_loop.simps [of ip])
  next
    case False
    with less.prems(2) have small: "length ip + 2 \<le> 16" by (auto elim!: evenE)
    from False less.prems(1) obtain acc off t where g: "read_group 0 0 s = Some (acc, off, t)" "off \<noteq> 0"
      by (auto simp: parse6_loop.simps [of ip] split: option.splits if_splits)
    then have t: "length t < length s" using read_group_length by fastforce
    have later: "length ip' \<le> 16 \<and> (\<forall>x. e' = Some x \<longrightarrow> x \<le> length ip')"
      if "parse6_loop (ip @ group_pair acc) e0 s0 = Some (ip', e', r)" "length s0 \<le> length t"
        "\<forall>x. e0 = Some x \<longrightarrow> x \<le> length ip + 2" for e0 s0
      using less.hyps [OF _ that(1)] that(2,3) t less.prems(2) small by simp
    have "length (tl (tl t)) \<le> length t" "length (tl t) \<le> length t" by simp_all
    note shorter = this
    moreover have "\<forall>x. e = Some x \<longrightarrow> x \<le> length ip + 2" using less.prems(4) by fastforce
    ultimately have next_group: "parse6_loop (ip @ group_pair acc) e (tl t) = Some (ip', e', r) \<Longrightarrow> ?thesis"
      using later [of e "tl t"] by blast
    note ellipsis = later [OF _ shorter(1), of "Some (length (ip @ group_pair acc))"]
    from less.prems False g small show ?thesis
      by (subst (asm) parse6_loop.simps)
        (use next_group ellipsis in \<open>auto simp: Let_def simp del: char_of_mod_256 dest!: parse4_length split: if_splits\<close>)
  qed
qed

lemma parse6_length: "parse6 s = Some b \<Longrightarrow> length b = 16"
  using parse6_loop_length [of "[]" None s] parse6_loop_length [of "[]" "Some 0" "drop 2 s"]
  by (fastforce simp: parse6_def finish6_def split: if_splits option.splits bind_splits)

lemma ParseAddr_length:
  "ParseAddr s = Some (V6 b z) \<Longrightarrow> length b = 16"
  "ParseAddr s = Some (V4 b) \<Longrightarrow> length b = 4"
  by (auto simp: ParseAddr_def dest: parse6_length parse4_length split: option.splits if_splits)

end
