(* ===== verification/Ip_Filter.thy ===== *)
theory Ip_Filter
  imports Sql_Safety Net_Addr
begin

text \<open>
  src/coordinator/sqlvalidator/ipfilter.go: the condition on an address column. Lakes hold IPv6 addresses in two
  forms, RFC 5952 and fully expanded; a filter typed in any form has to find both, and nothing else, and no part of
  the typed text may be read as SQL.
\<close>

subsection \<open>The clauses\<close>

text \<open>The UTF-8 encoding of a text, the form in which \<open>netip.ParseAddr\<close> reads the filter.\<close>

definition utf8_rune :: "nat \<Rightarrow> bytes" where
  "utf8_rune r =
     map byte_of
       (if r < 0x80 then [r]
        else if r < 0x800 then [0xC0 + r div 64, 0x80 + r mod 64]
        else if r < 0x10000 then [0xE0 + r div 4096, 0x80 + r div 64 mod 64, 0x80 + r mod 64]
        else [0xF0 + r div 262144, 0x80 + r div 4096 mod 64, 0x80 + r div 64 mod 64, 0x80 + r mod 64])"

definition utf8_text :: "runes \<Rightarrow> bytes" where
  "utf8_text s = concat (map utf8_rune s)"

text \<open>\<^verbatim>\<open>%02x%02x\<close> of \<open>b[i]\<close> and \<open>b[i+1]\<close>, with a colon before every pair but the first.\<close>

definition hex_byte :: "char \<Rightarrow> string" where
  "hex_byte c = [hex_lower (byte_val c div 16), hex_lower (byte_val c mod 16)]"

definition expanded_text :: "bytes \<Rightarrow> string" where
  "expanded_text b =
     concat (map (\<lambda>i. (if 0 < i then '':'' else []) @ hex_byte (b ! (2 * i)) @ hex_byte (b ! (2 * i + 1))) [0..<8])"

definition quoted_text :: "string \<Rightarrow> runes" where
  "quoted_text s = 39 # asc s @ [39]"

definition ipLiterals :: "runes \<Rightarrow> runes list" where
  "ipLiterals v =
     (case ParseAddr (utf8_text (text_trim v)) of
        Some (V6 b zone) \<Rightarrow> [quoted_text (ipv6BytesToString b), quoted_text (expanded_text b)]
      | _ \<Rightarrow> [quoted_value v])"

fun join_runes :: "runes list \<Rightarrow> runes \<Rightarrow> runes" where
  "join_runes [] sep = []"
| "join_runes [x] sep = x"
| "join_runes (x # y # ys) sep = x @ sep @ join_runes (y # ys) sep"

definition IPEqualsClause :: "runes \<Rightarrow> runes \<Rightarrow> runes" where
  "IPEqualsClause column v =
     (let lits = ipLiterals v in
      if length lits = 1 then column @ asc '' = '' @ lits ! 0
      else column @ asc '' IN ('' @ join_runes lits (asc '', '') @ asc '')'')"

definition IPNotEqualsClause :: "runes \<Rightarrow> runes \<Rightarrow> runes" where
  "IPNotEqualsClause column v =
     (let lits = ipLiterals v in
      if length lits = 1 then column @ asc '' != '' @ lits ! 0
      else column @ asc '' NOT IN ('' @ join_runes lits (asc '', '') @ asc '')'')"

subsection \<open>The expanded form is read back\<close>

definition hex_group :: "nat \<Rightarrow> string" where
  "hex_group n = [hex_lower (n div 4096), hex_lower (n div 256 mod 16), hex_lower (n div 16 mod 16), hex_lower (n mod 16)]"

interpretation full: group_printer hex_group
proof
  fix n :: nat and r
  assume n: "n < 65536" "r = [] \<or> hd r = CHR '':''"
  have "n div 4096 < 16" "n div 4096 = n div 256 div 16" "n div 256 = n div 16 div 16"
    using n(1) by (auto simp: div_mult2_eq [symmetric])
  then show "read_group 0 0 (hex_group n @ r) = Some (n, length (hex_group n), r)"
    by (simp add: hex_group_def hex_digit_value_lower read_group_stop [OF n(2)])
next
  fix n :: nat
  assume "n < 65536"
  then have "n div 4096 < 16" by auto
  then show "hex_group n \<noteq> [] \<and> (\<forall>c\<in>set (hex_group n). hex_digit_value c \<noteq> None)"
    by (simp add: hex_group_def hex_digit_value_lower)
qed

lemma hex_pair: "hex_byte (b ! (2 * i)) @ hex_byte (b ! (2 * i + 1)) = hex_group (v6u16 b i)"
proof -
  let ?x = "byte_val (b ! (2 * i))" and ?y = "byte_val (b ! (2 * i + 1))"
  have v: "v6u16 b i = ?x * 256 + ?y" by (simp add: v6u16_def)
  have "v6u16 b i div 256 = ?x" unfolding v by (simp del: One_nat_def)
  moreover have "v6u16 b i div 4096 = v6u16 b i div 256 div 16" by (simp add: div_mult2_eq [symmetric])
  moreover have low: "v6u16 b i mod 256 = ?y" unfolding v by (simp del: One_nat_def)
  have "v6u16 b i mod (16 * 16) = 16 * (v6u16 b i div 16 mod 16) + v6u16 b i mod 16" by (rule mod_mult2_eq)
  with low have "v6u16 b i div 16 mod 16 = ?y div 16" "v6u16 b i mod 16 = ?y mod 16" by simp_all
  ultimately have "v6u16 b i div 4096 = ?x div 16" "v6u16 b i div 256 mod 16 = ?x mod 16"
    "v6u16 b i div 16 mod 16 = ?y div 16" "v6u16 b i mod 16 = ?y mod 16" by simp_all
  then show ?thesis by (simp add: hex_byte_def hex_group_def)
qed

lemma expanded_text_groups: "expanded_text b = Join (map hex_group (groups b)) '':''"
  unfolding expanded_text_def hex_pair by (simp add: upt_conv_Cons)

lemma ParseAddr_expanded:
  assumes "length b = 16"
  shows "ParseAddr (expanded_text b) = Some (V6 b [])"
proof -
  have c: "concat (map group_pair (groups b)) = b" using concat_pairs [of 8 b 0] assms by simp
  have "parse6_loop [] None (expanded_text b) = Some ([] @ concat (map group_pair (groups b)), None, [])"
    unfolding expanded_text_groups by (intro full.parse6_text groups_less) simp_all
  moreover have "\<not> prefix ''::'' (expanded_text b @ [])"
    unfolding expanded_text_groups by (intro full.no_ellipsis_first groups_less) simp
  ultimately have "parse6 (expanded_text b) = Some b" unfolding parse6_def c using assms by (simp add: finish6_def)
  moreover have "\<forall>x\<in>set (expanded_text b). x = CHR '':'' \<or> hex_digit_value x \<noteq> None"
    unfolding expanded_text_groups using full.text_chars [OF groups_less] by blast
  moreover have "CHR '':'' \<in> set (expanded_text b)" by (simp add: expanded_text_groups upt_conv_Cons)
  ultimately show ?thesis using ParseAddr_hex_colon by simp
qed

lemma ParseIP_expanded: "length b = 16 \<Longrightarrow> net_ParseIP (expanded_text b) = Some b"
  by (simp add: net_ParseIP_def ParseAddr_expanded)

subsection \<open>What a filter means\<close>

lemma tok_loop_quoted:
  assumes "dbl 39 s" "\<not> starts_with 39 r"
  shows "tok_loop close rt k (39 # s @ 39 # r) = map_option ((#) (plain_token tkString (39 # s @ [39]))) (tok_loop close rt k r)"
proof -
  have "scan_quoted 39 (s @ 39 # r) = (s, 39 # r)" using assms by (simp add: dbl_def)
  then show ?thesis by (intro tok_loop_emit) (simp add: lex_one_def IsSpace_def)
qed

definition one_literal :: "runes \<Rightarrow> bool" where
  "one_literal l \<longleftrightarrow> (\<exists>s. l = 39 # s @ [39] \<and> dbl 39 s)"

lemma literal_token:
  "one_literal l \<Longrightarrow> \<not> starts_with 39 r \<Longrightarrow>
   tok_loop close rt k (l @ r) = map_option ((#) (plain_token tkString l)) (tok_loop close rt k r)"
  by (auto simp: one_literal_def tok_loop_quoted)

lemma dbl_plain: "39 \<notin> set s \<Longrightarrow> dbl 39 s"
  by (induction s) (auto intro: dbl_Nil dbl_Cons)

definition addr_char :: "char \<Rightarrow> bool" where
  "addr_char c \<longleftrightarrow> c = CHR '':'' \<or> c = CHR ''.'' \<or> hex_digit_value c \<noteq> None"

lemma addr_text_literal:
  assumes "\<forall>c\<in>set s. addr_char c"
  shows "one_literal (quoted_text s)"
proof -
  have "byte_val c \<noteq> 39" if "c \<in> set s" for c
  proof
    assume "byte_val c = 39"
    then have "\<not> addr_char c" by (auto simp: addr_char_def hex_digit_value_def)
    with assms that show False by blast
  qed
  then have "39 \<notin> set (asc s)" unfolding asc_def set_map by (metis imageE)
  then show ?thesis by (auto simp: one_literal_def quoted_text_def dbl_plain)
qed

lemma Join_chars: "\<forall>t\<in>set ts. \<forall>c\<in>set t. P c \<Longrightarrow> \<forall>c\<in>set sep. P c \<Longrightarrow> \<forall>c\<in>set (Join ts sep). P c"
  by (induction ts sep rule: Join.induct) auto

lemma v4_chars:
  assumes "length b = 4"
  shows "\<forall>c\<in>set (ipv4BytesToString b). addr_char c"
proof -
  have "addr_char c" if "c \<in> set (Itoa n)" for c n
    using Itoa_digits [OF that] by (simp add: addr_char_def hex_digit_value_def)
  then have "\<forall>c\<in>set (Join (map (\<lambda>c. Itoa (byte_val c)) b) ''.''). addr_char c"
    by (intro Join_chars) (auto simp: addr_char_def)
  moreover have "b \<noteq> []" using assms by auto
  ultimately show ?thesis using assms by (simp add: ipv4BytesToString_def ipv4_loop_Join)
qed

lemma v6_chars:
  assumes "length b = 16"
  shows "\<forall>c\<in>set (ipv6BytesToString b). addr_char c" "\<forall>c\<in>set (expanded_text b). addr_char c"
proof -
  show "\<forall>c\<in>set (expanded_text b). addr_char c"
    unfolding expanded_text_groups addr_char_def using full.text_chars [OF groups_less] by blast
  show "\<forall>c\<in>set (ipv6BytesToString b). addr_char c"
    using appendTo6_chars(1) [OF assms] v4_chars [of "drop 12 b"] assms by (auto simp: ipv6BytesToString_def addr_char_def)
qed

lemma ipLiterals_cases:
  obtains b z where "ParseAddr (utf8_text (text_trim v)) = Some (V6 b z)"
      "ipLiterals v = [quoted_text (ipv6BytesToString b), quoted_text (expanded_text b)]" "length b = 16"
    | "ipLiterals v = [quoted_value v]"
proof (cases "\<exists>b z. ParseAddr (utf8_text (text_trim v)) = Some (V6 b z)")
  case True
  then show ?thesis using that(1) ParseAddr_length(1) by (fastforce simp: ipLiterals_def)
next
  case False
  then show ?thesis using that(2) by (auto simp: ipLiterals_def split: option.splits addr.splits)
qed

lemma ipLiterals_one: "\<forall>l\<in>set (ipLiterals v). one_literal l"
proof -
  have "one_literal (quoted_value v)" using dbl_SafeString by (auto simp: one_literal_def quoted_value_def)
  then show ?thesis by (cases v rule: ipLiterals_cases) (auto simp: addr_text_literal v6_chars)
qed

text \<open>The tokens between the column and the end of a clause.\<close>

definition word_token :: "go_rt \<Rightarrow> string \<Rightarrow> token" where
  "word_token rt w = ident_token rt (asc w)"

definition literal_tokens :: "go_rt \<Rightarrow> string \<Rightarrow> string list \<Rightarrow> runes list \<Rightarrow> token list" where
  "literal_tokens rt op ws lits =
     (case lits of
        [l] \<Rightarrow> [plain_token tkOp (asc op), plain_token tkString l]
      | _ \<Rightarrow> map (word_token rt) ws @ [plain_token tkLParen (asc ''('')]
             @ [plain_token tkString (lits ! 0), plain_token tkComma (asc '',''), plain_token tkString (lits ! 1)]
             @ [plain_token tkRParen (asc '')'')])"

lemma tok_loop_word:
  assumes "w \<noteq> []" "\<forall>c\<in>set w. 65 \<le> byte_val c \<and> byte_val c \<le> 90"
  shows "tok_loop close rt k (asc w @ 32 # s) = map_option ((#) (word_token rt w)) (tok_loop close rt k s)"
proof -
  obtain c cs where w: "w = c # cs" using assms(1) by (cases w) auto
  have "tok_loop close rt k (asc w @ 32 # s) = map_option ((#) (word_token rt w)) (tok_loop close rt k (32 # s))"
    unfolding w word_token_def ident_token_def asc_def list.map append_Cons using assms w
    by (intro tok_loop_ident) (auto simp: IsLetter_def IsDigit_def ident_rune_def)
  then show ?thesis by (simp add: tok_loop_space IsSpace_def)
qed

lemma tok_loop_list:
  assumes "one_literal a" "one_literal b"
  shows "tok_loop close rt k (40 # join_runes [a, b] (asc '', '') @ asc '')'') =
      Some [plain_token tkLParen (asc ''(''), plain_token tkString a, plain_token tkComma (asc '',''),
            plain_token tkString b, plain_token tkRParen (asc '')'')]"
proof -
  note plain = lex_one_def IsSpace_def IsDigit_def IsLetter_def tryDollar_other asc_def
  have p: "tok_loop close rt k (40 # s) = map_option ((#) (plain_token tkLParen [40])) (tok_loop close rt k s)"
    "tok_loop close rt k (44 # s) = map_option ((#) (plain_token tkComma [44])) (tok_loop close rt k s)"
    "tok_loop close rt k (41 # s) = map_option ((#) (plain_token tkRParen [41])) (tok_loop close rt k s)" for s
    by (rule tok_loop_emit; simp add: plain)+
  have "tok_loop close rt k (b @ [41]) = Some [plain_token tkString b, plain_token tkRParen [41]]"
    by (simp add: literal_token [OF assms(2)] p starts_with_def)
  then have "tok_loop close rt k (a @ 44 # 32 # b @ [41]) =
      Some [plain_token tkString a, plain_token tkComma [44], plain_token tkString b, plain_token tkRParen [41]]"
    by (simp add: literal_token [OF assms(1)] p tok_loop_space IsSpace_def starts_with_def)
  then show ?thesis by (simp add: asc_def p)
qed

text \<open>An operator between the column and a single literal.\<close>

lemma tok_loop_op:
  assumes "op = ''='' \<or> op = ''!=''" "one_literal l"
  shows "tok_loop close rt k (32 # asc op @ 32 # l) = Some [plain_token tkOp (asc op), plain_token tkString l]"
proof -
  note plain = lex_one_def IsSpace_def IsDigit_def IsLetter_def tryDollar_other asc_def two_char_ops_def
  have p: "tok_loop close rt k (61 # 32 # s) = map_option ((#) (plain_token tkOp [61])) (tok_loop close rt k (32 # s))"
    "tok_loop close rt k (33 # 61 # s) = map_option ((#) (plain_token tkOp [33, 61])) (tok_loop close rt k s)" for s
    by (rule tok_loop_emit; simp add: plain)+
  have "tok_loop close rt k l = Some [plain_token tkString l]"
    using literal_token [OF assms(2), of "[]"] by (simp add: starts_with_def)
  with assms(1) show ?thesis by (auto simp: asc_def p tok_loop_space IsSpace_def)
qed

lemma tok_loop_column:
  assumes "column_name col"
  shows "tok_loop close rt k (col @ 32 # s) = map_option ((#) (ident_token rt col)) (tok_loop close rt k (32 # s))"
proof -
  obtain c cs where c: "col = c # cs" "IsLetter rt c \<or> c = 95" "c < 0x80" "\<forall>x\<in>set cs. ident_rune rt x"
    using column_name_Cons [OF assms] .
  have "\<not> ident_rune rt 32" by (simp add: ident_rune_def IsLetter_def IsDigit_def)
  then show ?thesis unfolding c(1) ident_token_def append_Cons by (intro tok_loop_ident c) simp
qed

lemma clause_tokens:
  assumes "column_name col" "op = ''='' \<or> op = ''!=''" "ws = [''IN''] \<or> ws = [''NOT'', ''IN'']"
  shows "tokenize rt (let lits = ipLiterals v in
            if length lits = 1 then col @ asc ('' '' @ op @ '' '') @ lits ! 0
            else col @ asc ('' '' @ Join ws '' '' @ '' ('') @ join_runes lits (asc '', '') @ asc '')'') =
         Some (ident_token rt col # literal_tokens rt op ws (ipLiterals v))"
proof (cases v rule: ipLiterals_cases)
  case (1 b z)
  let ?l = "[quoted_text (ipv6BytesToString b), quoted_text (expanded_text b)]"
  have list: "tok_loop close rt k (32 # 40 # join_runes ?l (asc '', '') @ asc '')'') =
      Some (literal_tokens rt op [] ?l)" for close k
    using ipLiterals_one [of v] 1(2) tok_loop_list [of "?l ! 0" "?l ! 1" close rt k]
    by (simp add: literal_tokens_def tok_loop_space IsSpace_def)
  have word: "tok_loop close rt k (32 # asc w @ 32 # s) = map_option ((#) (word_token rt w)) (tok_loop close rt k (32 # s))"
    if "w = ''IN'' \<or> w = ''NOT''" for close k w s
  proof -
    have "tok_loop close rt k (asc w @ 32 # s) = map_option ((#) (word_token rt w)) (tok_loop close rt k s)"
      using that by (intro tok_loop_word) auto
    then show ?thesis by (simp add: tok_loop_space IsSpace_def)
  qed
  have words: "tok_loop close rt k (32 # asc (Join ws '' '') @ 32 # s) =
      map_option (\<lambda>ts. map (word_token rt) ws @ ts) (tok_loop close rt k (32 # s))" for close k s
  proof -
    have join: "32 # asc (Join [''NOT'', ''IN''] '' '') @ 32 # s = 32 # asc ''NOT'' @ 32 # asc ''IN'' @ 32 # s"
      by (simp add: asc_def)
    from assms(3) show ?thesis
    proof
      assume ws: "ws = [''NOT'', ''IN'']"
      show ?thesis unfolding ws join using word [of "''NOT''" close k "asc ''IN'' @ 32 # s"] word [of "''IN''" close k s]
        by (simp add: option.map_comp comp_def)
    qed (use word [of "''IN''" close k s] in simp)
  qed
  have op: "asc ('' '' @ Join ws '' '' @ '' ('') @ s = 32 # asc (Join ws '' '') @ 32 # 40 # s" for s
    by (simp add: asc_def)
  show ?thesis
    unfolding 1(2) Let_def tokenize_def op
    by (simp add: tok_loop_column [OF assms(1)] words list [simplified]) (simp add: literal_tokens_def)
next
  case 2
  have op: "asc ('' '' @ op @ '' '') @ s = 32 # asc op @ 32 # s" for s
    by (simp add: asc_def)
  have lit: "one_literal (quoted_value v)" using ipLiterals_one [of v] 2 by simp
  show ?thesis
    unfolding 2 Let_def tokenize_def
    by (simp add: op [simplified] tok_loop_column [OF assms(1)] tok_loop_op [OF assms(2) lit] literal_tokens_def)
qed

text \<open>
  C6. An address filter is exact. Whatever is typed, the clause reads as the column, the operator and one or two
  string literals. When the text is an IPv6 address in any form (zone and surrounding blanks included), the literals
  match the stored texts of this address, in RFC 5952 form and in the expanded form of older lakes, and of no other
  address.
\<close>

theorem ip_filter_exact:
  assumes "column_name col"
  shows "tokenize rt (IPEqualsClause col v) =
           Some (ident_token rt col # literal_tokens rt ''='' [''IN''] (ipLiterals v))
       \<and> tokenize rt (IPNotEqualsClause col v) =
           Some (ident_token rt col # literal_tokens rt ''!='' [''NOT'', ''IN''] (ipLiterals v))
       \<and> (ParseAddr (utf8_text (text_trim v)) = Some (V6 b z) \<and> length stored = 16 \<longrightarrow>
            (quoted_text (ipv6BytesToString stored) \<in> set (ipLiterals v) \<longleftrightarrow> stored = b)
          \<and> (quoted_text (expanded_text stored) \<in> set (ipLiterals v) \<longleftrightarrow> stored = b))"
proof -
  have eq: "tokenize rt (IPEqualsClause col v) =
      Some (ident_token rt col # literal_tokens rt ''='' [''IN''] (ipLiterals v))"
    using clause_tokens [OF assms, of "''=''" "[''IN'']" rt v, unfolded Join.simps append_Cons append_Nil]
    by (simp add: IPEqualsClause_def)
  have ne: "tokenize rt (IPNotEqualsClause col v) =
      Some (ident_token rt col # literal_tokens rt ''!='' [''NOT'', ''IN''] (ipLiterals v))"
    using clause_tokens [OF assms, of "''!=''" "[''NOT'', ''IN'']" rt v, unfolded Join.simps append_Cons append_Nil]
    by (simp add: IPNotEqualsClause_def)
  have inj: "quoted_text s = quoted_text t \<longleftrightarrow> s = t" for s t
    by (auto simp: quoted_text_def asc_def inj_map_eq_map inj_on_def)
  have "(quoted_text (ipv6BytesToString stored) \<in> set (ipLiterals v) \<longleftrightarrow> stored = b) \<and>
      (quoted_text (expanded_text stored) \<in> set (ipLiterals v) \<longleftrightarrow> stored = b)"
    if v: "ParseAddr (utf8_text (text_trim v)) = Some (V6 b z)" and s: "length stored = 16"
  proof -
    have "length b = 16" by (rule ParseAddr_length(1) [OF v])
    note reads = ParseIP_v6 [OF this] ParseIP_expanded [OF this] ParseIP_v6 [OF s] ParseIP_expanded [OF s]
    have "set (ipLiterals v) = {quoted_text (ipv6BytesToString b), quoted_text (expanded_text b)}"
      using v by (simp add: ipLiterals_def)
    then show ?thesis unfolding inj [symmetric] using reads by (auto simp: inj)
  qed
  with eq ne show ?thesis by blast
qed

definition demo_addr :: bytes where
  "demo_addr = [CHR 0xFE, CHR 0x80] @ replicate 13 (CHR 0x00) @ [CHR 0x01]"

text \<open>A typed address text reaches the parser unchanged.\<close>

lemma utf8_asc:
  assumes "\<forall>c\<in>set s. addr_char c" "s \<noteq> []"
  shows "utf8_text (text_trim (asc s)) = s"
proof -
  have plain: "\<not> IsSpace (byte_val c) \<and> utf8_rune (byte_val c) = [c]" if "addr_char c" for c
    using that by (auto simp: addr_char_def hex_digit_value_def IsSpace_def utf8_rune_def Let_def split: if_splits)
  have "text_trim (asc s) = asc s"
    using assms plain by (intro text_trim_id) (auto simp: asc_def hd_map last_map)
  moreover have "utf8_text (asc s) = s" using assms(1) plain
    by (induction s) (auto simp: utf8_text_def asc_def)
  ultimately show ?thesis by simp
qed

theorem ip_filter_exact_witness:
  "quoted_text (ipv6BytesToString demo_addr) \<in> set (ipLiterals (asc (expanded_text demo_addr))) \<and>
   tokenize ascii_rt (IPEqualsClause (asc ''src_ip'') (asc (expanded_text demo_addr))) \<noteq> None"
proof -
  have d: "length demo_addr = 16" by (simp add: demo_addr_def)
  have "utf8_text (text_trim (asc (expanded_text demo_addr))) = expanded_text demo_addr"
    by (intro utf8_asc v6_chars d) (simp add: expanded_text_def upt_conv_Cons hex_byte_def)
  moreover have "column_name (asc ''src_ip'')" by (simp add: column_name_def asc_def)
  ultimately show ?thesis
    using ip_filter_exact [of "asc ''src_ip''" ascii_rt "asc (expanded_text demo_addr)" demo_addr "[]" demo_addr]
      ParseAddr_expanded [OF d] d by simp
qed

end
