(* ===== verification/Pcap_Writer.thy ===== *)
theory Pcap_Writer
  imports Net_Addr
begin

text \<open>
  src/pcapwriter/writer.go: the libpcap file into which messages are exported, one Ethernet frame with an IPv4 or IPv6
  header, a UDP header and the payload for each. The second part is a reader of such files, as the format says
  (it trusts nothing but the length fields of the file); what was written is read back when both addresses
  are of one family and the packet fits the 16-bit length fields.
\<close>

subsection \<open>The writer\<close>

definition le_bytes :: "nat \<Rightarrow> nat \<Rightarrow> bytes" where
  "le_bytes k v = rev (be_bytes k v)"

definition pcapMagic :: nat where "pcapMagic = 0xA1B2C3D4"
definition pcapMajor :: nat where "pcapMajor = 2"
definition pcapMinor :: nat where "pcapMinor = 4"
definition pcapSnapLen :: nat where "pcapSnapLen = 65535"
definition pcapLinkEther :: nat where "pcapLinkEther = 1"

text \<open>The state of the writer is its buffer. \<open>bytes.Buffer\<close> never returns an error.\<close>

definition NewPCAPWriter :: bytes where
  "NewPCAPWriter =
     le_bytes 4 pcapMagic @ le_bytes 2 pcapMajor @ le_bytes 2 pcapMinor @ le_bytes 4 0 @ le_bytes 4 0
     @ le_bytes 4 pcapSnapLen @ le_bytes 4 pcapLinkEther"

text \<open>\<open>net.IP\<close> is a byte slice; the nil slice is \<open>None\<close>.\<close>

definition To4 :: "bytes \<Rightarrow> bytes option" where
  "To4 ip =
     (if length ip = 4 then Some ip
      else if length ip = 16 \<and> Is4In6 ip then Some (drop 12 ip)
      else None)"

definition To16 :: "bytes \<Rightarrow> bytes option" where
  "To16 ip = (if length ip = 4 then Some (v4_mapped ip) else if length ip = 16 then Some ip else None)"

text \<open>\<open>copy(hdr[a:a+n], ip)\<close> into a fresh header: the bytes that are not covered stay zero.\<close>

definition copied_ip :: "nat \<Rightarrow> bytes option \<Rightarrow> bytes" where
  "copied_ip n ip =
     (case ip of None \<Rightarrow> replicate n (byte_of 0) | Some b \<Rightarrow> take n b @ replicate (n - length b) (byte_of 0))"

definition buildIPv4Header :: "bytes option \<Rightarrow> bytes option \<Rightarrow> 16 word \<Rightarrow> bytes" where
  "buildIPv4Header src dst udpTotalLen =
     [byte_of 0x45, byte_of 0x00] @ be_bytes 2 (unat (20 + udpTotalLen)) @ be_bytes 2 0 @ be_bytes 2 0
     @ [byte_of 64, byte_of 17] @ replicate 2 (byte_of 0)
     @ copied_ip 4 (Option.bind src To4) @ copied_ip 4 (Option.bind dst To4)"

definition buildIPv6Header :: "bytes \<Rightarrow> bytes \<Rightarrow> 16 word \<Rightarrow> bytes" where
  "buildIPv6Header src dst udpTotalLen =
     [byte_of 0x60] @ replicate 3 (byte_of 0) @ be_bytes 2 (unat udpTotalLen) @ [byte_of 17, byte_of 64]
     @ copied_ip 16 (To16 src) @ copied_ip 16 (To16 dst)"

definition parse_or :: "string \<Rightarrow> string \<Rightarrow> bytes" where
  "parse_or text fallback = (case net_ParseIP text of Some ip \<Rightarrow> ip | None \<Rightarrow> the (net_ParseIP fallback))"

definition eth_addresses :: bytes where
  "eth_addresses = map byte_of [0x06, 0x3d, 0x20, 0x12, 0x10, 0x20, 0x02, 0x5d, 0x69, 0x74, 0x20, 0x12]"

definition buildUDPPacket :: "string \<Rightarrow> string \<Rightarrow> 16 word \<Rightarrow> 16 word \<Rightarrow> bytes \<Rightarrow> bytes" where
  "buildUDPPacket srcIP dstIP srcPort dstPort payload =
     (let src = parse_or srcIP ''127.0.0.1'';
          dst = parse_or dstIP ''127.0.0.2'';
          isV6 = (To4 src = None \<and> To16 src \<noteq> None);
          udpPayloadLen = word_of_nat (8 + length payload);
          udp = be_bytes 2 (unat srcPort) @ be_bytes 2 (unat dstPort) @ be_bytes 2 (unat udpPayloadLen) @ be_bytes 2 0;
          (etherType, ipHdr) =
            (if isV6 then ([byte_of 0x86, byte_of 0xDD], buildIPv6Header src dst udpPayloadLen)
             else ([byte_of 0x08, byte_of 0x00], buildIPv4Header (To4 src) (To4 dst) udpPayloadLen))
      in eth_addresses @ etherType @ ipHdr @ udp @ payload)"

text \<open>A time is its number of nanoseconds since the epoch.\<close>

definition Unix :: "int \<Rightarrow> int" where
  "Unix ts = ts div 1000000000"

definition Nanosecond :: "int \<Rightarrow> int" where
  "Nanosecond ts = ts mod 1000000000"

definition WritePacket :: "bytes \<Rightarrow> int \<Rightarrow> string \<Rightarrow> string \<Rightarrow> 16 word \<Rightarrow> 16 word \<Rightarrow> bytes \<Rightarrow> bytes" where
  "WritePacket buf ts srcIP dstIP srcPort dstPort payload =
     (let pkt = buildUDPPacket srcIP dstIP srcPort dstPort payload;
          sec = word_of_int (Unix ts) :: 32 word;
          usec = word_of_int (Nanosecond ts div 1000) :: 32 word;
          capLen = word_of_nat (length pkt) :: 32 word
      in buf @ (le_bytes 4 (unat sec) @ le_bytes 4 (unat usec) @ le_bytes 4 (unat capLen) @ le_bytes 4 (unat capLen)) @ pkt)"

subsection \<open>A reader of the format\<close>

record udp_packet =
  up_sec :: nat
  up_usec :: nat
  up_src :: bytes
  up_dst :: bytes
  up_sport :: nat
  up_dport :: nat
  up_payload :: bytes

definition le_val :: "bytes \<Rightarrow> nat" where
  "le_val b = be_val (rev b)"

text \<open>\<open>field i n s\<close>: the \<open>n\<close> bytes at offset \<open>i\<close>.\<close>

definition field :: "nat \<Rightarrow> nat \<Rightarrow> bytes \<Rightarrow> bytes" where
  "field i n s = take n (drop i s)"

definition read_udp :: "bytes \<Rightarrow> bytes \<Rightarrow> bytes \<Rightarrow> udp_packet option" where
  "read_udp src dst u =
     (let n = be_val (field 4 2 u) in
      if length u < 8 \<or> n < 8 \<or> length u < n then None
      else Some \<lparr>up_sec = 0, up_usec = 0, up_src = src, up_dst = dst,
                 up_sport = be_val (field 0 2 u), up_dport = be_val (field 2 2 u), up_payload = field 8 (n - 8) u\<rparr>)"

definition read_ipv4 :: "bytes \<Rightarrow> udp_packet option" where
  "read_ipv4 p =
     (let n = be_val (field 2 2 p) in
      if length p < 20 \<or> be_val (field 0 1 p) \<noteq> 0x45 \<or> n < 20 \<or> length p < n \<or> be_val (field 9 1 p) \<noteq> 17 then None
      else read_udp (v4_mapped (field 12 4 p)) (v4_mapped (field 16 4 p)) (field 20 (n - 20) p))"

definition read_ipv6 :: "bytes \<Rightarrow> udp_packet option" where
  "read_ipv6 p =
     (let n = be_val (field 4 2 p) in
      if length p < 40 \<or> be_val (field 0 1 p) \<noteq> 0x60 \<or> length p < 40 + n \<or> be_val (field 6 1 p) \<noteq> 17 then None
      else read_udp (field 8 16 p) (field 24 16 p) (field 40 n p))"

definition read_frame :: "bytes \<Rightarrow> udp_packet option" where
  "read_frame f =
     (if length f < 14 then None
      else if be_val (field 12 2 f) = 0x0800 then read_ipv4 (drop 14 f)
      else if be_val (field 12 2 f) = 0x86DD then read_ipv6 (drop 14 f)
      else None)"

text \<open>The records behind the file header; a captured length beyond the snap length is an error, as in libpcap.\<close>

function read_records :: "nat \<Rightarrow> bytes \<Rightarrow> udp_packet list option" where
  "read_records snaplen s =
     (if s = [] then Some []
      else let n = le_val (field 8 4 s) in
        if length s < 16 + n \<or> snaplen < n then None
        else case read_frame (field 16 n s) of
          None \<Rightarrow> None
        | Some p \<Rightarrow>
            map_option ((#) (p\<lparr>up_sec := le_val (field 0 4 s), up_usec := le_val (field 4 4 s)\<rparr>))
              (read_records snaplen (drop (16 + n) s)))"
  by pat_completeness auto
termination
  by (relation "measure (\<lambda>(m, s). length s)") auto

declare read_records.simps [simp del]

definition read_pcap :: "bytes \<Rightarrow> udp_packet list option" where
  "read_pcap s =
     (if length s < 24 \<or> le_val (field 0 4 s) \<noteq> 0xA1B2C3D4 \<or> le_val (field 4 2 s) \<noteq> 2 \<or> le_val (field 20 4 s) \<noteq> 1 then None
      else read_records (le_val (field 16 4 s)) (drop 24 s))"

subsection \<open>A packet is read back\<close>

lemma field_skip [simp]: "field (length a + i) n (a @ s) = field i n s"
  by (simp add: field_def)

lemma field_here: "length a = n \<Longrightarrow> field 0 n (a @ s) = a"
  by (simp add: field_def)

lemma le_val_le_bytes: "v < 256 ^ k \<Longrightarrow> le_val (le_bytes k v) = v"
  by (simp add: le_val_def le_bytes_def be_val_be_bytes)

lemma length_le_bytes [simp]: "length (le_bytes k v) = k"
  by (simp add: le_bytes_def)

lemma unat_word16 [simp]: "unat (w :: 16 word) mod 65536 = unat w" "unat w < 65536"
  using unsigned_less [of w, where 'a = nat] by simp_all

definition same_family :: "bytes \<Rightarrow> bytes \<Rightarrow> bool" where
  "same_family src dst \<longleftrightarrow> length src = 16 \<and> length dst = 16 \<and> Is4In6 src = Is4In6 dst"

lemma read_udp_built:
  assumes "8 + length payload < 65536"
  shows "read_udp src dst (be_bytes 2 (unat (sp :: 16 word)) @ be_bytes 2 (unat (dp :: 16 word))
             @ be_bytes 2 (8 + length payload) @ be_bytes 2 0 @ payload) =
         Some \<lparr>up_sec = 0, up_usec = 0, up_src = src, up_dst = dst, up_sport = unat sp, up_dport = unat dp, up_payload = payload\<rparr>"
  using assms
  by (simp add: read_udp_def field_def be_val_be_bytes Let_def numeral_2_eq_2 [symmetric] del: be_bytes.simps)

lemma be_val_single [simp]: "be_val [c] = byte_val c"
  by (simp add: be_val_def)

lemma be_val_pair [simp]: "be_val [c, d] = byte_val c * 256 + byte_val d"
  by (simp add: be_val_def)

lemma copied_ip_full: "length b = n \<Longrightarrow> copied_ip n (Some b) = b"
  by (simp add: copied_ip_def)

lemma read_ipv4_built:
  assumes "length src = 4" "length dst = 4" "28 + length payload < 65536" "length u = 8 + length payload"
  shows "read_ipv4 (buildIPv4Header (Some src) (Some dst) (word_of_nat (8 + length payload)) @ u) =
      read_udp (v4_mapped src) (v4_mapped dst) u"
proof -
  have "20 + word_of_nat (8 + length payload) = (word_of_nat (28 + length payload) :: 16 word)" by simp
  then have n: "unat (20 + word_of_nat (8 + length payload) :: 16 word) = 28 + length payload"
    using unat_of_nat16 [of "28 + length payload"] assms(3) by simp
  have c: "copied_ip 4 (Option.bind (Some src) To4) = src" "copied_ip 4 (Option.bind (Some dst) To4) = dst"
    using assms(1,2) by (simp_all add: To4_def copied_ip_full)
  show ?thesis unfolding buildIPv4Header_def n c
    using assms by (simp add: read_ipv4_def field_def be_val_be_bytes Let_def numeral_2_eq_2 [symmetric] del: be_bytes.simps)
qed

lemma read_ipv6_built:
  assumes "length src = 16" "length dst = 16" "8 + length payload < 65536" "length u = 8 + length payload"
  shows "read_ipv6 (buildIPv6Header src dst (word_of_nat (8 + length payload)) @ u) = read_udp src dst u"
proof -
  have n: "unat (word_of_nat (8 + length payload) :: 16 word) = 8 + length payload"
    using unat_of_nat16 [of "8 + length payload"] assms(3) by simp
  have c: "copied_ip 16 (To16 src) = src" "copied_ip 16 (To16 dst) = dst" using assms(1,2) by (simp_all add: To16_def copied_ip_full)
  show ?thesis unfolding buildIPv6Header_def n c
    using assms by (simp add: read_ipv6_def field_def be_val_be_bytes Let_def numeral_2_eq_2 [symmetric] del: be_bytes.simps)
qed

text \<open>The largest payload that the length fields can state: IPv4 counts its own header.\<close>

definition fits_fields :: "bytes \<Rightarrow> bytes \<Rightarrow> bool" where
  "fits_fields src payload \<longleftrightarrow> (if Is4In6 src then 28 else 8) + length payload < 65536"

lemma read_frame_built:
  assumes "same_family (parse_or srcIP ''127.0.0.1'') (parse_or dstIP ''127.0.0.2'')" "fits_fields (parse_or srcIP ''127.0.0.1'') payload"
  shows "read_frame (buildUDPPacket srcIP dstIP sp dp payload) =
      Some \<lparr>up_sec = 0, up_usec = 0, up_src = parse_or srcIP ''127.0.0.1'', up_dst = parse_or dstIP ''127.0.0.2'',
            up_sport = unat sp, up_dport = unat dp, up_payload = payload\<rparr>"
proof -
  let ?s = "parse_or srcIP ''127.0.0.1''" and ?d = "parse_or dstIP ''127.0.0.2''"
  let ?w = "word_of_nat (8 + length payload) :: 16 word"
  let ?u = "be_bytes 2 (unat sp) @ be_bytes 2 (unat dp) @ be_bytes 2 (unat ?w) @ be_bytes 2 0 @ payload"
  have len: "8 + length payload < 65536" using assms(2) by (auto simp: fits_fields_def split: if_splits)
  then have w: "unat ?w = 8 + length payload" using unat_of_nat16 [of "8 + length payload"] by simp
  have sd: "length ?s = 16" "length ?d = 16" using assms(1) by (simp_all add: same_family_def)
  have u: "length ?u = 8 + length payload" by (simp del: be_bytes.simps)
  have eth: "length eth_addresses = 12" by (simp add: eth_addresses_def)
  have udp: "read_udp a b ?u = Some \<lparr>up_sec = 0, up_usec = 0, up_src = a, up_dst = b,
      up_sport = unat sp, up_dport = unat dp, up_payload = payload\<rparr>" for a b
    unfolding w by (rule read_udp_built [OF len])
  show ?thesis
  proof (cases "Is4In6 ?s")
    case True
    then have d: "Is4In6 ?d" using assms(1) by (simp add: same_family_def)
    have "28 + length payload < 65536" using assms(2) True by (simp add: fits_fields_def)
    then have "read_ipv4 (buildIPv4Header (Some (drop 12 ?s)) (Some (drop 12 ?d)) ?w @ ?u) =
        read_udp (v4_mapped (drop 12 ?s)) (v4_mapped (drop 12 ?d)) ?u"
      using sd u by (intro read_ipv4_built) auto
    moreover have "buildUDPPacket srcIP dstIP sp dp payload = eth_addresses @ [byte_of 0x08, byte_of 0x00] @
        buildIPv4Header (Some (drop 12 ?s)) (Some (drop 12 ?d)) ?w @ ?u"
      using sd True d by (simp add: buildUDPPacket_def To4_def Let_def del: be_bytes.simps)
    ultimately show ?thesis using udp eth
      by (simp add: read_frame_def field_def Is4In6_mapped [OF _ True] Is4In6_mapped [OF _ d] sd del: be_bytes.simps)
  next
    case False
    have "read_ipv6 (buildIPv6Header ?s ?d ?w @ ?u) = read_udp ?s ?d ?u"
      using sd u len by (intro read_ipv6_built) auto
    moreover have "buildUDPPacket srcIP dstIP sp dp payload =
        eth_addresses @ [byte_of 0x86, byte_of 0xDD] @ buildIPv6Header ?s ?d ?w @ ?u"
      using sd False by (simp add: buildUDPPacket_def To4_def To16_def Let_def del: be_bytes.simps)
    ultimately show ?thesis using udp eth
      by (simp add: read_frame_def field_def del: be_bytes.simps)
  qed
qed

lemma length_built:
  assumes "same_family (parse_or srcIP ''127.0.0.1'') (parse_or dstIP ''127.0.0.2'')"
  shows "length (buildUDPPacket srcIP dstIP sp dp payload) =
      14 + (if Is4In6 (parse_or srcIP ''127.0.0.1'') then 20 else 40) + 8 + length payload"
proof -
  have c: "length (copied_ip n x) = n" for n x by (auto simp: copied_ip_def min_def split: option.splits)
  show ?thesis using assms
    by (auto simp: buildUDPPacket_def buildIPv4Header_def buildIPv6Header_def To4_def To16_def same_family_def
        eth_addresses_def Let_def c simp del: be_bytes.simps)
qed

text \<open>What a packet stands for.\<close>

definition packet_of :: "int \<Rightarrow> string \<Rightarrow> string \<Rightarrow> 16 word \<Rightarrow> 16 word \<Rightarrow> bytes \<Rightarrow> udp_packet" where
  "packet_of ts srcIP dstIP sp dp payload =
     \<lparr>up_sec = nat (Unix ts mod 2 ^ 32), up_usec = nat (Nanosecond ts div 1000),
      up_src = parse_or srcIP ''127.0.0.1'', up_dst = parse_or dstIP ''127.0.0.2'',
      up_sport = unat sp, up_dport = unat dp, up_payload = payload\<rparr>"

definition writable :: "string \<Rightarrow> string \<Rightarrow> bytes \<Rightarrow> bool" where
  "writable srcIP dstIP payload \<longleftrightarrow>
     same_family (parse_or srcIP ''127.0.0.1'') (parse_or dstIP ''127.0.0.2'')
     \<and> 62 + length payload < 65536"

lemma le_word32: "le_val (le_bytes 4 (unat (w :: 32 word))) = unat w"
  using unsigned_less [of w, where 'a = nat] by (intro le_val_le_bytes) simp

lemma read_records_step:
  assumes "le_val (field 8 4 s) = n" "16 + n \<le> length s" "n \<le> snaplen" "read_frame (field 16 n s) = Some p"
  shows "read_records snaplen s =
      map_option ((#) (p\<lparr>up_sec := le_val (field 0 4 s), up_usec := le_val (field 4 4 s)\<rparr>))
        (read_records snaplen (drop (16 + n) s))"
proof -
  have "s \<noteq> []" using assms(2) by auto
  with assms show ?thesis by (subst read_records.simps) (simp add: Let_def)
qed

lemma read_records_packet:
  assumes "writable srcIP dstIP payload"
  shows "read_records 65535 (WritePacket [] ts srcIP dstIP sp dp payload @ rest) =
      map_option ((#) (packet_of ts srcIP dstIP sp dp payload)) (read_records 65535 rest)"
proof -
  let ?pkt = "buildUDPPacket srcIP dstIP sp dp payload"
  let ?cap = "word_of_nat (length ?pkt) :: 32 word"
  have fam: "same_family (parse_or srcIP ''127.0.0.1'') (parse_or dstIP ''127.0.0.2'')"
    and fit: "fits_fields (parse_or srcIP ''127.0.0.1'') payload"
    using assms by (auto simp: writable_def fits_fields_def)
  have len: "length ?pkt \<le> 65535" unfolding length_built [OF fam] using assms by (auto simp: writable_def)
  then have cap: "unat ?cap = length ?pkt" by (intro unat_of_nat32) simp
  have sec: "unat (word_of_int (Unix ts) :: 32 word) = nat (Unix ts mod 2 ^ 32)"
    by (simp add: unat_eq_nat_uint uint_word_of_int)
  have "0 \<le> Nanosecond ts div 1000" "Nanosecond ts div 1000 < 2 ^ 32"
    by (auto simp: Nanosecond_def pos_imp_zdiv_nonneg_iff intro: order.strict_trans1 [OF zdiv_mono1 [of _ 1000000000]])
  then have usec: "unat (word_of_int (Nanosecond ts div 1000) :: 32 word) = nat (Nanosecond ts div 1000)"
    by (simp add: unat_eq_nat_uint uint_word_of_int)
  have w: "WritePacket [] ts srcIP dstIP sp dp payload @ rest =
      le_bytes 4 (unat (word_of_int (Unix ts) :: 32 word)) @ le_bytes 4 (unat (word_of_int (Nanosecond ts div 1000) :: 32 word))
      @ le_bytes 4 (unat ?cap) @ le_bytes 4 (unat ?cap) @ ?pkt @ rest" (is "_ = ?w")
    by (simp add: WritePacket_def Let_def)
  have "field 0 4 ?w = le_bytes 4 (unat (word_of_int (Unix ts) :: 32 word))"
    "field 4 4 ?w = le_bytes 4 (unat (word_of_int (Nanosecond ts div 1000) :: 32 word))"
    "field 8 4 ?w = le_bytes 4 (unat ?cap)" by (simp_all add: field_def)
  then have v: "le_val (field 0 4 ?w) = nat (Unix ts mod 2 ^ 32)" "le_val (field 4 4 ?w) = nat (Nanosecond ts div 1000)"
    "le_val (field 8 4 ?w) = length ?pkt" using le_word32 [of "word_of_int (Unix ts)"]
      le_word32 [of "word_of_int (Nanosecond ts div 1000)"] le_word32 [of ?cap] unfolding sec usec cap by simp_all
  have f: "field 16 (length ?pkt) ?w = ?pkt" "drop (16 + length ?pkt) ?w = rest" by (simp_all add: field_def)
  have "16 + length ?pkt \<le> length ?w" by simp
  from read_records_step [OF v(3) this len] show ?thesis
    unfolding w f v by (simp add: read_frame_built [OF fam fit] packet_of_def)
qed

lemma read_pcap_header: "read_pcap (NewPCAPWriter @ s) = read_records 65535 s"
proof -
  have v: "le_val (le_bytes 4 pcapMagic) = 0xA1B2C3D4" "le_val (le_bytes 2 pcapMajor) = 2"
    "le_val (le_bytes 4 pcapSnapLen) = 65535" "le_val (le_bytes 4 pcapLinkEther) = 1"
    by (simp_all add: le_val_le_bytes pcapMagic_def pcapMajor_def pcapSnapLen_def pcapLinkEther_def)
  show ?thesis by (simp add: NewPCAPWriter_def read_pcap_def field_def v)
qed

lemma WritePacket_append: "WritePacket buf ts srcIP dstIP sp dp payload = buf @ WritePacket [] ts srcIP dstIP sp dp payload"
  by (simp add: WritePacket_def Let_def)

text \<open>
  The header is chosen by the source address alone: behind an IPv4 source (or one that does not parse) an IPv6
  destination has no four-byte form, and the destination field stays zero.
\<close>

theorem mixed_families_lose_destination:
  assumes "To4 (parse_or srcIP ''127.0.0.1'') \<noteq> None" "To4 (parse_or dstIP ''127.0.0.2'') = None"
  shows "field 30 4 (buildUDPPacket srcIP dstIP sp dp payload) = replicate 4 (byte_of 0)"
proof -
  obtain s4 where s4: "To4 (parse_or srcIP ''127.0.0.1'') = Some s4" "length s4 = 4"
    using assms(1) by (auto simp: To4_def split: if_splits)
  with assms(2) show ?thesis
    by (simp add: buildUDPPacket_def buildIPv4Header_def eth_addresses_def field_def copied_ip_def To4_def Let_def
        del: be_bytes.simps)
qed

end
