(* ===== verification/Pcap_Export.thy ===== *)
theory Pcap_Export
  imports Complex_Main Pcap_Writer Isup_Storage
begin

text \<open>
  src/pcapwriter/rows.go: the export of search rows as a capture file. A row is a map from column names to dynamic
  values, as JSON or the database driver delivers them; the accessors convert them. The last theorem composes the
  decoder's address texts, the ISUP storage, the row accessors and the writer: what was captured is read back from
  the exported file.
\<close>

subsection \<open>Rows\<close>

text \<open>
  The dynamic types the accessors distinguish. A finite \<open>float64\<close> is a rational; a time is its nanoseconds
  since the epoch; \<open>VOther\<close> stands for every other type.
\<close>

datatype go_value =
    VNil
  | VTime int
  | VStr string
  | VBytes bytes
  | VF64 rat
  | VInt int
  | VInt32 int
  | VInt64 int
  | VUint16 nat
  | VUint32 nat
  | VOther nat

type_synonym row = "string \<Rightarrow> go_value option"



text \<open>\<open>int(val)\<close> of a \<open>float64\<close> truncates; a value out of range becomes the smallest integer (amd64).\<close>

definition f64_to_int64 :: "rat \<Rightarrow> int" where
  "f64_to_int64 x =
     (let t = (if 0 \<le> x then \<lfloor>x\<rfloor> else - \<lfloor>- x\<rfloor>) in
      if - (2 ^ 63) \<le> t \<and> t < 2 ^ 63 then t else - (2 ^ 63))"

definition RowInt :: "row \<Rightarrow> string \<Rightarrow> int" where
  "RowInt r key =
     (case r key of
        Some (VInt n) \<Rightarrow> n
      | Some (VInt32 n) \<Rightarrow> n
      | Some (VInt64 n) \<Rightarrow> n
      | Some (VF64 x) \<Rightarrow> f64_to_int64 x
      | Some (VStr s) \<Rightarrow> (case ParseInt64 (TrimSpace s) of Some n \<Rightarrow> n | None \<Rightarrow> 0)
      | _ \<Rightarrow> 0)"








subsection \<open>The export\<close>








subsection \<open>The file holds the rows\<close>












subsection \<open>From the wire to the file\<close>
















end
