(* ===== verification/Spec2Isabelle.thy ===== *)
theory Spec2Isabelle
  imports Hep_Ingest Hep_Stream Isup_Storage Sql_Safety Line_Proto Tiering_Example Writer_Alias Lake_Rows Ip_Filter Pcap_Export
begin

text \<open>
  Homer is a capture server for telephony signalling. This development models its data path, written in Go
  under src/src, and proves what makes each part correct.

  \<^bold>\<open>The program and its parts.\<close> A probe wraps each captured packet into a HEP packet. The \<^bold>\<open>writer\<close>
  (src/writer) receives HEP over UDP, TCP, TLS and HTTP, queues it, and its workers decode it (src/decoder),
  parse the SIP message inside (src/sipparser), move binary ISUP bodies out of the text (src/isup), publish it
  to live streams (src/stream/hepstream), forward it as line protocol (src/remotelog) and store it in a lake of
  parquet files (src/storage/ducklake). The storage side \<^bold>\<open>compacts\<close> the files of the lake
  (src/storage/ducklake/compactor) and moves old partitions to colder volumes. \<^bold>\<open>Line protocol\<close> from other
  senders enters through src/lineprotoreceiver. The \<^bold>\<open>coordinator\<close> and the search \<^bold>\<open>nodes\<close> answer queries;
  every SQL text that a user can influence passes the gate of src/coordinator/sqlvalidator.

  \<^bold>\<open>Which theory models what.\<close>
  \<^item> Homer_Prelude: the fragment of Go and of its packages strings and strconv that the code uses; results with
    errors and panics; big-endian and decimal numbers; scanning loops. Go_Utf8: unicode/utf8 and \<open>toUTF8\<close>.
  \<^item> Byte_Scan: the byte scanners, in the word-at-a-time and the portable build (fast_parser_asm.go,
    fast_parser_asm_fallback.go), both interpretations of one locale \<open>sip_scanner\<close>, and proved equal.
  \<^item> Sip_Zerocopy: the SIP parser of zerocopy.go. Its lemmas: which inputs are errors, what the body is, which
    occurrence of a header wins.
  \<^item> Isup_Preserve, Isup_Decode, Isup_Storage: preserve.go and decode.go of src/isup. The decoder never fails
    otherwise than with an error value; layouts and digit packing round trip; a message restored from storage is
    the original one.
  \<^item> Ip_Format, Hep_Types, Hep_Proto, Hep_Decoder, Hep_Pipeline: src/decoder. The chunk loop of \<open>parseHEP\<close>
    refines a list of chunks; \<open>Decode\<close> returns on every input; when it can panic; timestamps, deduplication,
    censoring and the stored text; the protobuf form round trips.
  \<^item> Hep_Ingest: the receivers, the bounded queue and the workers as interleaved steps (\<open>ingest_step\<close>); every
    packet is accounted for; streams are cut into frames that decode without a panic.
  \<^item> Hep_Stream: events, filters, configuration and the broker with its ring buffer and token bucket.
  \<^item> Line_Proto: writer and parser of the line protocol; what is written is read back.
  \<^item> Sql_Validator, Sql_Safety: the lexer and the validators of the SQL gate, what acceptance guarantees and where
    the lexer loses track.
  \<^item> Net_Addr: the address parser of Go's standard library, and that it reads back the texts of Ip_Format (locale
    \<open>group_printer\<close>, interpreted on the two ways in which the code writes the groups of an IPv6 address). Ip_Filter: the
    address clauses of ipfilter.go, which match exactly the typed address.
  \<^item> Pcap_Writer, Pcap_Export: src/pcapwriter, the capture file exported from search rows, with a reader of the format;
    what was captured, stored and exported is read back.
  \<^item> Lake_Db: error values, the retry loops (locale \<open>retry_loop\<close>, interpreted on both), SQL quoting, file paths and
    the frame of a catalog transaction. Lake_Compactor: the compactor, every operation from planning to the swap.
    Compaction_Safety: rows are neither lost nor duplicated. Compaction_Example: a lake on which the hypotheses hold.
  \<^item> Lake_Mover, Mover_Safety: the native mover (storage/ducklake/mover): paths, copiers, the transactions that register
    copies and retire the source; a move loses no row while others add rows. Lake_Tiering, Tiering_Safety:
    \<open>MovePartition\<close>, \<open>DeletePartition\<close> (tiered_storage.go) and the age-based passes (writer/tiering.go), the exact rows after a
    move, and the rows that late arrivals cost. Tiering_Example: two volumes on which the hypotheses hold.
  \<^item> Table_Writer: the double-buffered table writer of ducklake.go as interleaved actions of caller threads and
    flush worker (\<open>tw_step\<close>), with the invariant \<open>tw_inv\<close> of its reachable states: where every row is, that the
    writer is never stuck, what a flush waits for, and the failures in which rows are doubled or stranded.
    Writer_Alias: two writers on one pair of buffers lose rows.
  \<^item> Lake_Schema, Lake_Json, Lake_Date, Lake_Rows: table keys, table schemas and their routing; the hand written
    JSON of \<open>data_extra\<close> with its reader and its caches; the date cache; UUIDs and the rows that the HEP and
    SIPREC handlers append, compared with the columns of the tables that receive them.

  \<^bold>\<open>How the model corresponds to the code.\<close> Definitions keep the names of the functions and types they
  translate; a loop is a function with the suffix \<open>_loop\<close> or a name of its own. Go strings and byte slices are
  lists of characters (HOL's 256 characters are the byte values); the SQL lexer, which works on runes, has lists
  of code points. An index or slice out of range is the value \<open>Panics\<close>, an error is \<open>Fails\<close>, \<open>Inl\<close> or an option,
  an int64 that can overflow is wrapped by \<open>int64\<close> or is a word, a goroutine's turn is an explicit step or the
  argument \<open>others\<close>. Case folding is that of ASCII.

  \<^bold>\<open>Loops and fuel.\<close> \<open>parseHEP_loop\<close> is a \<open>partial_function\<close>, because a chunk of length zero would keep it in
  place; that it returns is a theorem. The protobuf decoder carries the fuel \<open>proto_fuel\<close>, one more than the number of
  bytes, and is proved to consume a byte per turn. Every other recursion is structural or has a measure.

  \<^bold>\<open>Parameters.\<close> What is not under src/ is an argument: the media type parser \<open>mp\<close> and base64 \<open>b64\<close>, float parsing
  \<open>pf\<close>, the Unicode tables \<open>rt\<close>, hash, cache and legacy configuration (\<open>env\<close>), time parsing and value printing in
  exports (\<open>export_env\<close>), the database and DuckLake (\<open>lake_sql\<close>,
  \<open>lake_md\<close>, \<open>tier_sql\<close>), the parquet library (\<open>parquet_lib\<close>), local files and cloud SDKs (\<open>copy_sys\<close>). The storage theorems name what they rely on as predicates on these
  records (\<open>lake_laws\<close>, \<open>parquet_laws\<close>, \<open>catalog_law\<close>, \<open>others_law\<close>, \<open>move_laws\<close>, \<open>tier_laws\<close>).

  \<^bold>\<open>Not modelled.\<close> Sockets, TLS, HTTP servers, logging, metrics and Lua (they are effects, or interpreters); the
  legacy SIP parser of parser.go beyond the record it shares; SQL that runs inside DuckDB (insertion, schema
  maintenance, snapshot expiry, backup); validation of WHERE clauses (regular expressions) and the textual INSERT builders;
  size-based tiering moves (floating point) and the volume maintenance run; the coordinator's handlers and services, which assemble JSON and SQL; configuration
  files; the user interface. Error texts print a quoted name (\<^verbatim>\<open>%q\<close>) with plain quotes.
\<close>

end
